(* ===== verification/HyPrelude.thy ===== *)
theory HyPrelude
  imports Complex_Main "HOL-Library.Word" "HOL-Library.Char_ord" "HOL-Library.List_Lexorder"
    "HOL-Library.Multiset" "HOL-Library.Sublist"
begin

text \<open>
  Shared vocabulary of the hyrouter development: Go's byte strings and byte slices, the
  \<open>error\<close> result of a validation pass, Go's 64-bit \<open>int\<close> arithmetic, and the list and
  map lemmas that several components use.
\<close>

unbundle bit_operations_syntax

named_theorems go_defs \<open>definitions of Go library operations, for evaluation\<close>

section \<open>Types\<close>

text \<open>A Go \<open>string\<close> is a sequence of bytes; \<open>char\<close> is one byte. A \<open>[]byte\<close> is a list of octets.\<close>

type_synonym byte = "8 word"
type_synonym bytes = "8 word list"
type_synonym u16 = "16 word"
type_synonym u32 = "32 word"
type_synonym u64 = "64 word"

definition byte_of_char :: "char \<Rightarrow> byte" where
  "byte_of_char c = of_nat (of_char c)"

definition char_of_byte :: "byte \<Rightarrow> char" where
  "char_of_byte b = char_of (unat b)"

text \<open>The conversions \<open>[]byte(s)\<close> and \<open>string(b)\<close>.\<close>

definition bytes_of_string :: "string \<Rightarrow> bytes" where
  "bytes_of_string s = map byte_of_char s"

definition string_of_bytes :: "bytes \<Rightarrow> string" where
  "string_of_bytes b = map char_of_byte b"

lemma of_char_less_256 [simp]: "(of_char c :: nat) < 256"
  by (metis of_char_mod_256 mod_less_divisor zero_less_numeral)

lemma char_of_byte_of_char [simp]: "char_of_byte (byte_of_char c) = c"
  by (simp add: char_of_byte_def byte_of_char_def unat_of_nat take_bit_eq_mod)

lemma byte_of_char_of_byte [simp]: "byte_of_char (char_of_byte b) = b"
proof -
  have "unat b < 256" by (rule order_less_le_trans, rule unsigned_less) simp
  then show ?thesis by (simp add: char_of_byte_def byte_of_char_def)
qed

lemma string_of_bytes_of_string [simp]: "string_of_bytes (bytes_of_string s) = s"
  by (simp add: string_of_bytes_def bytes_of_string_def map_idI)

lemma bytes_of_string_of_bytes [simp]: "bytes_of_string (string_of_bytes b) = b"
  by (simp add: string_of_bytes_def bytes_of_string_def map_idI)

lemma length_bytes_of_string [simp]: "length (bytes_of_string s) = length s"
  by (simp add: bytes_of_string_def)

lemma length_string_of_bytes [simp]: "length (string_of_bytes s) = length s"
  by (simp add: string_of_bytes_def)

lemma bytes_of_string_eq_Nil [simp]: "bytes_of_string s = [] \<longleftrightarrow> s = []"
  by (simp add: bytes_of_string_def)

section \<open>Go's 64-bit signed \<open>int\<close>\<close>

text \<open>The value of a Go \<open>int\<close> (64 bits, two's complement) after an operation that may overflow.\<close>

definition wrap64 :: "int \<Rightarrow> int" where
  "wrap64 x = (x + 2 ^ 63) mod 2 ^ 64 - 2 ^ 63"

definition int64_range :: "int \<Rightarrow> bool" where
  "int64_range x \<longleftrightarrow> - (2 ^ 63) \<le> x \<and> x < 2 ^ 63"

lemma wrap64_id: "int64_range x \<Longrightarrow> wrap64 x = x"
  by (simp add: wrap64_def int64_range_def)

lemma wrap64_range: "int64_range (wrap64 x)"
  by (simp add: wrap64_def int64_range_def)

section \<open>Validation passes\<close>

text \<open>
  A Go function that returns only an \<open>error\<close> is modelled by \<open>'e option\<close>, \<open>None\<close> for nil.
  \<open>check_seq\<close> is a sequence of \<open>if ... { return err }\<close> statements; \<open>check_each\<close> is such a
  statement inside \<open>for i, x := range xs\<close>.
\<close>

fun check_seq :: "'e option list \<Rightarrow> 'e option" where
  "check_seq [] = None"
| "check_seq (None # es) = check_seq es"
| "check_seq (Some e # es) = Some e"

fun check_each_from :: "nat \<Rightarrow> (nat \<Rightarrow> 'a \<Rightarrow> 'e option) \<Rightarrow> 'a list \<Rightarrow> 'e option" where
  "check_each_from i f [] = None"
| "check_each_from i f (x # xs) =
     (case f i x of Some e \<Rightarrow> Some e | None \<Rightarrow> check_each_from (Suc i) f xs)"

abbreviation check_each :: "(nat \<Rightarrow> 'a \<Rightarrow> 'e option) \<Rightarrow> 'a list \<Rightarrow> 'e option" where
  "check_each f xs \<equiv> check_each_from 0 f xs"

abbreviation fail_if :: "bool \<Rightarrow> 'e \<Rightarrow> 'e option" where
  "fail_if b e \<equiv> (if b then Some e else None)"

lemma check_seq_None [simp]: "check_seq (e # es) = None \<longleftrightarrow> e = None \<and> check_seq es = None"
  by (cases e) auto

lemma check_each_from_None:
  "check_each_from k f xs = None \<longleftrightarrow> (\<forall>i < length xs. f (k + i) (xs ! i) = None)"
proof (induction xs arbitrary: k)
  case Nil
  then show ?case by simp
next
  case (Cons x xs)
  show ?case
    by (auto simp: Cons.IH All_less_Suc2 split: option.splits)
qed

lemma check_each_None: "check_each f xs = None \<longleftrightarrow> (\<forall>i < length xs. f i (xs ! i) = None)"
  by (simp add: check_each_from_None)

lemma check_each_memD: "check_each (\<lambda>_. f) xs = None \<Longrightarrow> x \<in> set xs \<Longrightarrow> f x = None"
  by (auto simp: check_each_None in_set_conv_nth)

section \<open>Results\<close>

text \<open>A fallible Go function returns \<open>'e + 'a\<close>: \<open>Inl\<close> the error, \<open>Inr\<close> the value.\<close>

definition is_ok :: "'e + 'a \<Rightarrow> bool" where
  "is_ok r = (case r of Inl _ \<Rightarrow> False | Inr _ \<Rightarrow> True)"

lemma is_ok_simps [simp]: "is_ok (Inr x)" "\<not> is_ok (Inl e)"
  by (simp_all add: is_ok_def)

lemma is_ok_iff: "is_ok r \<longleftrightarrow> (\<exists>x. r = Inr x)"
  by (cases r) auto

section \<open>Lists\<close>

lemma drop_take_append [simp]:
  "length xs = n \<Longrightarrow> take n (xs @ ys) = xs" "length xs = n \<Longrightarrow> drop n (xs @ ys) = ys"
  by auto

lemma find_first_index:
  assumes "i < length xs" "P (xs ! i)"
  obtains j where "j \<le> i" "P (xs ! j)" "\<forall>k < j. \<not> P (xs ! k)"
proof -
  let ?j = "LEAST j. P (xs ! j)"
  have "P (xs ! ?j)" using assms(2) by (rule LeastI)
  moreover have "?j \<le> i" using assms(2) by (rule Least_le)
  moreover have "\<forall>k < ?j. \<not> P (xs ! k)" using not_less_Least by blast
  ultimately show ?thesis using that by blast
qed

lemma distinct_map_filter_upt [simp]: "distinct (filter P [0..<n])"
  by simp

end
