(* ===== verification/GoStrings.thy ===== *)
theory GoStrings
  imports GoUnicode
begin

text \<open>
  The operations of Go's packages \<^verbatim>\<open>strings\<close> and \<^verbatim>\<open>strconv\<close> that hyrouter calls, on byte
  strings: trimming, case mapping, prefixes, splitting, replacement, and decimal integers.
\<close>

section \<open>Trimming\<close>

text \<open>\<open>unicode.IsSpace\<close>.\<close>

definition is_space :: "nat \<Rightarrow> bool" where
  "is_space r \<longleftrightarrow> (9 \<le> r \<and> r \<le> 13) \<or> r = 32 \<or> r = 133 \<or> r = 160 \<or> r = 5760 \<or>
     (8192 \<le> r \<and> r \<le> 8202) \<or> r = 8232 \<or> r = 8233 \<or> r = 8239 \<or> r = 8287 \<or> r = 12288"

fun trim_left :: "string \<Rightarrow> string" where
  "trim_left [] = []"
| "trim_left (c # s) =
     (if is_space (fst (decode_rune (c # s)))
      then trim_left (drop (snd (decode_rune (c # s)) - 1) s) else c # s)"

text \<open>
  The width of the white-space rune that ends a string, \<open>0\<close> if there is none; the argument is the
  reversed string. White-space runes have at most three bytes.
\<close>

definition space_suffix :: "string \<Rightarrow> nat" where
  "space_suffix rs =
     (case rs of [] \<Rightarrow> 0
      | c0 # rs1 \<Rightarrow>
        if code c0 < 128 then (if is_space (code c0) then 1 else 0)
        else (case rs1 of [] \<Rightarrow> 0
          | c1 # rs2 \<Rightarrow>
            if snd (decode_rune [c1, c0]) = 2 \<and> is_space (fst (decode_rune [c1, c0])) then 2
            else (case rs2 of [] \<Rightarrow> 0
              | c2 # _ \<Rightarrow>
                if snd (decode_rune [c2, c1, c0]) = 3 \<and> is_space (fst (decode_rune [c2, c1, c0]))
                then 3 else 0)))"

fun trim_right_rev :: "string \<Rightarrow> string" where
  "trim_right_rev [] = []"
| "trim_right_rev (c # s) =
     (if space_suffix (c # s) = 0 then c # s
      else trim_right_rev (drop (space_suffix (c # s) - 1) s))"

definition trim_right :: "string \<Rightarrow> string" where
  "trim_right s = rev (trim_right_rev (rev s))"

text \<open>\<open>strings.TrimSpace\<close>.\<close>

definition trim_space :: "string \<Rightarrow> string" where
  "trim_space s = trim_right (trim_left s)"

section \<open>Case\<close>

text \<open>\<open>strings.ToLower\<close> and \<open>strings.EqualFold\<close>.\<close>

definition char_lower :: "char \<Rightarrow> char" where
  "char_lower c = char_of (ascii_lower (code c))"

definition to_lower :: "string \<Rightarrow> string" where
  "to_lower s = (if ascii_string s then map char_lower s
                 else concat (map (\<lambda>r. encode_rune (rune_lower r)) (runes s)))"

definition equal_fold :: "string \<Rightarrow> string \<Rightarrow> bool" where
  "equal_fold s t \<longleftrightarrow> map rune_fold (runes s) = map rune_fold (runes t)"

section \<open>Prefixes, splitting, replacing\<close>

fun has_prefix :: "string \<Rightarrow> string \<Rightarrow> bool" where
  "has_prefix s [] = True"
| "has_prefix [] (p # ps) = False"
| "has_prefix (c # s) (p # ps) = (c = p \<and> has_prefix s ps)"

definition trim_prefix :: "string \<Rightarrow> string \<Rightarrow> string" where
  "trim_prefix s p = (if has_prefix s p then drop (length p) s else s)"

definition trim_suffix :: "string \<Rightarrow> string \<Rightarrow> string" where
  "trim_suffix s p = (if has_prefix (rev s) (rev p) then take (length s - length p) s else s)"

text \<open>\<open>strings.ReplaceAll\<close> of one byte by another.\<close>

definition replace_char :: "char \<Rightarrow> char \<Rightarrow> string \<Rightarrow> string" where
  "replace_char a b s = map (\<lambda>c. if c = a then b else c) s"

text \<open>\<open>strings.Split\<close> with a one-byte separator, and \<open>strings.SplitN (s, sep, 2)\<close>.\<close>

fun split_on :: "char \<Rightarrow> string \<Rightarrow> string list" where
  "split_on sep [] = [[]]"
| "split_on sep (c # s) =
     (if c = sep then [] # split_on sep s
      else (case split_on sep s of [] \<Rightarrow> [[c]] | w # ws \<Rightarrow> (c # w) # ws))"

fun split2 :: "char \<Rightarrow> string \<Rightarrow> string list" where
  "split2 sep [] = [[]]"
| "split2 sep (c # s) =
     (if c = sep then [[], s]
      else (case split2 sep s of [] \<Rightarrow> [[c]] | w # ws \<Rightarrow> (c # w) # ws))"

text \<open>The part of a string before the first occurrence of a byte.\<close>

definition before_char :: "char \<Rightarrow> string \<Rightarrow> string" where
  "before_char sep s = takeWhile (\<lambda>c. c \<noteq> sep) s"

text \<open>
  \<open>strings.NewReplacer(...).Replace\<close>: at each position the first pair (in argument order) whose
  old string starts there is replaced, and the replacement is not read again.
\<close>

fun first_pair :: "(string \<times> string) list \<Rightarrow> string \<Rightarrow> (string \<times> string) option" where
  "first_pair [] s = None"
| "first_pair ((old, new) # ps) s =
     (if old \<noteq> [] \<and> has_prefix s old then Some (old, new) else first_pair ps s)"

fun replace_pairs :: "(string \<times> string) list \<Rightarrow> string \<Rightarrow> string" where
  "replace_pairs ps [] = []"
| "replace_pairs ps (c # s) =
     (case first_pair ps (c # s) of
        Some (old, new) \<Rightarrow> new @ replace_pairs ps (drop (length old - 1) s)
      | None \<Rightarrow> c # replace_pairs ps s)"

section \<open>Decimal integers\<close>

text \<open>\<open>strconv.Itoa\<close>.\<close>

definition digit_char :: "nat \<Rightarrow> char" where
  "digit_char d = char_of (48 + d)"

fun nat_digits :: "nat \<Rightarrow> string" where
  "nat_digits n = (if n < 10 then [digit_char n] else nat_digits (n div 10) @ [digit_char (n mod 10)])"

declare nat_digits.simps [simp del]

definition itoa :: "int \<Rightarrow> string" where
  "itoa i = (if i < 0 then CHR ''-'' # nat_digits (nat (- i)) else nat_digits (nat i))"

definition is_digit :: "char \<Rightarrow> bool" where
  "is_digit c \<longleftrightarrow> 48 \<le> code c \<and> code c \<le> 57"

definition digits_value :: "string \<Rightarrow> int" where
  "digits_value s = foldl (\<lambda>n c. n * 10 + (int (code c) - 48)) 0 s"

text \<open>
  \<open>strconv.ParseInt(s, 10, 64)\<close>, and \<open>strconv.Atoi\<close> on a 64-bit platform: an optional sign and one
  or more digits; out of range is an error whose value is the nearest bound. The result is the
  value Go returns together with "no error".
\<close>

fun split_sign :: "string \<Rightarrow> bool \<times> string" where
  "split_sign (c # s) = (if c = CHR ''-'' then (True, s) else if c = CHR ''+'' then (False, s)
                         else (False, c # s))"
| "split_sign [] = (False, [])"

definition parse_int :: "string \<Rightarrow> int \<times> bool" where
  "parse_int s =
     (let (neg, ds) = split_sign s in
      if ds = [] \<or> \<not> list_all is_digit ds then (0, False)
      else let n = digits_value ds in
        if neg then (if n \<le> 2 ^ 63 then (- n, True) else (- (2 ^ 63), False))
        else (if n < 2 ^ 63 then (n, True) else (2 ^ 63 - 1, False)))"

definition atoi :: "string \<Rightarrow> int \<times> bool" where
  "atoi s = parse_int s"

section \<open>Laws\<close>

lemma is_space_not_error [simp]: "\<not> is_space rune_error"
  by (simp add: is_space_def rune_error_def)

lemma decode_rune_append:
  assumes "fst (decode_rune p) \<noteq> rune_error"
  shows "decode_rune (p @ q) = decode_rune p"
proof (cases p)
  case Nil
  with assms show ?thesis by simp
next
  case (Cons c0 cs)
  with assms show ?thesis
    by (simp add: Let_def split: if_splits list.splits)
qed

definition left_trimmed :: "string \<Rightarrow> bool" where
  "left_trimmed s \<longleftrightarrow> \<not> is_space (fst (decode_rune s))"

definition right_trimmed :: "string \<Rightarrow> bool" where
  "right_trimmed s \<longleftrightarrow> space_suffix (rev s) = 0"

lemma left_trimmed_Nil [simp]: "left_trimmed []"
  by (simp add: left_trimmed_def)

lemma right_trimmed_Nil [simp]: "right_trimmed []"
  by (simp add: right_trimmed_def space_suffix_def)

lemma left_trimmed_trim_left [simp]: "left_trimmed (trim_left s)"
  by (induction s rule: trim_left.induct) (simp_all add: left_trimmed_def del: decode_rune.simps(2))

lemma trim_left_id: "left_trimmed s \<Longrightarrow> trim_left s = s"
  by (cases s) (simp_all add: left_trimmed_def del: decode_rune.simps(2))

lemma trim_right_rev_trimmed: "space_suffix (trim_right_rev s) = 0"
  by (induction s rule: trim_right_rev.induct) (simp_all add: space_suffix_def [of "[]"])

lemma right_trimmed_trim_right [simp]: "right_trimmed (trim_right s)"
  by (simp add: right_trimmed_def trim_right_def trim_right_rev_trimmed)

lemma trim_right_rev_id: "space_suffix s = 0 \<Longrightarrow> trim_right_rev s = s"
  by (cases s) simp_all

lemma trim_right_id: "right_trimmed s \<Longrightarrow> trim_right s = s"
  by (simp add: right_trimmed_def trim_right_def trim_right_rev_id)

lemma trim_right_rev_suffix: "\<exists>q. s = q @ trim_right_rev s"
proof (induction s rule: trim_right_rev.induct)
  case (2 c s)
  let ?n = "space_suffix (c # s)"
  show ?case
  proof (cases "?n = 0")
    case True
    then show ?thesis by simp
  next
    case False
    with 2 obtain q where q: "drop (?n - 1) s = q @ trim_right_rev (drop (?n - 1) s)"
      by blast
    have "c # s = (c # take (?n - 1) s @ q) @ trim_right_rev (drop (?n - 1) s)"
      using append_take_drop_id [of "?n - 1" s] q by simp
    with False show ?thesis by (simp only: trim_right_rev.simps if_False) blast
  qed
qed simp

lemma trim_right_prefix: "\<exists>q. s = trim_right s @ q"
proof -
  obtain q where "rev s = q @ trim_right_rev (rev s)"
    using trim_right_rev_suffix by blast
  then have "s = rev (trim_right_rev (rev s)) @ rev q"
    by (metis rev_append rev_rev_ident)
  then show ?thesis unfolding trim_right_def by blast
qed

lemma left_trimmed_prefix: "left_trimmed (p @ q) \<Longrightarrow> left_trimmed p"
  using decode_rune_append [of p q] by (cases "fst (decode_rune p) = rune_error")
    (simp_all add: left_trimmed_def del: decode_rune.simps(2))

lemma trim_space_left_trimmed [simp]: "left_trimmed (trim_space s)"
proof -
  obtain q where "trim_left s = trim_right (trim_left s) @ q"
    using trim_right_prefix by blast
  then have "left_trimmed (trim_right (trim_left s) @ q)"
    using left_trimmed_trim_left by metis
  then show ?thesis unfolding trim_space_def by (rule left_trimmed_prefix)
qed

lemma trim_space_idem [simp]: "trim_space (trim_space s) = trim_space s"
proof -
  have "right_trimmed (trim_space s)" by (simp add: trim_space_def)
  then show ?thesis
    by (simp add: trim_space_def [of "trim_space s"] trim_left_id trim_right_id)
qed

lemma trim_space_Nil [simp]: "trim_space [] = []"
  by (simp add: trim_space_def trim_right_def)

text \<open>Words without white space or non-ASCII bytes, such as the keywords of the configuration.\<close>

definition plain_char :: "char \<Rightarrow> bool" where
  "plain_char c \<longleftrightarrow> 33 \<le> code c \<and> code c < 127"

definition plain_word :: "string \<Rightarrow> bool" where
  "plain_word s = list_all plain_char s"

lemma plain_word_simps [simp]:
  "plain_word []" "plain_word (c # s) \<longleftrightarrow> plain_char c \<and> plain_word s"
  "plain_word (s @ t) \<longleftrightarrow> plain_word s \<and> plain_word t" "plain_word (rev s) = plain_word s"
  by (simp_all add: plain_word_def)

lemma plain_not_space: "plain_char c \<Longrightarrow> code c < 128 \<and> \<not> is_space (code c)"
  by (auto simp: plain_char_def is_space_def)

lemma plain_word_ascii: "plain_word s \<Longrightarrow> ascii_string s"
  by (induction s) (auto simp: plain_char_def)

lemma trim_space_plain: "plain_word s \<Longrightarrow> trim_space s = s"
proof -
  assume s: "plain_word s"
  then have "left_trimmed s"
    by (cases s) (auto simp: left_trimmed_def dest!: plain_not_space simp del: decode_rune.simps(2))
  moreover from s have "right_trimmed s"
    by (cases s rule: rev_cases)
      (auto simp: right_trimmed_def space_suffix_def dest!: plain_not_space)
  ultimately show ?thesis by (simp add: trim_space_def trim_left_id trim_right_id)
qed

lemma has_prefix_iff: "has_prefix s p \<longleftrightarrow> (\<exists>t. s = p @ t)"
  by (induction s p rule: has_prefix.induct) auto

lemma has_prefix_append [simp]: "has_prefix (p @ t) p"
  by (auto simp: has_prefix_iff)

lemma length_replace_char [simp]: "length (replace_char a b s) = length s"
  by (simp add: replace_char_def)

lemma replace_char_idem: "a \<noteq> b \<Longrightarrow> replace_char a b (replace_char a b s) = replace_char a b s"
  by (simp add: replace_char_def)

lemma split_on_not_Nil [simp]: "split_on sep s \<noteq> []"
  by (cases s) (auto split: list.splits)

section \<open>Decimal integers: printing and parsing\<close>

lemma code_digit_char [simp]: "d < 10 \<Longrightarrow> code (digit_char d) = 48 + d"
  by (simp add: digit_char_def)

lemma is_digit_digit_char [simp]: "d < 10 \<Longrightarrow> is_digit (digit_char d)"
  by (simp add: is_digit_def)

lemma digits_value_snoc [simp]:
  "digits_value (s @ [c]) = digits_value s * 10 + (int (code c) - 48)"
  by (simp add: digits_value_def)

lemma nat_digits_digits: "list_all is_digit (nat_digits n)"
proof (induction n rule: nat_digits.induct)
  case (1 n)
  then show ?case by (simp add: nat_digits.simps [of n])
qed

lemma nat_digits_value: "digits_value (nat_digits n) = int n"
proof (induction n rule: nat_digits.induct)
  case (1 n)
  show ?case
  proof (cases "n < 10")
    case True
    then show ?thesis by (simp add: nat_digits.simps [of n] digits_value_def)
  next
    case False
    have "int (n div 10) * 10 + int (n mod 10) = int n"
      by (metis div_mult_mod_eq of_nat_add of_nat_mult of_nat_numeral)
    with False "1.IH" show ?thesis by (simp add: nat_digits.simps [of n])
  qed
qed

lemma nat_digits_not_Nil [simp]: "nat_digits n \<noteq> []"
  by (simp add: nat_digits.simps [of n])

lemma digit_not_sign: "is_digit c \<Longrightarrow> c \<noteq> CHR ''-'' \<and> c \<noteq> CHR ''+'' \<and> c \<noteq> CHR '':''"
  by (auto simp: is_digit_def)

lemma split_sign_digits: "list_all is_digit s \<Longrightarrow> split_sign s = (False, s)"
  by (cases s) (auto dest: digit_not_sign)

lemma parse_int_itoa: "int64_range i \<Longrightarrow> parse_int (itoa i) = (i, True)"
  by (auto simp: parse_int_def itoa_def nat_digits_digits nat_digits_value split_sign_digits
      int64_range_def)

lemma itoa_inject: "itoa i = itoa j \<longleftrightarrow> i = j"
proof
  have hd_digit: "hd (nat_digits n) \<noteq> CHR ''-''" for n
    using nat_digits_digits [of n] digit_not_sign by (cases "nat_digits n") auto
  assume eq: "itoa i = itoa j"
  then have sgn: "i < 0 \<longleftrightarrow> j < 0"
    using hd_digit by (auto simp: itoa_def split: if_splits dest: arg_cong [of _ _ hd])
      (metis list.sel(1))+
  from eq sgn have "nat_digits (nat \<bar>i\<bar>) = nat_digits (nat \<bar>j\<bar>)"
    by (auto simp: itoa_def split: if_splits)
  then have "int (nat \<bar>i\<bar>) = int (nat \<bar>j\<bar>)"
    by (metis nat_digits_value)
  with sgn show "i = j" by auto
qed simp

lemma itoa_no_colon: "CHR '':'' \<notin> set (itoa i)"
  using nat_digits_digits [of "nat i"] nat_digits_digits [of "nat (- i)"]
  by (auto simp: itoa_def list_all_iff dest: digit_not_sign)

section \<open>Evaluation\<close>

text \<open>Rewriting with these evaluates the operations on literal strings of printable ASCII.\<close>

lemmas string_eval =
  trim_space_plain plain_word_def plain_char_def to_lower_def ascii_string_def char_lower_def
  ascii_lower_def trim_suffix_def char_of_def bit_iff_odd

end
