(* ===== verification/RoutingTypes.thy ===== *)
theory RoutingTypes
  imports GoStrings
begin

text \<open>
  The data of package \<^verbatim>\<open>internal/routing\<close>: configuration, requests, decisions, errors, and the
  state of the static engine. Go's nil and empty slices are told apart where the code does
  (\<open>Fallback.Sort\<close>, \<open>Fallback.Filters\<close>): such a field is a list option. A pointer is an option;
  the metadata map is a partial function, nil and empty map reading alike.
\<close>

section \<open>Configuration\<close>

record target =
  tgt_host :: string
  tgt_port :: int

record backend =
  b_host :: string
  b_port :: int
  b_weight :: int
  b_meta :: "string \<rightharpoonup> string"

definition backend_target :: "backend \<Rightarrow> target" where
  "backend_target b = \<lparr>tgt_host = b_host b, tgt_port = b_port b\<rparr>"

definition empty_backend :: backend where
  "empty_backend = \<lparr>b_host = [], b_port = 0, b_weight = 0, b_meta = Map.empty\<rparr>"

record disc_ref =
  dr_provider :: string
  dr_mode :: string

record sort_key =
  sk_key :: string
  sk_order :: string
  sk_type :: string

record filter_cfg =
  f_type :: string
  f_subject :: string
  f_left :: string
  f_op :: string
  f_right :: string
  f_enabled_key :: string
  f_list_key :: string
  f_key :: string

record fallback =
  fb_strategy :: "string option"
  fb_key :: "string option"
  fb_sample :: "int option"
  fb_sort :: "sort_key list option"
  fb_limit :: "int option"
  fb_filters :: "filter_cfg list option"

record pool =
  p_strategy :: string
  p_key :: string
  p_sample :: int
  p_sort :: "sort_key list"
  p_limit :: int
  p_filters :: "filter_cfg list"
  p_fallback :: "fallback list"
  p_backends :: "backend list"
  p_discovery :: "disc_ref option"

record match_cfg =
  m_hostname :: string
  m_hostnames :: "string list"

record route =
  r_match :: match_cfg
  r_pool :: pool

record routing_config =
  rc_default :: "pool option"
  rc_routes :: "route list"

section \<open>Requests, decisions, errors\<close>

record request =
  req_sni :: string
  req_uuid :: string
  req_username :: string
  req_language :: string

record decision =
  d_matched :: bool
  d_route_index :: int
  d_strategy :: string
  d_candidates :: "backend list"
  d_selected_index :: int
  d_backend :: backend

definition no_decision :: decision where
  "no_decision = \<lparr>d_matched = False, d_route_index = - 1, d_strategy = [], d_candidates = [],
     d_selected_index = - 1, d_backend = empty_backend\<rparr>"

text \<open>
  The errors of \<^verbatim>\<open>errors.go\<close>, with what the code wraps into them, and the two unnamed errors of
  \<open>selectIndex\<close> about an empty key.
\<close>

datatype routing_error =
    ErrNoBackends
  | ErrUnknownStrategy string
  | ErrInvalidWeightedPool
  | ErrDiscovery string
  | ErrDiscoveryNotSet
  | ErrInvalidDiscoveryMode string
  | ErrEmptyKey string

text \<open>
  \<open>err.Error()\<close>. The verb \<^verbatim>\<open>%q\<close> of package fmt, which quotes a string, is the argument \<open>quote\<close>.
\<close>

fun routing_error_text :: "(string \<Rightarrow> string) \<Rightarrow> routing_error \<Rightarrow> string" where
  "routing_error_text quote ErrNoBackends = ''no backends''"
| "routing_error_text quote (ErrUnknownStrategy s) = ''unknown strategy '' @ quote s"
| "routing_error_text quote ErrInvalidWeightedPool = ''invalid weighted pool''"
| "routing_error_text quote (ErrDiscovery e) = ''discovery error: '' @ e"
| "routing_error_text quote ErrDiscoveryNotSet = ''discovery resolver not set''"
| "routing_error_text quote (ErrInvalidDiscoveryMode m) = ''invalid discovery mode '' @ quote m"
| "routing_error_text quote (ErrEmptyKey s) = ''key must not be empty for strategy '' @ s"

section \<open>Engine state\<close>

text \<open>
  The mutable state of \<open>StaticEngine\<close>: one atomic counter per route, one for the default pool, and
  the random generator, which is a source of draws and the number of draws taken. The
  configuration does not change.
\<close>

record engine =
  e_cfg :: routing_config
  e_rr :: "u64 list"
  e_rr_default :: u64
  e_rng :: "nat \<Rightarrow> nat"
  e_draws :: nat

definition new_static_engine :: "routing_config \<Rightarrow> (nat \<Rightarrow> nat) \<Rightarrow> engine" where
  "new_static_engine cfg rng =
     \<lparr>e_cfg = cfg, e_rr = replicate (length (rc_routes cfg)) 0, e_rr_default = 0,
      e_rng = rng, e_draws = 0\<rparr>"

text \<open>\<open>rand.Intn(n)\<close> for \<open>0 < n\<close>: some value below \<open>n\<close>.\<close>

definition intn :: "nat \<Rightarrow> engine \<Rightarrow> nat \<times> engine" where
  "intn n e = (e_rng e (e_draws e) mod n, e\<lparr>e_draws := Suc (e_draws e)\<rparr>)"

lemma intn_less: "0 < n \<Longrightarrow> fst (intn n e) < n"
  by (simp add: intn_def)

section \<open>Keywords\<close>

text \<open>\<open>normalizeStrategy\<close>: the normal form under which keywords of the configuration compare.\<close>

definition normalize_strategy :: "string \<Rightarrow> string" where
  "normalize_strategy s = replace_char (CHR ''-'') (CHR ''_'') (to_lower (trim_space s))"

lemma normalize_strategy_Nil [simp]: "normalize_strategy [] = []"
  by (simp add: normalize_strategy_def to_lower_def replace_char_def)

text \<open>Keywords in lower case are their own normal form.\<close>

definition keyword_char :: "char \<Rightarrow> bool" where
  "keyword_char c \<longleftrightarrow> plain_char c \<and> \<not> (65 \<le> code c \<and> code c \<le> 90) \<and> c \<noteq> CHR ''-''"

lemma normalize_keyword: "list_all keyword_char s \<Longrightarrow> normalize_strategy s = s"
proof -
  assume s: "list_all keyword_char s"
  then have p: "plain_word s" by (simp add: plain_word_def keyword_char_def list_all_iff)
  have low: "keyword_char c \<Longrightarrow> char_lower c = c" for c
    by (auto simp: keyword_char_def char_lower_def ascii_lower_def)
  from s low have "map char_lower s = s" by (simp add: list_all_iff map_idI)
  moreover from s have "replace_char (CHR ''-'') (CHR ''_'') s = s"
    unfolding replace_char_def by (intro map_idI) (simp add: list_all_iff keyword_char_def)
  ultimately show ?thesis
    by (simp add: normalize_strategy_def trim_space_plain [OF p] to_lower_def plain_word_ascii [OF p])
qed

lemma normalize_keywords [simp]:
  "normalize_strategy ''round_robin'' = ''round_robin''"
  "normalize_strategy ''random'' = ''random''"
  "normalize_strategy ''weighted'' = ''weighted''"
  "normalize_strategy ''least_loaded'' = ''least_loaded''"
  "normalize_strategy ''p2c'' = ''p2c''"
  "normalize_strategy ''number'' = ''number''"
  "normalize_strategy ''string'' = ''string''"
  "normalize_strategy ''asc'' = ''asc''"
  "normalize_strategy ''desc'' = ''desc''"
  "normalize_strategy ''union'' = ''union''"
  "normalize_strategy ''prefer'' = ''prefer''"
  "normalize_strategy ''compare'' = ''compare''"
  "normalize_strategy ''whitelist'' = ''whitelist''"
  "normalize_strategy ''lt'' = ''lt''"
  by (rule normalize_keyword, simp add: keyword_char_def plain_char_def)+

end
