(* ===== verification/RoutingDiscovery.thy ===== *)
theory RoutingDiscovery
  imports RoutingTypes
begin

text \<open>
  \<^verbatim>\<open>internal/routing/discovery.go\<close>: the candidates of a pool, from its static backends and the
  discovery callback. The callback is an argument: \<open>None\<close> when no callback is set, otherwise what
  it answers for a provider name at the time of the call.
\<close>

type_synonym discovery_fn = "string \<Rightarrow> string + backend list"

section \<open>Duplicates\<close>

definition backend_key :: "backend \<Rightarrow> string" where
  "backend_key b = b_host b @ '':'' @ itoa (b_port b)"

fun dedupe_from :: "string list \<Rightarrow> backend list \<Rightarrow> backend list" where
  "dedupe_from seen [] = []"
| "dedupe_from seen (b # bs) =
     (if backend_key b \<in> set seen then dedupe_from seen bs
      else b # dedupe_from (backend_key b # seen) bs)"

definition dedupe_backends :: "backend list \<Rightarrow> backend list" where
  "dedupe_backends bs = dedupe_from [] bs"

section \<open>Resolution\<close>

definition default_weight :: "backend \<Rightarrow> backend" where
  "default_weight b = (if b_weight b \<le> 0 then b\<lparr>b_weight := 1\<rparr> else b)"

definition merge_backends :: "string \<Rightarrow> backend list \<Rightarrow> backend list \<Rightarrow> backend list option" where
  "merge_backends mode disc static =
     (if mode = ''prefer'' then Some (if 0 < length disc then disc else static)
      else if mode = ''union'' then Some (disc @ static)
      else None)"

definition resolve_candidates :: "discovery_fn option \<Rightarrow> pool \<Rightarrow> routing_error + backend list" where
  "resolve_candidates discovery p =
     (let strategy = normalize_strategy (p_strategy p); static = p_backends p in
      case p_discovery p of
        None \<Rightarrow> if static = [] then Inl ErrNoBackends else Inr static
      | Some d \<Rightarrow>
        (case discovery of None \<Rightarrow> Inl ErrDiscoveryNotSet
         | Some resolve \<Rightarrow>
           (case resolve (trim_space (dr_provider d)) of
              Inl e \<Rightarrow> Inl (ErrDiscovery e)
            | Inr disc \<Rightarrow>
              let mode0 = normalize_strategy (dr_mode d);
                  mode = (if mode0 = [] then ''union'' else mode0)
              in (case merge_backends mode disc static of
                    None \<Rightarrow> Inl (ErrInvalidDiscoveryMode (dr_mode d))
                  | Some merged0 \<Rightarrow>
                    let merged1 = dedupe_backends merged0;
                        merged = (if strategy = ''weighted'' then map default_weight merged1 else merged1)
                    in if merged = [] then Inl ErrNoBackends else Inr merged))))"

section \<open>Properties of the duplicate filter\<close>

text \<open>The key is as good as the pair of host and port.\<close>

lemma backend_key_eq: "backend_key a = backend_key b \<longleftrightarrow> b_host a = b_host b \<and> b_port a = b_port b"
proof
  assume eq: "backend_key a = backend_key b"
  have last: "takeWhile (\<lambda>c. c \<noteq> CHR '':'') (rev (backend_key x)) = rev (itoa (b_port x))" for x
  proof -
    have "\<forall>c \<in> set (rev (itoa (b_port x))). c \<noteq> CHR '':''" using itoa_no_colon by auto
    then have "takeWhile (\<lambda>c. c \<noteq> CHR '':'') (rev (itoa (b_port x)) @ CHR '':'' # rev (b_host x)) =
        rev (itoa (b_port x)) @ takeWhile (\<lambda>c. c \<noteq> CHR '':'') (CHR '':'' # rev (b_host x))"
      by (intro takeWhile_append2) auto
    then show ?thesis by (simp add: backend_key_def)
  qed
  from last [of a] last [of b] eq have "b_port a = b_port b" by (simp add: itoa_inject)
  with eq show "b_host a = b_host b \<and> b_port a = b_port b" by (simp add: backend_key_def)
qed (simp add: backend_key_def)

abbreviation address :: "backend \<Rightarrow> string \<times> int" where
  "address b \<equiv> (b_host b, b_port b)"

lemma dedupe_from_keys:
  "distinct (map backend_key (dedupe_from seen bs)) \<and>
   set (map backend_key (dedupe_from seen bs)) = set (map backend_key bs) - set seen"
proof (induction bs arbitrary: seen)
  case Nil
  then show ?case by simp
next
  case (Cons b bs)
  show ?case
    using Cons.IH [of seen] Cons.IH [of "backend_key b # seen"] by auto
qed

lemma dedupe_distinct: "distinct (map address (dedupe_backends bs))"
proof -
  have "distinct (map backend_key (dedupe_backends bs))"
    using dedupe_from_keys by (simp add: dedupe_backends_def)
  then show ?thesis by (simp add: distinct_map inj_on_def backend_key_eq)
qed

lemma dedupe_from_find:
  "k \<notin> set seen \<Longrightarrow> find (\<lambda>b. backend_key b = k) (dedupe_from seen bs) = find (\<lambda>b. backend_key b = k) bs"
  by (induction bs arbitrary: seen) auto

text \<open>Of the backends at one address the first is kept.\<close>

lemma dedupe_first: "find (\<lambda>b. address b = address a) (dedupe_backends bs) = find (\<lambda>b. address b = address a) bs"
  using dedupe_from_find [of "backend_key a" "[]" bs]
  by (simp add: dedupe_backends_def backend_key_eq)

lemma dedupe_subseq: "subseq (dedupe_backends bs) bs"
proof -
  have "subseq (dedupe_from seen bs) bs" for seen
    by (induction bs arbitrary: seen) auto
  then show ?thesis by (simp add: dedupe_backends_def)
qed

lemma dedupe_addresses: "address ` set (dedupe_backends bs) = address ` set bs"
proof
  show "address ` set (dedupe_backends bs) \<subseteq> address ` set bs"
    using dedupe_subseq [of bs] by (auto elim!: list_emb_set)
next
  show "address ` set bs \<subseteq> address ` set (dedupe_backends bs)"
  proof
    fix x assume "x \<in> address ` set bs"
    then obtain b where b: "b \<in> set bs" "x = address b" by auto
    then have "find (\<lambda>c. address c = address b) bs \<noteq> None" by (auto simp: find_None_iff)
    then have "find (\<lambda>c. address c = address b) (dedupe_backends bs) \<noteq> None" by (simp only: dedupe_first) simp
    then have "\<exists>c \<in> set (dedupe_backends bs). address c = address b" by (auto simp: find_None_iff)
    then obtain c where c: "c \<in> set (dedupe_backends bs)" "address c = address b" by blast
    show "x \<in> address ` set (dedupe_backends bs)"
      unfolding b(2) c(2) [symmetric] using c(1) by (rule imageI)
  qed
qed

lemma dedupe_eq_Nil [simp]: "dedupe_backends bs = [] \<longleftrightarrow> bs = []"
  using dedupe_addresses [of bs] by auto

section \<open>Properties of the resolution\<close>

lemma address_default_weight [simp]: "address (default_weight b) = address b"
  by (simp add: default_weight_def)

lemma default_weight_pos [simp]: "0 < b_weight (default_weight b)"
  by (simp add: default_weight_def)

text \<open>Whatever the mode, a result is not empty.\<close>

lemma resolve_not_empty: "resolve_candidates disc p = Inr bs \<Longrightarrow> bs \<noteq> []"
  by (auto simp: resolve_candidates_def Let_def split: option.splits sum.splits if_splits)

text \<open>The addresses a pool with discovery resolves to, by mode.\<close>

definition disc_mode :: "disc_ref \<Rightarrow> string" where
  "disc_mode d = (if normalize_strategy (dr_mode d) = [] then ''union'' else normalize_strategy (dr_mode d))"

lemma resolve_discovered:
  assumes "p_discovery p = Some d" "resolve (trim_space (dr_provider d)) = Inr disc"
    and "resolve_candidates (Some resolve) p = Inr bs"
  shows "address ` set bs =
      (if disc_mode d = ''prefer'' \<and> disc \<noteq> [] then address ` set disc
       else if disc_mode d = ''prefer'' then address ` set (p_backends p)
       else address ` (set disc \<union> set (p_backends p)))"
    and "distinct (map address bs)"
proof -
  from assms obtain m where m: "merge_backends (disc_mode d) disc (p_backends p) = Some m"
    and bs: "bs = (if normalize_strategy (p_strategy p) = ''weighted''
                   then map default_weight (dedupe_backends m) else dedupe_backends m)"
    by (auto simp: resolve_candidates_def disc_mode_def Let_def split: option.splits if_splits)
  have addr: "map address bs = map address (dedupe_backends m)" by (simp add: bs)
  then have "address ` set bs = address ` set m"
    using dedupe_addresses by (metis list.set_map)
  with m show "address ` set bs =
      (if disc_mode d = ''prefer'' \<and> disc \<noteq> [] then address ` set disc
       else if disc_mode d = ''prefer'' then address ` set (p_backends p)
       else address ` (set disc \<union> set (p_backends p)))"
    by (auto simp: merge_backends_def split: if_splits)
  show "distinct (map address bs)" unfolding addr by (rule dedupe_distinct)
qed

lemma resolve_weighted:
  assumes "resolve_candidates disc p = Inr bs" "p_discovery p \<noteq> None"
    and "normalize_strategy (p_strategy p) = ''weighted''" "b \<in> set bs"
  shows "0 < b_weight b"
  using assms by (auto simp: resolve_candidates_def Let_def split: option.splits sum.splits if_splits)

text \<open>The errors of the resolution, and when each occurs.\<close>

lemma resolve_errors:
  "resolve_candidates disc p = Inl e \<Longrightarrow>
     (e = ErrNoBackends \<and> (p_discovery p = None \<longrightarrow> p_backends p = [])) \<or>
     (e = ErrDiscoveryNotSet \<and> disc = None \<and> p_discovery p \<noteq> None) \<or>
     (\<exists>t f d. e = ErrDiscovery t \<and> disc = Some f \<and> p_discovery p = Some d \<and> f (trim_space (dr_provider d)) = Inl t) \<or>
     (\<exists>d. e = ErrInvalidDiscoveryMode (dr_mode d) \<and> p_discovery p = Some d
          \<and> normalize_strategy (dr_mode d) \<notin> {[], ''union'', ''prefer''})"
  by (auto simp: resolve_candidates_def merge_backends_def Let_def
      split: option.splits sum.splits if_splits)

end
