(* ===== verification/GoFloat.thy ===== *)
theory GoFloat
  imports GoStrings
begin

text \<open>
  Go's \<open>float64\<close> as the routing code uses it: values are compared, parsed by
  \<open>strconv.ParseFloat(s, 64)\<close> and converted from \<open>int\<close>. A finite value is the rational number
  it denotes; parsing and conversion round to 53 bits, half to even, as IEEE 754 does. Signed
  zeros compare equal and are one value here.
\<close>

datatype f64 = NaN | PosInf | NegInf | Fin rat

section \<open>Comparison\<close>

fun f64_lt :: "f64 \<Rightarrow> f64 \<Rightarrow> bool" where
  "f64_lt (Fin x) (Fin y) = (x < y)"
| "f64_lt (Fin _) PosInf = True"
| "f64_lt NegInf (Fin _) = True"
| "f64_lt NegInf PosInf = True"
| "f64_lt _ _ = False"

fun f64_eq :: "f64 \<Rightarrow> f64 \<Rightarrow> bool" where
  "f64_eq NaN _ = False"
| "f64_eq _ NaN = False"
| "f64_eq x y = (x = y)"

definition f64_le :: "f64 \<Rightarrow> f64 \<Rightarrow> bool" where
  "f64_le x y \<longleftrightarrow> f64_lt x y \<or> f64_eq x y"

lemma f64_lt_irrefl [simp]: "\<not> f64_lt x x"
  by (cases x) auto

lemma f64_lt_trans: "f64_lt x y \<Longrightarrow> f64_lt y z \<Longrightarrow> f64_lt x z"
  by (cases x; cases y; cases z) auto

lemma f64_lt_NaN [simp]: "\<not> f64_lt NaN x" "\<not> f64_lt x NaN"
  by (cases x, auto)+

lemma f64_eq_iff: "f64_eq x y \<longleftrightarrow> x = y \<and> x \<noteq> NaN"
  by (cases x; cases y) auto

lemma f64_trichotomy: "x \<noteq> NaN \<Longrightarrow> y \<noteq> NaN \<Longrightarrow> f64_lt x y \<or> x = y \<or> f64_lt y x"
  by (cases x; cases y) auto

lemma f64_lt_PosInf: "f64_lt x PosInf \<longleftrightarrow> x \<noteq> NaN \<and> x \<noteq> PosInf"
  by (cases x) auto

lemma f64_not_lt_trans: "\<not> f64_lt x y \<Longrightarrow> f64_lt x z \<Longrightarrow> y \<noteq> NaN \<Longrightarrow> f64_lt y z"
  by (cases x; cases y; cases z) auto

section \<open>Rounding\<close>

definition pow2 :: "int \<Rightarrow> rat" where
  "pow2 e = (if 0 \<le> e then 2 ^ nat e else 1 / 2 ^ nat (- e))"

fun nbits :: "int \<Rightarrow> int" where
  "nbits n = (if n \<le> 0 then 0 else 1 + nbits (n div 2))"

declare nbits.simps [simp del]

definition round_half_even :: "rat \<Rightarrow> int" where
  "round_half_even q =
     (let f = \<lfloor>q\<rfloor>; d = q - of_int f in
      if d < 1 / 2 then f else if 1 / 2 < d then f + 1 else if even f then f else f + 1)"

text \<open>The exponent \<open>e\<close> with \<open>2 ^ e \<le> x < 2 ^ (e + 1)\<close>, for positive \<open>x\<close>.\<close>

definition exponent2 :: "rat \<Rightarrow> int" where
  "exponent2 x =
     (let (a, b) = quotient_of x; e = nbits a - nbits b in
      if pow2 e \<le> x then e else e - 1)"

text \<open>The nearest \<open>float64\<close>; \<open>None\<close> when the value is out of range (\<open>ErrRange\<close>).\<close>

definition round_f64 :: "rat \<Rightarrow> rat option" where
  "round_f64 x =
     (if x = 0 then Some 0
      else let u = pow2 (max (exponent2 \<bar>x\<bar> - 52) (- 1074));
               r = of_int (round_half_even (x / u)) * u
           in if pow2 1024 \<le> \<bar>r\<bar> then None else Some r)"

text \<open>\<open>float64(i)\<close> for an \<open>int\<close>.\<close>

definition f64_of_int :: "int \<Rightarrow> f64" where
  "f64_of_int i =
     (case round_f64 (of_int i) of Some r \<Rightarrow> Fin r | None \<Rightarrow> (if 0 < i then PosInf else NegInf))"

section \<open>Parsing\<close>

definition hex_value :: "char \<Rightarrow> int option" where
  "hex_value c =
     (let n = int (code c) in
      if 48 \<le> n \<and> n \<le> 57 then Some (n - 48)
      else if 97 \<le> n \<and> n \<le> 102 then Some (n - 87)
      else if 65 \<le> n \<and> n \<le> 70 then Some (n - 55) else None)"

definition mant_digit :: "bool \<Rightarrow> char \<Rightarrow> int option" where
  "mant_digit hex c = (if is_digit c \<or> hex then hex_value c else None)"

text \<open>
  The scanner of \<open>readFloat\<close>: the mantissa as an integer, the number of its digits after the point,
  whether a point, a digit and an underscore were read, and the unread rest.
\<close>

record mantissa =
  mant_val :: int
  mant_frac :: nat
  mant_dot :: bool
  mant_digits :: bool
  mant_under :: bool

fun scan_mantissa :: "bool \<Rightarrow> mantissa \<Rightarrow> string \<Rightarrow> mantissa \<times> string" where
  "scan_mantissa hex m [] = (m, [])"
| "scan_mantissa hex m (c # s) =
     (if c = CHR ''_'' then scan_mantissa hex (m\<lparr>mant_under := True\<rparr>) s
      else if c = CHR ''.'' then
        (if mant_dot m then (m, c # s) else scan_mantissa hex (m\<lparr>mant_dot := True\<rparr>) s)
      else (case mant_digit hex c of
          None \<Rightarrow> (m, c # s)
        | Some d \<Rightarrow> scan_mantissa hex
            (m\<lparr>mant_val := mant_val m * (if hex then 16 else 10) + d,
               mant_frac := (if mant_dot m then Suc (mant_frac m) else mant_frac m),
               mant_digits := True\<rparr>) s))"

text \<open>The digits of the exponent: it stops growing at 10000.\<close>

fun scan_exp :: "int \<Rightarrow> bool \<Rightarrow> string \<Rightarrow> int \<times> bool \<times> string" where
  "scan_exp e u [] = (e, u, [])"
| "scan_exp e u (c # s) =
     (if c = CHR ''_'' then scan_exp e True s
      else if is_digit c then
        scan_exp (if e < 10000 then e * 10 + (int (code c) - 48) else e) u s
      else (e, u, c # s))"

definition is_hex_char :: "char \<Rightarrow> bool" where
  "is_hex_char c \<longleftrightarrow> hex_value c \<noteq> None"

datatype under_class = UStart | UDigit | UUnder | UOther

fun underscore_scan :: "bool \<Rightarrow> under_class \<Rightarrow> string \<Rightarrow> bool" where
  "underscore_scan hex i [] = (i \<noteq> UUnder)"
| "underscore_scan hex i (c # s) =
     (if is_digit c \<or> (hex \<and> is_hex_char c) then underscore_scan hex UDigit s
      else if c = CHR ''_'' then i = UDigit \<and> underscore_scan hex UUnder s
      else i \<noteq> UUnder \<and> underscore_scan hex UOther s)"

definition underscore_ok :: "string \<Rightarrow> bool" where
  "underscore_ok s0 =
     (let s = snd (split_sign s0) in
      case s of
        z # p # t \<Rightarrow>
          if z = CHR ''0'' \<and> char_lower p \<in> {CHR ''b'', CHR ''o'', CHR ''x''}
          then underscore_scan (char_lower p = CHR ''x'') UDigit t
          else underscore_scan False UStart s
      | _ \<Rightarrow> underscore_scan False UStart s)"

text \<open>The special values: an optionally signed infinity, or \<open>nan\<close>, in any case.\<close>

definition special_float :: "string \<Rightarrow> f64 option" where
  "special_float s =
     (let (neg, r) = split_sign s; l = map char_lower r in
      if l = ''inf'' \<or> l = ''infinity'' then Some (if neg then NegInf else PosInf)
      else if map char_lower s = ''nan'' then Some NaN else None)"

definition empty_mantissa :: mantissa where
  "empty_mantissa = \<lparr>mant_val = 0, mant_frac = 0, mant_dot = False, mant_digits = False,
     mant_under = False\<rparr>"

text \<open>\<open>readFloat\<close> on the whole string: the exact value of a well-formed literal.\<close>

definition read_float :: "string \<Rightarrow> rat option" where
  "read_float s =
     (let (neg, t) = split_sign s;
          hex = (case t of z # x # _ # _ \<Rightarrow> z = CHR ''0'' \<and> char_lower x = CHR ''x'' | _ \<Rightarrow> False);
          (m, rest) = scan_mantissa hex empty_mantissa (if hex then drop 2 t else t);
          sgn_val = (if neg then - 1 else 1) * (of_int (mant_val m) :: rat);
          frac = int (mant_frac m);
          finish = (\<lambda>e u. if (mant_under m \<or> u) \<and> \<not> underscore_ok s then None
              else Some (if hex then sgn_val * pow2 (e - 4 * frac)
                else if 0 \<le> e - frac then sgn_val * 10 ^ nat (e - frac)
                else sgn_val / 10 ^ nat (frac - e)))
      in if \<not> mant_digits m then None
      else (case rest of
          [] \<Rightarrow> if hex then None else finish 0 False
        | c # r \<Rightarrow>
          if char_lower c \<noteq> (if hex then CHR ''p'' else CHR ''e'') then None
          else let (eneg, ds) = split_sign r in
            (case ds of [] \<Rightarrow> None
             | d # _ \<Rightarrow> if \<not> is_digit d then None
               else let (e, u, rest') = scan_exp 0 False ds in
                 if rest' \<noteq> [] then None else finish (if eneg then - e else e) u)))"

text \<open>\<open>strconv.ParseFloat(s, 64)\<close>, \<open>None\<close> for a syntax or range error.\<close>

definition parse_float :: "string \<Rightarrow> f64 option" where
  "parse_float s =
     (case special_float s of
        Some v \<Rightarrow> Some v
      | None \<Rightarrow> (case read_float s of
          None \<Rightarrow> None
        | Some x \<Rightarrow> map_option Fin (round_f64 x)))"

section \<open>Small integers convert exactly\<close>

lemma round_half_even_int [simp]: "round_half_even (of_int i) = i"
  by (simp add: round_half_even_def)

lemma nbits_bounds: "0 < n \<Longrightarrow> 0 < nbits n \<and> 2 ^ nat (nbits n - 1) \<le> n \<and> n < 2 ^ nat (nbits n)"
proof (induction n rule: nbits.induct)
  case (1 n)
  show ?case
  proof (cases "n = 1")
    case True
    then show ?thesis by (simp add: nbits.simps)
  next
    case False
    with "1.prems" have n2: "0 < n div 2" by auto
    with "1.IH" "1.prems" have IH: "0 < nbits (n div 2)" "2 ^ nat (nbits (n div 2) - 1) \<le> n div 2"
      "n div 2 < 2 ^ nat (nbits (n div 2))" by auto
    have eq: "nbits n = 1 + nbits (n div 2)" using "1.prems" by (simp add: nbits.simps [of n])
    have p: "nat (nbits n - 1) = Suc (nat (nbits (n div 2) - 1))"
      "nat (nbits n) = Suc (nat (nbits (n div 2)))" using eq IH(1) by auto
    have half: "a \<le> n div 2 \<Longrightarrow> 2 * a \<le> n" "n div 2 < a \<Longrightarrow> n < 2 * a" for a :: int
      by presburger+
    show ?thesis using half(1) [OF IH(2)] half(2) [OF IH(3)] IH(1) eq
      unfolding p by simp
  qed
qed

lemma nbits_small: "0 < n \<Longrightarrow> n < 2 ^ k \<Longrightarrow> nbits n \<le> int k"
proof (rule ccontr)
  assume n: "0 < n" "n < 2 ^ k" and "\<not> nbits n \<le> int k"
  then have "k \<le> nat (nbits n - 1)" by auto
  then have "(2::int) ^ k \<le> 2 ^ nat (nbits n - 1)" by (rule power_increasing) simp
  with nbits_bounds [OF n(1)] n(2) show False by auto
qed

lemma exponent2_int: "0 < n \<Longrightarrow> exponent2 (of_int n) = nbits n - 1"
proof -
  assume n: "0 < n"
  from nbits_bounds [OF n] have "(2::int) ^ nat (nbits n - 1) \<le> n" "0 < nbits n" by auto
  then have "(of_int (2 ^ nat (nbits n - 1)) :: rat) \<le> of_int n" "0 \<le> nbits n - 1" by (simp_all only: of_int_le_iff)
  then have "pow2 (nbits n - 1) \<le> of_int n" by (simp add: pow2_def)
  moreover have "nbits 1 = 1" by (simp add: nbits.simps)
  ultimately show ?thesis by (simp add: exponent2_def)
qed

lemma f64_of_int_exact:
  assumes "\<bar>i\<bar> < 2 ^ 53"
  shows "f64_of_int i = Fin (of_int i)"
proof (cases "i = 0")
  case True
  then show ?thesis by (simp add: f64_of_int_def round_f64_def)
next
  case False
  then have e: "exponent2 \<bar>of_int i\<bar> = nbits \<bar>i\<bar> - 1" using exponent2_int [of "\<bar>i\<bar>"] by simp
  have nb: "nbits \<bar>i\<bar> \<le> 53" "0 < nbits \<bar>i\<bar>"
    using nbits_small [of "\<bar>i\<bar>" 53] nbits_bounds [of "\<bar>i\<bar>"] assms False by auto
  define m where "m = nat (53 - nbits \<bar>i\<bar>)"
  have u: "pow2 (max (exponent2 \<bar>of_int i\<bar> - 52) (- 1074)) = 1 / 2 ^ m"
    using e nb by (auto simp: pow2_def m_def max_def)
  have "(of_int i :: rat) / (1 / 2 ^ m) = of_int (i * 2 ^ m)" by simp
  then have r: "of_int (round_half_even (of_int i / (1 / 2 ^ m))) * (1 / 2 ^ m) = (of_int i :: rat)"
    by (simp only: round_half_even_int) simp
  have "of_int \<bar>i\<bar> < (of_int (2 ^ 53) :: rat)" using assms by (simp only: of_int_less_iff)
  moreover have "(2 ^ 53 :: rat) \<le> 2 ^ 1024" by (rule power_increasing) auto
  ultimately have "\<not> pow2 1024 \<le> \<bar>of_int i :: rat\<bar>" by (simp add: pow2_def)
  with False u r show ?thesis by (simp add: f64_of_int_def round_f64_def Let_def)
qed

lemma f64_of_int_not_NaN [simp]: "f64_of_int i \<noteq> NaN"
  by (simp add: f64_of_int_def split: option.splits)

end
