(* ===== verification/GoJson.thy ===== *)
theory GoJson
  imports GoFloat
begin

text \<open>
  The instance of \<open>json.Unmarshal\<close> the routing filters use: a JSON text read into a
  \<open>[]string\<close>. Any element that is neither a string nor \<open>null\<close> makes the call fail, so the reader
  below accepts arrays of strings and \<open>null\<close> only; a \<open>null\<close> element leaves the empty string.
\<close>

definition json_white :: "char \<Rightarrow> bool" where
  "json_white c \<longleftrightarrow> c = CHR '' '' \<or> c = CHR 0x09 \<or> c = CHR 0x0D \<or> c = CHR 0x0A"

definition skip_white :: "string \<Rightarrow> string" where
  "skip_white s = dropWhile json_white s"

text \<open>Four hexadecimal digits.\<close>

definition hex4 :: "string \<Rightarrow> (nat \<times> string) option" where
  "hex4 s =
     (case s of a # b # c # d # rest \<Rightarrow>
        (case (hex_value a, hex_value b, hex_value c, hex_value d) of
           (Some w, Some x, Some y, Some z) \<Rightarrow>
             Some (nat (w * 4096 + x * 256 + y * 16 + z), rest)
         | _ \<Rightarrow> None)
      | _ \<Rightarrow> None)"

definition is_surrogate :: "nat \<Rightarrow> bool" where
  "is_surrogate r \<longleftrightarrow> 55296 \<le> r \<and> r < 57344"

text \<open>
  The rune of a \<^verbatim>\<open>\u\<close> escape whose digits start \<open>s\<close>, and the rest: a surrogate must be followed by
  the escape of its partner, otherwise it stands for \<open>RuneError\<close> alone.
\<close>

definition unicode_escape :: "string \<Rightarrow> (nat \<times> string) option" where
  "unicode_escape s =
     (case hex4 s of None \<Rightarrow> None
      | Some (r, rest) \<Rightarrow>
        if \<not> is_surrogate r then Some (r, rest)
        else (case rest of
            b # u # t \<Rightarrow>
              (if b = CHR 0x5C \<and> u = CHR ''u'' then
                 (case hex4 t of
                    Some (r2, rest2) \<Rightarrow>
                      if r < 56320 \<and> 56320 \<le> r2 \<and> r2 < 57344
                      then Some ((r - 55296) * 1024 + (r2 - 56320) + 65536, rest2)
                      else Some (rune_error, rest)
                  | None \<Rightarrow> Some (rune_error, rest))
               else Some (rune_error, rest))
          | _ \<Rightarrow> Some (rune_error, rest)))"

definition simple_escape :: "char \<Rightarrow> char option" where
  "simple_escape c =
     (if c = CHR ''b'' then Some (CHR 0x08) else if c = CHR ''f'' then Some (CHR 0x0C)
      else if c = CHR ''n'' then Some (CHR 0x0A) else if c = CHR ''r'' then Some (CHR 0x0D)
      else if c = CHR ''t'' then Some (CHR 0x09)
      else if c = CHR 0x5C \<or> c = CHR ''/'' \<or> c = CHR 0x22 then Some c else None)"

lemma hex4_shorter: "hex4 s = Some (r, t) \<Longrightarrow> length t < length s"
  by (auto simp: hex4_def split: list.splits option.splits)

lemma unicode_escape_shorter: "unicode_escape s = Some (r, t) \<Longrightarrow> length t < length s"
  by (auto simp: unicode_escape_def dest!: hex4_shorter split: option.splits list.splits if_splits)

text \<open>
  The rest of a string literal after its opening quote: its value and the unread text. Invalid
  UTF-8 is replaced by \<open>RuneError\<close>.
\<close>

function json_string :: "string \<Rightarrow> (string \<times> string) option" where
  "json_string [] = None"
| "json_string (c # s) =
     (if c = CHR 0x22 then Some ([], s)
      else if code c < 32 then None
      else if c = CHR 0x5C then
        (case s of [] \<Rightarrow> None
         | e # t \<Rightarrow>
           if e = CHR ''u'' then
             (case unicode_escape t of None \<Rightarrow> None
              | Some (r, rest) \<Rightarrow> map_option (apfst (\<lambda>v. encode_rune r @ v)) (json_string rest))
           else (case simple_escape e of None \<Rightarrow> None
              | Some d \<Rightarrow> map_option (apfst (Cons d)) (json_string t)))
      else map_option (apfst (\<lambda>v. encode_rune (fst (decode_rune (c # s))) @ v))
             (json_string (drop (snd (decode_rune (c # s)) - 1) s)))"
  by pat_completeness auto
termination
  by (relation "measure length") (auto dest!: unicode_escape_shorter simp del: decode_rune.simps(2))

definition json_element :: "string \<Rightarrow> (string \<times> string) option" where
  "json_element s =
     (case s of [] \<Rightarrow> None
      | c # t \<Rightarrow> if c = CHR 0x22 then json_string t
          else if has_prefix s ''null'' then Some ([], drop 4 s) else None)"

lemma json_string_shorter: "json_string s = Some (v, t) \<Longrightarrow> length t < length s"
proof (induction s arbitrary: v t rule: json_string.induct)
  case (2 c s)
  then show ?case
    by (auto split: if_splits list.splits option.splits dest!: unicode_escape_shorter
        simp del: decode_rune.simps(2)) (fastforce simp del: decode_rune.simps(2))+
qed simp

lemma json_element_shorter: "json_element s = Some (v, t) \<Longrightarrow> length t < length s"
  by (auto simp: json_element_def has_prefix_iff dest!: json_string_shorter
      split: list.splits if_splits)

lemma skip_white_le: "length (skip_white s) \<le> length s"
  by (simp add: skip_white_def length_dropWhile_le)

text \<open>The elements of an array after its first, and the text after the closing bracket.\<close>

function json_elements :: "string \<Rightarrow> (string list \<times> string) option" where
  "json_elements s =
     (case json_element (skip_white s) of None \<Rightarrow> None
      | Some (v, rest) \<Rightarrow>
        (case skip_white rest of [] \<Rightarrow> None
         | c # t \<Rightarrow>
           if c = CHR '']'' then Some ([v], t)
           else if c = CHR '','' then map_option (apfst (Cons v)) (json_elements t)
           else None))"
  by pat_completeness auto
termination
proof (relation "measure length", simp)
  fix s p v rest c t
  assume a: "json_element (skip_white s) = Some p" "(v, rest) = p" "skip_white rest = c # t"
  then have "length rest < length (skip_white s)" by (auto dest: json_element_shorter)
  moreover have "length (c # t) \<le> length rest" using a(3) skip_white_le by metis
  ultimately show "(t, s) \<in> measure length" using skip_white_le [of s] by simp
qed

declare json_elements.simps [simp del]

text \<open>\<open>json.Unmarshal\<close> into a \<open>[]string\<close>; \<open>None\<close> is any error.\<close>

definition json_string_list :: "string \<Rightarrow> string list option" where
  "json_string_list s =
     (case skip_white s of [] \<Rightarrow> None
      | c # t \<Rightarrow>
        if c = CHR ''['' then
          (case (if has_prefix (skip_white t) '']'' then Some ([], tl (skip_white t))
                 else json_elements t) of
             None \<Rightarrow> None
           | Some (xs, rest) \<Rightarrow> if skip_white rest = [] then Some xs else None)
        else if c = CHR ''n'' \<and> has_prefix (c # t) ''null'' \<and> skip_white (drop 3 t) = [] then Some []
        else None)"

end
