(* ===== verification/RoutingFilters.thy ===== *)
theory RoutingFilters
  imports RoutingTypes GoFloat GoJson
begin

text \<open>
  \<^verbatim>\<open>internal/routing/filters.go\<close> and the value lookup of \<^verbatim>\<open>sort.go\<close>: the metadata value a key
  denotes, and the filters that decide which backends take part in a selection. The clock is the
  argument \<open>now\<close>, in milliseconds.
\<close>

section \<open>Values of keys\<close>

definition meta_get :: "(string \<rightharpoonup> string) \<Rightarrow> string \<Rightarrow> string" where
  "meta_get m k = (case m k of None \<Rightarrow> [] | Some v \<Rightarrow> v)"

text \<open>
  \<open>sortValue\<close>: the raw string, whether there is a value, and its number. The switch on the key is
  \<open>raw_value\<close>.
\<close>

definition raw_value :: "backend \<Rightarrow> string \<Rightarrow> string" where
  "raw_value b key =
     (if key = ''host'' then b_host b
      else if key = ''port'' then itoa (b_port b)
      else if key = ''weight'' then itoa (b_weight b)
      else if has_prefix key ''label:'' then
        meta_get (b_meta b) (''label.'' @ trim_space (trim_prefix key ''label:''))
      else if has_prefix key ''annotation:'' then
        meta_get (b_meta b) (''annotation.'' @ trim_space (trim_prefix key ''annotation:''))
      else if has_prefix key ''counter:'' then
        meta_get (b_meta b) (''counter.'' @ trim_space (trim_prefix key ''counter:''))
      else meta_get (b_meta b) key)"

definition sort_value :: "backend \<Rightarrow> string \<Rightarrow> string \<Rightarrow> string \<times> bool \<times> f64" where
  "sort_value b key0 type_hint =
     (let key = trim_space key0; number = (normalize_strategy type_hint = ''number'') in
      if key = [] then ([], False, Fin 0)
      else if number \<and> key = ''port'' then ([], True, f64_of_int (b_port b))
      else if number \<and> key = ''weight'' then ([], True, f64_of_int (b_weight b))
      else let raw = raw_value b key in
        if raw = [] then ([], False, Fin 0)
        else if number then
          (case parse_float raw of None \<Rightarrow> ([], False, Fin 0) | Some n \<Rightarrow> ([], True, n))
        else (raw, True, Fin 0))"

text \<open>The number of a key, as the strategies read it: \<open>None\<close> when there is none.\<close>

definition key_number :: "backend \<Rightarrow> string \<Rightarrow> f64 option" where
  "key_number b key =
     (case sort_value b key ''number'' of (_, ok, n) \<Rightarrow> if ok then Some n else None)"

lemma sort_value_not_ok: "sort_value b k t = (s, False, n) \<Longrightarrow> s = [] \<and> n = Fin 0"
  by (auto simp: sort_value_def Let_def split: if_splits option.splits)

lemma key_number_port [simp]: "key_number b ''port'' = Some (f64_of_int (b_port b))"
  by (simp add: key_number_def sort_value_def trim_space_plain plain_char_def)

lemma key_number_weight [simp]: "key_number b ''weight'' = Some (f64_of_int (b_weight b))"
  by (simp add: key_number_def sort_value_def trim_space_plain plain_char_def)

section \<open>Filters\<close>

definition list_contains :: "string \<Rightarrow> string \<Rightarrow> bool" where
  "list_contains raw0 want =
     (let raw = trim_space raw0 in
      if raw = [] then False
      else if has_prefix raw ''['' then
        (case json_string_list raw of None \<Rightarrow> False | Some xs \<Rightarrow> want \<in> set xs)
      else want \<in> set (map trim_space (split_on (CHR '','') raw)))"

text \<open>The three filter types, one definition per case of the switch in \<open>filterMatches\<close>.\<close>

definition compare_op :: "string \<Rightarrow> f64 \<Rightarrow> f64 \<Rightarrow> bool" where
  "compare_op op l r =
     (if op = ''lt'' then f64_lt l r
      else if op = ''lte'' then f64_le l r
      else if op = ''gt'' then f64_lt r l
      else if op = ''gte'' then f64_le r l
      else if op = ''eq'' then f64_eq l r
      else if op = ''neq'' then \<not> f64_eq l r
      else False)"

definition compare_matches :: "backend \<Rightarrow> filter_cfg \<Rightarrow> bool" where
  "compare_matches b f =
     (case (key_number b (f_left f), key_number b (f_right f)) of
        (Some l, Some r) \<Rightarrow> compare_op (normalize_strategy (f_op f)) l r
      | _ \<Rightarrow> False)"

definition truthy :: "string \<Rightarrow> bool" where
  "truthy v \<longleftrightarrow> v = ''true'' \<or> v = ''1'' \<or> v = ''yes''"

definition whitelist_matches :: "request \<Rightarrow> backend \<Rightarrow> filter_cfg \<Rightarrow> bool" where
  "whitelist_matches req b f =
     (let enabled_key = trim_space (f_enabled_key f) in
      if enabled_key = [] then False
      else if \<not> truthy (to_lower (trim_space (meta_get (b_meta b) enabled_key))) then True
      else let list_key = trim_space (f_list_key f) in
        if list_key = [] then False
        else let raw = trim_space (meta_get (b_meta b) list_key) in
          if raw = [] then False
          else let subject0 = normalize_strategy (f_subject f);
                   subject = (if subject0 = [] then ''uuid'' else subject0) in
            if subject \<noteq> ''uuid'' \<and> subject \<noteq> ''username'' then False
            else let want = trim_space (if subject = ''uuid'' then req_uuid req else req_username req) in
              if want = [] then False else list_contains raw want)"

definition game_start_matches :: "int \<Rightarrow> backend \<Rightarrow> filter_cfg \<Rightarrow> bool" where
  "game_start_matches now b f =
     (let key = trim_space (f_key f) in
      if key = [] then False
      else let raw = trim_space (meta_get (b_meta b) key) in
        if raw = [] then True
        else (case parse_int raw of (n, ok) \<Rightarrow>
          if \<not> ok then False
          else if n = - 1 then True
          else (if 0 < n \<and> n < 10000000000 then wrap64 (n * 1000) else n) > now))"

definition filter_matches :: "int \<Rightarrow> request \<Rightarrow> backend \<Rightarrow> filter_cfg \<Rightarrow> bool" where
  "filter_matches now req b f =
     (let t = normalize_strategy (f_type f) in
      if t = ''compare'' then compare_matches b f
      else if t = ''whitelist'' then whitelist_matches req b f
      else if t = ''game_start_not_past'' then game_start_matches now b f
      else False)"

text \<open>\<open>applyFilters\<close>: without filters, a copy of the list.\<close>

definition apply_filters :: "int \<Rightarrow> request \<Rightarrow> backend list \<Rightarrow> filter_cfg list \<Rightarrow> backend list" where
  "apply_filters now req bs fs =
     (if fs = [] then bs else filter (\<lambda>b. list_all (filter_matches now req b) fs) bs)"

lemma apply_filters_eq: "apply_filters now req bs fs = filter (\<lambda>b. \<forall>f \<in> set fs. filter_matches now req b f) bs"
  by (simp add: apply_filters_def list_all_iff)

lemma set_apply_filters:
  "b \<in> set (apply_filters now req bs fs) \<longleftrightarrow> b \<in> set bs \<and> (\<forall>f \<in> set fs. filter_matches now req b f)"
  by (simp add: apply_filters_eq)

lemma apply_filters_Nil [simp]: "apply_filters now req [] fs = []"
  by (simp add: apply_filters_def)

section \<open>Properties\<close>

text \<open>
  Filters are conjunctive: filtering by two lists in turn is filtering by their concatenation, and
  the order of the filters does not matter.
\<close>

lemma apply_filters_append:
  "apply_filters now req bs (fs @ gs) = apply_filters now req (apply_filters now req bs fs) gs"
  by (simp add: apply_filters_eq conj_commute ball_Un)

lemma apply_filters_cong: "set fs = set gs \<Longrightarrow> apply_filters now req bs fs = apply_filters now req bs gs"
  by (simp add: apply_filters_eq)

text \<open>The gate of the whitelist: a backend that does not enable it accepts every client.\<close>

lemma whitelist_disabled:
  assumes "normalize_strategy (f_type f) = ''whitelist''" "trim_space (f_enabled_key f) \<noteq> []"
    and "\<not> truthy (to_lower (trim_space (meta_get (b_meta b) (trim_space (f_enabled_key f)))))"
  shows "filter_matches now req b f"
  using assms by (simp add: filter_matches_def whitelist_matches_def Let_def)

text \<open>
  An enabled whitelist fails closed: a client passes only if its non-empty identity is an element of
  the non-empty list of the backend.
\<close>

definition whitelist_subject :: "request \<Rightarrow> filter_cfg \<Rightarrow> string" where
  "whitelist_subject req f =
     trim_space (if normalize_strategy (f_subject f) = ''username'' then req_username req else req_uuid req)"

lemma whitelist_enabled:
  assumes "normalize_strategy (f_type f) = ''whitelist''"
    and "truthy (to_lower (trim_space (meta_get (b_meta b) (trim_space (f_enabled_key f)))))"
    and "filter_matches now req b f"
  shows "whitelist_subject req f \<noteq> [] \<and> trim_space (f_list_key f) \<noteq> [] \<and>
    list_contains (meta_get (b_meta b) (trim_space (f_list_key f))) (whitelist_subject req f)"
  using assms
  by (auto simp: filter_matches_def whitelist_matches_def whitelist_subject_def Let_def
      list_contains_def split: if_splits)

end
