(* ===== verification/GoSort.thy ===== *)
theory GoSort
  imports HyPrelude
begin

text \<open>
  \<open>sort.SliceStable\<close> and \<open>sort.Slice\<close>. The model is the insertion sort the library runs on up to
  twenty elements; for a comparison that is a strict weak order its result is the only stable
  sorted arrangement (\<open>stable_unique\<close>), hence also the result of the library's merges on longer
  slices, and, where equivalent elements are equal, of the unstable \<open>sort.Slice\<close>.
\<close>

section \<open>Insertion sort\<close>

text \<open>The sorted prefix is kept reversed: the new element moves left while it is less.\<close>

fun insert_rev :: "('a \<Rightarrow> 'a \<Rightarrow> bool) \<Rightarrow> 'a \<Rightarrow> 'a list \<Rightarrow> 'a list" where
  "insert_rev lt x [] = [x]"
| "insert_rev lt x (y # ys) = (if lt x y then y # insert_rev lt x ys else x # y # ys)"

definition stable_sort :: "('a \<Rightarrow> 'a \<Rightarrow> bool) \<Rightarrow> 'a list \<Rightarrow> 'a list" where
  "stable_sort lt xs = rev (foldl (\<lambda>acc x. insert_rev lt x acc) [] xs)"

lemma mset_insert_rev [simp]: "mset (insert_rev lt x ys) = add_mset x (mset ys)"
  by (induction ys) auto

lemma mset_foldl_insert_rev:
  "mset (foldl (\<lambda>acc x. insert_rev lt x acc) acc xs) = mset acc + mset xs"
  by (induction xs arbitrary: acc) auto

lemma mset_stable_sort [simp]: "mset (stable_sort lt xs) = mset xs"
  by (simp add: stable_sort_def mset_foldl_insert_rev)

lemma set_stable_sort [simp]: "set (stable_sort lt xs) = set xs"
  by (metis mset_stable_sort set_mset_mset)

lemma length_stable_sort [simp]: "length (stable_sort lt xs) = length xs"
  by (metis mset_stable_sort size_mset)

lemma stable_sort_Nil [simp]: "stable_sort lt [] = []"
  by (simp add: stable_sort_def)

lemma stable_sort_snoc:
  "stable_sort lt (xs @ [x]) = rev (insert_rev lt x (rev (stable_sort lt xs)))"
  by (simp add: stable_sort_def)

lemma stable_sort_never_less: "(\<And>x y. \<not> lt x y) \<Longrightarrow> stable_sort lt xs = xs"
proof (induction xs rule: rev_induct)
  case Nil
  then show ?case by simp
next
  case (snoc x xs)
  have ins: "insert_rev lt x ys = x # ys" for ys using snoc.prems by (cases ys) auto
  show ?case using snoc.IH [OF snoc.prems] by (simp only: stable_sort_snoc ins) simp
qed

section \<open>Comparisons\<close>

text \<open>
  The contract a comparison must meet for the sort to mean anything: a strict weak order on the
  elements that occur, here a set \<open>C\<close>.
\<close>

locale weak_order =
  fixes lt :: "'a \<Rightarrow> 'a \<Rightarrow> bool" and C :: "'a set"
  assumes irrefl: "x \<in> C \<Longrightarrow> \<not> lt x x"
    and trans: "x \<in> C \<Longrightarrow> y \<in> C \<Longrightarrow> z \<in> C \<Longrightarrow> lt x y \<Longrightarrow> lt y z \<Longrightarrow> lt x z"
    and neg_trans: "x \<in> C \<Longrightarrow> y \<in> C \<Longrightarrow> z \<in> C \<Longrightarrow> \<not> lt x y \<Longrightarrow> \<not> lt y z \<Longrightarrow> \<not> lt x z"
begin

abbreviation ordered :: "'a list \<Rightarrow> bool" where
  "ordered xs \<equiv> sorted_wrt (\<lambda>x y. \<not> lt y x) xs"

abbreviation equiv_to :: "'a \<Rightarrow> 'a \<Rightarrow> bool" where
  "equiv_to a x \<equiv> \<not> lt a x \<and> \<not> lt x a"

lemma asym: "x \<in> C \<Longrightarrow> y \<in> C \<Longrightarrow> lt x y \<Longrightarrow> \<not> lt y x"
  using irrefl trans by blast

text \<open>The reversed prefix is sorted the other way round.\<close>

lemma insert_rev_sorted:
  "set ys \<subseteq> C \<Longrightarrow> x \<in> C \<Longrightarrow> sorted_wrt (\<lambda>x y. \<not> lt x y) ys
   \<Longrightarrow> sorted_wrt (\<lambda>x y. \<not> lt x y) (insert_rev lt x ys)"
proof (induction ys)
  case Nil
  then show ?case by simp
next
  case (Cons y ys)
  have set_ins: "set (insert_rev lt x ys) = insert x (set ys)"
    by (metis mset_insert_rev set_mset_add_mset_insert set_mset_mset)
  show ?case
  proof (cases "lt x y")
    case True
    with Cons set_ins asym [of x y] show ?thesis by simp
  next
    case False
    with Cons.prems have "\<forall>z \<in> set ys. \<not> lt x z"
      using neg_trans [of x y] by auto
    with False Cons.prems show ?thesis by simp
  qed
qed

lemma stable_sort_ordered: "set xs \<subseteq> C \<Longrightarrow> ordered (stable_sort lt xs)"
proof (induction xs rule: rev_induct)
  case Nil
  then show ?case by simp
next
  case (snoc x xs)
  then have "sorted_wrt (\<lambda>x y. \<not> lt x y) (insert_rev lt x (rev (stable_sort lt xs)))"
    by (intro insert_rev_sorted) (simp_all add: sorted_wrt_rev)
  then show ?case by (simp add: stable_sort_snoc sorted_wrt_rev)
qed

lemma filter_insert_rev:
  "set ys \<subseteq> C \<Longrightarrow> x \<in> C \<Longrightarrow> a \<in> C \<Longrightarrow>
   filter (equiv_to a) (insert_rev lt x ys) =
     (if equiv_to a x then x # filter (equiv_to a) ys else filter (equiv_to a) ys)"
proof (induction ys)
  case Nil
  then show ?case by simp
next
  case (Cons y ys)
  have "lt x y \<Longrightarrow> equiv_to a x \<Longrightarrow> \<not> equiv_to a y"
    using Cons.prems neg_trans [of x a y] by auto
  with Cons show ?case by auto
qed

lemma stable_sort_stable:
  "set xs \<subseteq> C \<Longrightarrow> a \<in> C \<Longrightarrow> filter (equiv_to a) (stable_sort lt xs) = filter (equiv_to a) xs"
proof (induction xs rule: rev_induct)
  case Nil
  then show ?case by simp
next
  case (snoc x xs)
  then have "filter (equiv_to a) (insert_rev lt x (rev (stable_sort lt xs))) =
      (if equiv_to a x then x # filter (equiv_to a) (rev (stable_sort lt xs))
       else filter (equiv_to a) (rev (stable_sort lt xs)))"
    by (intro filter_insert_rev) auto
  with snoc show ?case by (simp add: stable_sort_snoc rev_filter [symmetric])
qed

lemma ordered_unique:
  "set xs \<subseteq> C \<Longrightarrow> set ys \<subseteq> C \<Longrightarrow> ordered xs \<Longrightarrow> ordered ys \<Longrightarrow>
   (\<And>a. a \<in> C \<Longrightarrow> filter (equiv_to a) xs = filter (equiv_to a) ys) \<Longrightarrow> xs = ys"
proof (induction xs arbitrary: ys)
  case Nil
  show ?case
  proof (cases ys)
    case (Cons y ys')
    with Nil.prems(2) have "y \<in> C" by simp
    with Nil.prems(5) [of y] Cons irrefl show ?thesis by simp
  qed simp
next
  case (Cons x xs)
  from Cons.prems(1) have x: "x \<in> C" by simp
  then have "x # filter (equiv_to x) xs = filter (equiv_to x) ys"
    using Cons.prems(5) [OF x] irrefl [OF x] by simp
  then have "x \<in> set (filter (equiv_to x) ys)" by (metis list.set_intros(1))
  then have x_ys: "x \<in> set ys" by simp
  then obtain y ys' where ys: "ys = y # ys'" by (cases ys) auto
  with Cons.prems(2) have y: "y \<in> C" by simp
  from Cons.prems(5) [OF y] ys irrefl [OF y] have "y \<in> set (filter (equiv_to y) (x # xs))" by simp
  then have y_xs: "y \<in> set (x # xs)" by (meson filter_is_subset subsetD)
  have "\<not> lt x y" using x_ys Cons.prems(4) ys irrefl [OF x] by auto
  moreover have "\<not> lt y x" using y_xs Cons.prems(3) irrefl [OF x] by auto
  ultimately have "y = x" using Cons.prems(5) [OF x] ys irrefl [OF x] by simp
  moreover have "xs = ys'"
  proof (rule Cons.IH)
    fix a assume "a \<in> C"
    from Cons.prems(5) [OF this] ys \<open>y = x\<close> show "filter (equiv_to a) xs = filter (equiv_to a) ys'"
      by (cases "equiv_to a x") auto
  qed (use Cons.prems ys in auto)
  ultimately show ?case by (simp add: ys)
qed

theorem stable_unique:
  assumes "set xs \<subseteq> C" "set ys \<subseteq> C" "ordered ys"
    and "\<And>a. a \<in> C \<Longrightarrow> filter (equiv_to a) ys = filter (equiv_to a) xs"
  shows "ys = stable_sort lt xs"
proof (rule ordered_unique)
  show "set (stable_sort lt xs) \<subseteq> C" using assms(1) by simp
  show "ordered (stable_sort lt xs)" using assms(1) by (rule stable_sort_ordered)
  show "filter (equiv_to a) ys = filter (equiv_to a) (stable_sort lt xs)" if "a \<in> C" for a
    using assms(1,4) that stable_sort_stable by simp
qed (use assms in simp_all)

end

end
