(* ===== verification/RoutingSort.thy ===== *)
theory RoutingSort
  imports RoutingFilters GoSort
begin

text \<open>
  \<open>applySort\<close> of \<^verbatim>\<open>internal/routing/sort.go\<close>: a stable sort of the candidates by a list of keys.
  A NaN value of a numeric key makes the comparison unordered; the properties are about
  candidates without one.
\<close>

section \<open>The comparison\<close>

fun sort_less :: "sort_key list \<Rightarrow> backend \<Rightarrow> backend \<Rightarrow> bool" where
  "sort_less [] a b = False"
| "sort_less (k # ks) a b =
     (let order = (if normalize_strategy (sk_order k) = [] then ''asc'' else normalize_strategy (sk_order k));
          hint = normalize_strategy (sk_type k);
          (av, aok, an) = sort_value a (sk_key k) hint;
          (bv, bok, bn) = sort_value b (sk_key k) hint
      in if aok \<noteq> bok then aok \<and> \<not> bok
         else if hint = ''number'' then
           (if \<not> f64_eq an bn then (if order = ''desc'' then f64_lt bn an else f64_lt an bn)
            else sort_less ks a b)
         else if av \<noteq> bv then (if order = ''desc'' then bv < av else av < bv)
         else sort_less ks a b)"

definition apply_sort :: "backend list \<Rightarrow> sort_key list \<Rightarrow> backend list" where
  "apply_sort bs keys = (if keys = [] then bs else stable_sort (sort_less keys) bs)"

lemma apply_sort_mset [simp]: "mset (apply_sort bs keys) = mset bs"
  by (simp add: apply_sort_def)

lemma apply_sort_set [simp]: "set (apply_sort bs keys) = set bs"
  by (simp add: apply_sort_def)

lemma apply_sort_length [simp]: "length (apply_sort bs keys) = length bs"
  by (simp add: apply_sort_def)

lemma apply_sort_Nil [simp]: "apply_sort [] keys = []"
  by (simp add: apply_sort_def)

section \<open>The comparison is a strict weak order\<close>

text \<open>One key: backends with a value come first, then the order of the values.\<close>

datatype key_rank = Num f64 | Str string | Missing

definition key_rank_of :: "sort_key \<Rightarrow> backend \<Rightarrow> key_rank" where
  "key_rank_of k b =
     (let hint = normalize_strategy (sk_type k) in
      case sort_value b (sk_key k) hint of (v, ok, n) \<Rightarrow>
        if \<not> ok then Missing else if hint = ''number'' then Num n else Str v)"

text \<open>No numeric sort key of the backend is NaN.\<close>

definition no_nan :: "sort_key list \<Rightarrow> backend \<Rightarrow> bool" where
  "no_nan keys b = list_all (\<lambda>k. key_rank_of k b \<noteq> Num NaN) keys"

definition descending :: "sort_key \<Rightarrow> bool" where
  "descending k \<longleftrightarrow> normalize_strategy (sk_order k) = ''desc''"

fun rank_less :: "bool \<Rightarrow> key_rank \<Rightarrow> key_rank \<Rightarrow> bool" where
  "rank_less desc (Num x) (Num y) = (if desc then f64_lt y x else f64_lt x y)"
| "rank_less desc (Str x) (Str y) = (if desc then y < x else x < y)"
| "rank_less desc (Num _) Missing = True"
| "rank_less desc (Str _) Missing = True"
| "rank_less desc _ _ = False"

lemma sort_less_Cons:
  assumes "key_rank_of k a \<noteq> Num NaN" "key_rank_of k b \<noteq> Num NaN"
  shows "sort_less (k # ks) a b \<longleftrightarrow>
    (if key_rank_of k a = key_rank_of k b then sort_less ks a b
     else rank_less (descending k) (key_rank_of k a) (key_rank_of k b))"
proof -
  let ?h = "normalize_strategy (sk_type k)"
  obtain av aok an where a: "sort_value a (sk_key k) ?h = (av, aok, an)" by (metis prod_cases3)
  obtain bv bok bn where b: "sort_value b (sk_key k) ?h = (bv, bok, bn)" by (metis prod_cases3)
  have eq: "aok = False \<Longrightarrow> av = [] \<and> an = Fin 0" "bok = False \<Longrightarrow> bv = [] \<and> bn = Fin 0"
    using a b sort_value_not_ok by metis+
  show ?thesis
    using assms a b eq
    by (auto simp: key_rank_of_def descending_def f64_eq_iff)
qed

text \<open>Ranks of one key compare consistently: the two kinds of value never meet under one key.\<close>

definition same_kind :: "key_rank \<Rightarrow> key_rank \<Rightarrow> bool" where
  "same_kind r s \<longleftrightarrow> r = Missing \<or> s = Missing \<or> (\<exists>x y. r = Num x \<and> s = Num y) \<or> (\<exists>x y. r = Str x \<and> s = Str y)"

lemma key_rank_same_kind: "same_kind (key_rank_of k a) (key_rank_of k b)"
  by (auto simp: same_kind_def key_rank_of_def Let_def split: prod.splits)

lemma rank_less_irrefl [simp]: "\<not> rank_less d r r"
  by (cases r) auto

lemma rank_less_trans: "rank_less d r s \<Longrightarrow> rank_less d s t \<Longrightarrow> rank_less d r t"
  by (cases r; cases s; cases t) (auto dest: f64_lt_trans split: if_splits)

lemma rank_total:
  "same_kind r s \<Longrightarrow> r \<noteq> Num NaN \<Longrightarrow> s \<noteq> Num NaN \<Longrightarrow> r \<noteq> s \<Longrightarrow> rank_less d r s \<or> rank_less d s r"
  by (cases r; cases s) (auto simp: same_kind_def dest: f64_trichotomy)

lemma rank_less_asym: "rank_less d r s \<Longrightarrow> \<not> rank_less d s r"
  using rank_less_trans rank_less_irrefl by blast

lemma no_nan_simps [simp]:
  "no_nan [] b" "no_nan (k # ks) b \<longleftrightarrow> key_rank_of k b \<noteq> Num NaN \<and> no_nan ks b"
  by (simp_all add: no_nan_def)

declare sort_less.simps(2) [simp del]

lemma sort_less_irrefl: "no_nan keys a \<Longrightarrow> \<not> sort_less keys a a"
  by (induction keys) (simp_all add: sort_less_Cons)

lemma sort_less_trans:
  "no_nan keys a \<Longrightarrow> no_nan keys b \<Longrightarrow> no_nan keys c \<Longrightarrow>
   sort_less keys a b \<Longrightarrow> sort_less keys b c \<Longrightarrow> sort_less keys a c"
proof (induction keys)
  case (Cons k ks)
  then show ?case
    by (auto simp: sort_less_Cons dest: rank_less_trans rank_less_asym split: if_splits)
qed simp

lemma sort_less_neg_trans:
  "no_nan keys a \<Longrightarrow> no_nan keys b \<Longrightarrow> no_nan keys c \<Longrightarrow>
   \<not> sort_less keys a b \<Longrightarrow> \<not> sort_less keys b c \<Longrightarrow> \<not> sort_less keys a c"
proof (induction keys)
  case (Cons k ks)
  let ?r = "key_rank_of k a" and ?s = "key_rank_of k b" and ?t = "key_rank_of k c"
  note total = rank_total [OF key_rank_same_kind, where d = "descending k"]
  have ab: "?r \<noteq> ?s \<Longrightarrow> rank_less (descending k) ?s ?r"
    and bc: "?s \<noteq> ?t \<Longrightarrow> rank_less (descending k) ?t ?s"
    using Cons.prems total by (auto simp: sort_less_Cons)
  show ?case
  proof (cases "?r = ?s \<and> ?s = ?t")
    case True
    with Cons show ?thesis by (auto simp: sort_less_Cons)
  next
    case False
    then have "rank_less (descending k) ?t ?r"
      using ab bc rank_less_trans by metis
    then show ?thesis
      using Cons.prems rank_less_asym by (auto simp: sort_less_Cons)
  qed
qed simp

interpretation by_keys: weak_order "sort_less keys" "{b. no_nan keys b}" for keys
  using sort_less_irrefl sort_less_trans sort_less_neg_trans
  by unfold_locales blast+

section \<open>Properties of the sort\<close>

text \<open>Nothing that comes later is less than what comes before.\<close>

lemma apply_sort_ordered:
  assumes "list_all (no_nan keys) bs"
  shows "sorted_wrt (\<lambda>a b. \<not> sort_less keys b a) (apply_sort bs keys)"
proof (cases "keys = []")
  case True
  then show ?thesis by (simp add: apply_sort_def sorted_wrt_iff_nth_less)
next
  case False
  with assms show ?thesis
    by (auto simp: apply_sort_def list_all_iff intro: by_keys.stable_sort_ordered)
qed

text \<open>Backends that compare equal keep their order.\<close>

lemma apply_sort_stable:
  assumes "list_all (no_nan keys) bs" "no_nan keys a"
  shows "filter (\<lambda>x. \<not> sort_less keys a x \<and> \<not> sort_less keys x a) (apply_sort bs keys) =
         filter (\<lambda>x. \<not> sort_less keys a x \<and> \<not> sort_less keys x a) bs"
proof (cases "keys = []")
  case False
  with assms show ?thesis
    by (auto simp: apply_sort_def list_all_iff intro!: by_keys.stable_sort_stable)
qed (simp add: apply_sort_def)

text \<open>Backends without a value for the first key come after all that have one.\<close>

lemma missing_last:
  assumes "key_rank_of k a \<noteq> Missing" "key_rank_of k b = Missing" "key_rank_of k a \<noteq> Num NaN"
  shows "sort_less (k # ks) a b"
  using assms by (cases "key_rank_of k a") (auto simp: sort_less_Cons)

end
