(* ===== verification/GoPath.thy ===== *)
theory GoPath
  imports GoStrings
begin

text \<open>
  Go's \<open>path.Match\<close> as hyrouter uses it for host-name patterns: the chunk-wise algorithm of the
  standard library, which commits to the leftmost match after each star, and the declarative
  meaning of patterns made of literal bytes and stars, to which it is proved equivalent.
\<close>

section \<open>The algorithm\<close>

text \<open>\<open>scanChunk\<close>: the leading stars, the chunk up to the next star outside a class, the rest.\<close>

fun drop_stars :: "string \<Rightarrow> bool \<times> string" where
  "drop_stars (c # p) = (if c = CHR ''*'' then (True, snd (drop_stars p)) else (False, c # p))"
| "drop_stars [] = (False, [])"

fun scan_body :: "bool \<Rightarrow> string \<Rightarrow> string \<times> string" where
  "scan_body inr [] = ([], [])"
| "scan_body inr (c # p) =
     (if c = CHR 0x5C then
        (case p of [] \<Rightarrow> ([c], [])
         | d # q \<Rightarrow> apfst (\<lambda>a. c # d # a) (scan_body inr q))
      else if c = CHR ''*'' \<and> \<not> inr then ([], c # p)
      else apfst (Cons c)
             (scan_body (if c = CHR ''['' then True else if c = CHR '']'' then False else inr) p))"

definition scan_chunk :: "string \<Rightarrow> bool \<times> string \<times> string" where
  "scan_chunk p = (let (star, q) = drop_stars p in (star, scan_body False q))"

text \<open>\<open>getEsc\<close>: one possibly escaped rune of a class; \<open>None\<close> is \<open>ErrBadPattern\<close>.\<close>

definition get_esc :: "string \<Rightarrow> (nat \<times> string) option" where
  "get_esc chunk =
     (case chunk of [] \<Rightarrow> None
      | c # cs \<Rightarrow>
        if c = CHR ''-'' \<or> c = CHR '']'' then None
        else let body = (if c = CHR 0x5C then cs else chunk) in
          if body = [] then None
          else let (r, n) = decode_rune body; rest = drop n body in
            if (r = rune_error \<and> n = 1) \<or> rest = [] then None else Some (r, rest))"

lemma get_esc_shorter: "get_esc s = Some (r, t) \<Longrightarrow> t \<noteq> [] \<and> length t < length s"
  using decode_rune_width_pos [of s] decode_rune_width_pos [of "tl s"]
  by (auto simp: get_esc_def Let_def split: list.splits if_splits prod.splits
      simp del: decode_rune.simps(2))

text \<open>The ranges of a class up to its closing bracket: whether \<open>r\<close> matched, and the unread chunk.\<close>

function scan_class :: "nat \<Rightarrow> bool \<Rightarrow> bool \<Rightarrow> string \<Rightarrow> (bool \<times> string) option" where
  "scan_class r seen hit chunk =
     (if seen \<and> has_prefix chunk '']'' then Some (hit, tl chunk)
      else (case get_esc chunk of
          None \<Rightarrow> None
        | Some (lo, c1) \<Rightarrow>
          if has_prefix c1 ''-'' then
            (case get_esc (tl c1) of
               None \<Rightarrow> None
             | Some (hi, c2) \<Rightarrow> scan_class r True (hit \<or> (lo \<le> r \<and> r \<le> hi)) c2)
          else scan_class r True (hit \<or> r = lo) c1))"
  by pat_completeness auto
termination
  by (relation "measure (\<lambda>(r, seen, hit, chunk). length chunk)") (auto dest!: get_esc_shorter)

declare scan_class.simps [simp del]

lemma scan_class_shorter: "scan_class r seen hit s = Some (m, t) \<Longrightarrow> length t < length s"
proof (induction r seen hit s rule: scan_class.induct)
  case (1 r seen hit s)
  note unf = "1.prems" [unfolded scan_class.simps [of r seen hit s]]
  show ?case
  proof (cases "seen \<and> has_prefix s '']''")
    case True
    with unf show ?thesis by (cases s) auto
  next
    case False
    with unf obtain lo c1 where g: "get_esc s = Some (lo, c1)"
      by (auto split: option.splits)
    show ?thesis
    proof (cases "has_prefix c1 ''-''")
      case True
      with False g unf obtain hi c2 where h: "get_esc (tl c1) = Some (hi, c2)"
        and sc: "scan_class r True (hit \<or> (lo \<le> r \<and> r \<le> hi)) c2 = Some (m, t)"
        by (auto split: option.splits)
      have "length t < length c2" by (rule "1.IH"(1) [OF False g refl True h refl sc])
      moreover have "length c2 < length c1" using get_esc_shorter [OF h] by (cases c1) auto
      ultimately show ?thesis using get_esc_shorter [OF g] by simp
    next
      case no: False
      with False g unf have sc: "scan_class r True (hit \<or> r = lo) c1 = Some (m, t)"
        by auto
      have "length t < length c1" by (rule "1.IH"(2) [OF False g refl no sc])
      then show ?thesis using get_esc_shorter [OF g] by simp
    qed
  qed
qed

text \<open>
  \<open>matchChunk\<close>: \<open>Inl\<close> is \<open>ErrBadPattern\<close>, \<open>Inr None\<close> a failed match, \<open>Inr (Some rest)\<close> the unread
  name. Once the match has failed the chunk is still read, for its syntax.
\<close>

definition class_body :: "string \<Rightarrow> bool \<times> string" where
  "class_body cs = (if has_prefix cs ''^'' then (True, tl cs) else (False, cs))"

lemma class_body_length: "length (snd (class_body cs)) \<le> length cs"
  by (simp add: class_body_def)

definition class_rune :: "bool \<Rightarrow> string \<Rightarrow> nat \<times> nat" where
  "class_rune failed s = (if failed then (0, 0) else decode_rune s)"

function match_chunk :: "bool \<Rightarrow> string \<Rightarrow> string \<Rightarrow> unit + string option" where
  "match_chunk failed [] s = Inr (if failed then None else Some s)"
| "match_chunk failed0 (c # cs) s =
     (let failed = (failed0 \<or> s = []) in
      if c = CHR ''['' then
        (case scan_class (fst (class_rune failed s)) False False (snd (class_body cs)) of
           None \<Rightarrow> Inl ()
         | Some (hit, rest) \<Rightarrow>
             match_chunk (failed \<or> hit = fst (class_body cs)) rest (drop (snd (class_rune failed s)) s))
      else if c = CHR ''?'' then
        (if failed then match_chunk True cs s
         else match_chunk (has_prefix s ''/'') cs (drop (snd (decode_rune s)) s))
      else if c = CHR 0x5C then
        (case cs of [] \<Rightarrow> Inl ()
         | d # ds \<Rightarrow> match_chunk (failed \<or> \<not> has_prefix s [d]) ds (if failed then s else tl s))
      else match_chunk (failed \<or> \<not> has_prefix s [c]) cs (if failed then s else tl s))"
  by pat_completeness auto
termination
  by (relation "measure (\<lambda>(f, c, s). length c)")
    (auto dest!: scan_class_shorter intro: order_less_le_trans class_body_length le_imp_less_Suc
      order_less_imp_le)

text \<open>The search for a later match after a star: it must not skip a slash.\<close>

fun match_later :: "string \<Rightarrow> bool \<Rightarrow> string \<Rightarrow> unit + string option" where
  "match_later chunk is_last [] = Inr None"
| "match_later chunk is_last (c # s) =
     (if c = CHR ''/'' then Inr None
      else (case match_chunk False chunk s of
          Inl e \<Rightarrow> Inl e
        | Inr (Some t) \<Rightarrow> if is_last \<and> t \<noteq> [] then match_later chunk is_last s else Inr (Some t)
        | Inr None \<Rightarrow> match_later chunk is_last s))"

lemma scan_body_le: "length (fst (scan_body i p)) + length (snd (scan_body i p)) = length p"
  by (induction i p rule: scan_body.induct) (simp_all split: list.split)

lemma drop_stars_length: "length (snd (drop_stars p)) + (if fst (drop_stars p) then 1 else 0) \<le> length p"
  by (induction p rule: drop_stars.induct) (auto split: if_splits)

lemma drop_stars_head: "snd (drop_stars p) = c # q \<Longrightarrow> c \<noteq> CHR ''*''"
  by (induction p rule: drop_stars.induct) (auto split: if_splits)

lemma scan_body_nonempty: "c \<noteq> CHR ''*'' \<Longrightarrow> fst (scan_body False (c # q)) \<noteq> []"
  by (simp split: list.split)

lemma scan_chunk_shorter: "p \<noteq> [] \<Longrightarrow> length (snd (snd (scan_chunk p))) < length p"
proof -
  assume p: "p \<noteq> []"
  have sd: "snd (scan_chunk p) = scan_body False (snd (drop_stars p))"
    by (simp add: scan_chunk_def split: prod.splits)
  note len = scan_body_le [of False "snd (drop_stars p)"]
  show ?thesis
  proof (cases "fst (drop_stars p)")
    case True
    then show ?thesis using drop_stars_length [of p] len sd by auto
  next
    case False
    then obtain c q where cq: "p = c # q" "c \<noteq> CHR ''*''" "snd (drop_stars p) = p"
      using p by (cases p) (auto split: if_splits)
    then have "fst (scan_body False (snd (drop_stars p))) \<noteq> []" using scan_body_nonempty by simp
    then have "0 < length (fst (scan_body False (snd (drop_stars p))))" by (simp only: length_greater_0_conv) simp
    with len show ?thesis by (simp only: sd cq(3))
  qed
qed

abbreviation chunk_star :: "string \<Rightarrow> bool" where
  "chunk_star p \<equiv> fst (scan_chunk p)"

abbreviation chunk_text :: "string \<Rightarrow> string" where
  "chunk_text p \<equiv> fst (snd (scan_chunk p))"

abbreviation chunk_rest :: "string \<Rightarrow> string" where
  "chunk_rest p \<equiv> snd (snd (scan_chunk p))"

text \<open>After a failed match the rest of the pattern is still checked for its syntax.\<close>

function check_rest :: "string \<Rightarrow> unit + bool" where
  "check_rest p =
     (if p = [] then Inr False
      else (case match_chunk False (chunk_text p) [] of
          Inl e \<Rightarrow> Inl e
        | Inr _ \<Rightarrow> check_rest (chunk_rest p)))"
  by pat_completeness auto
termination
  by (relation "measure length") (auto simp: scan_chunk_shorter)

declare check_rest.simps [simp del]

text \<open>
  The match at the current position counts unless this is the last chunk and name is left over.
\<close>

definition commit_here :: "bool \<Rightarrow> string option \<Rightarrow> string option" where
  "commit_here is_last r =
     (case r of None \<Rightarrow> None | Some t \<Rightarrow> if t = [] \<or> \<not> is_last then Some t else None)"

text \<open>\<open>path.Match\<close>.\<close>

function path_match :: "string \<Rightarrow> string \<Rightarrow> unit + bool" where
  "path_match p name =
     (if p = [] then Inr (name = [])
      else if chunk_star p \<and> chunk_text p = [] then Inr (CHR ''/'' \<notin> set name)
      else (case match_chunk False (chunk_text p) name of
          Inl e \<Rightarrow> Inl e
        | Inr r \<Rightarrow>
          (case commit_here (chunk_rest p = []) r of
             Some t \<Rightarrow> path_match (chunk_rest p) t
           | None \<Rightarrow>
             (case (if chunk_star p then match_later (chunk_text p) (chunk_rest p = []) name
                    else Inr None) of
                Inl e \<Rightarrow> Inl e
              | Inr (Some t) \<Rightarrow> path_match (chunk_rest p) t
              | Inr None \<Rightarrow> check_rest (chunk_rest p)))))"
  by pat_completeness auto
termination
  by (relation "measure (\<lambda>(p, n). length p)") (auto simp: scan_chunk_shorter)

declare path_match.simps [simp del]

section \<open>Meaning of a literal pattern\<close>

text \<open>
  The meaning of a pattern of literal bytes and stars: a star stands for any string without a slash.
\<close>

fun glob :: "string \<Rightarrow> string \<Rightarrow> bool" where
  "glob [] n = (n = [])"
| "glob (p # ps) n =
     (if p = CHR ''*'' then glob ps n \<or> (case n of [] \<Rightarrow> False | c # cs \<Rightarrow> c \<noteq> CHR ''/'' \<and> glob (p # ps) cs)
      else (case n of [] \<Rightarrow> False | c # cs \<Rightarrow> c = p \<and> glob ps cs))"

lemma glob_lit [simp]:
  "p \<noteq> CHR ''*'' \<Longrightarrow> glob (p # ps) [] = False"
  "p \<noteq> CHR ''*'' \<Longrightarrow> glob (p # ps) (c # cs) = (c = p \<and> glob ps cs)"
  by simp_all

lemma glob_star_simps [simp]:
  "glob (CHR ''*'' # ps) [] = glob ps []"
  "glob (CHR ''*'' # ps) (c # cs) = (glob ps (c # cs) \<or> c \<noteq> CHR ''/'' \<and> glob (CHR ''*'' # ps) cs)"
  by simp_all

declare glob.simps(2) [simp del]

definition literal_char :: "char \<Rightarrow> bool" where
  "literal_char c \<longleftrightarrow> c \<noteq> CHR ''['' \<and> c \<noteq> CHR ''?'' \<and> c \<noteq> CHR 0x5C \<and> c \<noteq> CHR ''/''"

definition literal_pattern :: "string \<Rightarrow> bool" where
  "literal_pattern p = list_all literal_char p"

lemma literal_pattern_simps [simp]:
  "literal_pattern []" "literal_pattern (c # p) \<longleftrightarrow> literal_char c \<and> literal_pattern p"
  "literal_pattern (p @ q) \<longleftrightarrow> literal_pattern p \<and> literal_pattern q"
  by (simp_all add: literal_pattern_def)

lemma literal_pattern_slash: "literal_pattern p \<Longrightarrow> CHR ''/'' \<notin> set p"
  by (auto simp: literal_pattern_def list_all_iff literal_char_def)

lemma glob_star_iff:
  "glob (CHR ''*'' # p) n \<longleftrightarrow> (\<exists>u v. n = u @ v \<and> CHR ''/'' \<notin> set u \<and> glob p v)"
proof (induction n)
  case Nil
  then show ?case by simp
next
  case (Cons c n)
  show ?case
  proof
    assume "glob (CHR ''*'' # p) (c # n)"
    then consider "glob p (c # n)" | "c \<noteq> CHR ''/''" "glob (CHR ''*'' # p) n" by auto
    then show "\<exists>u v. c # n = u @ v \<and> CHR ''/'' \<notin> set u \<and> glob p v"
    proof cases
      case 1
      then show ?thesis by (intro exI [of _ "[]"] exI [of _ "c # n"]) simp
    next
      case 2
      with Cons.IH obtain u v where "n = u @ v" "CHR ''/'' \<notin> set u" "glob p v" by blast
      with 2 show ?thesis by (intro exI [of _ "c # u"] exI [of _ v]) simp
    qed
  next
    assume "\<exists>u v. c # n = u @ v \<and> CHR ''/'' \<notin> set u \<and> glob p v"
    then obtain u v where uv: "c # n = u @ v" "CHR ''/'' \<notin> set u" "glob p v" by blast
    show "glob (CHR ''*'' # p) (c # n)"
    proof (cases u)
      case Nil
      with uv have "glob p (c # n)" by simp
      then show ?thesis by simp
    next
      case (Cons d u')
      with uv have "c \<noteq> CHR ''/''" "glob (CHR ''*'' # p) n" using Cons.IH by auto
      then show ?thesis by simp
    qed
  qed
qed

lemma glob_star_absorb:
  assumes "glob (CHR ''*'' # p) v" "CHR ''/'' \<notin> set u"
  shows "glob (CHR ''*'' # p) (u @ v)"
proof -
  obtain u' w where "v = u' @ w" "CHR ''/'' \<notin> set u'" "glob p w"
    using assms(1) [unfolded glob_star_iff [of p v]] by blast
  then have "u @ v = (u @ u') @ w \<and> CHR ''/'' \<notin> set (u @ u') \<and> glob p w" using assms(2) by simp
  then show ?thesis unfolding glob_star_iff [of p "u @ v"] by blast
qed

lemma glob_star_star: "glob (CHR ''*'' # CHR ''*'' # p) n = glob (CHR ''*'' # p) n"
  (is "?L = ?R")
proof
  assume ?L
  then show ?R unfolding glob_star_iff [of "CHR ''*'' # p" n] using glob_star_absorb by blast
next
  assume ?R
  then have "n = [] @ n \<and> CHR ''/'' \<notin> set [] \<and> glob (CHR ''*'' # p) n" by (simp del: glob.simps)
  then show ?L unfolding glob_star_iff [of "CHR ''*'' # p" n] by blast
qed

lemma glob_literal_append:
  "CHR ''*'' \<notin> set c \<Longrightarrow> glob (c @ p) n \<longleftrightarrow> has_prefix n c \<and> glob p (drop (length c) n)"
proof (induction c arbitrary: n)
  case Nil
  then show ?case by simp
next
  case (Cons a c)
  then have "a \<noteq> CHR ''*''" "CHR ''*'' \<notin> set c" by auto
  then show ?case using Cons.IH by (cases n) simp_all
qed

section \<open>Equivalence on literal patterns\<close>

lemma match_chunk_literal:
  "literal_pattern c \<Longrightarrow>
   match_chunk f c s = Inr (if \<not> f \<and> has_prefix s c then Some (drop (length c) s) else None)"
proof (induction c arbitrary: f s)
  case Nil
  then show ?case by simp
next
  case (Cons a c)
  then have "literal_char a" "literal_pattern c" by simp_all
  then show ?case using Cons.IH
    by (cases s) (simp_all add: literal_char_def drop_Suc)
qed

lemma scan_body_literal:
  "literal_pattern p \<Longrightarrow>
   scan_body False p = (takeWhile (\<lambda>c. c \<noteq> CHR ''*'') p, dropWhile (\<lambda>c. c \<noteq> CHR ''*'') p)"
  by (induction p) (auto simp: literal_char_def)

lemma drop_stars_eq:
  "drop_stars p = (has_prefix p ''*'', dropWhile (\<lambda>c. c = CHR ''*'') p)"
  by (induction p) auto

lemma glob_drop_stars:
  "has_prefix p ''*'' \<Longrightarrow> glob p n = glob (CHR ''*'' # snd (drop_stars p)) n"
proof (induction p arbitrary: n)
  case Nil
  then show ?case by simp
next
  case (Cons c p)
  then have c: "c = CHR ''*''" by simp
  show ?case
  proof (cases "has_prefix p ''*''")
    case True
    then obtain q where q: "p = CHR ''*'' # q" by (cases p) auto
    have "glob (c # p) n = glob p n" unfolding q c by (rule glob_star_star)
    moreover have "snd (drop_stars (c # p)) = snd (drop_stars p)" by (simp add: c)
    ultimately show ?thesis using Cons.IH [OF True] by (simp only:)
  next
    case False
    then have "snd (drop_stars p) = p" by (cases p) auto
    then have "snd (drop_stars (c # p)) = p" by (simp add: c)
    then show ?thesis by (simp only: c)
  qed
qed

text \<open>
  A later match of \<open>chunk\<close>: it skips \<open>u\<close>, which is not empty and has no slash, and starts \<open>v\<close>;
  the last chunk must use up the name.
\<close>

definition later_split :: "string \<Rightarrow> bool \<Rightarrow> string \<Rightarrow> string \<Rightarrow> string \<Rightarrow> bool" where
  "later_split chunk is_last s u v \<longleftrightarrow>
     s = u @ v \<and> u \<noteq> [] \<and> CHR ''/'' \<notin> set u \<and> has_prefix v chunk \<and> (is_last \<longrightarrow> v = chunk)"

lemma later_split_Cons:
  "later_split c l (a # s) (b # u) v \<longleftrightarrow>
     b = a \<and> a \<noteq> CHR ''/'' \<and>
     (if u = [] then v = s \<and> has_prefix s c \<and> (l \<longrightarrow> s = c) else later_split c l s u v)"
  by (auto simp: later_split_def)

lemma later_split_not_Nil: "later_split c l s u v \<Longrightarrow> \<exists>b w. u = b # w"
  by (cases u) (auto simp: later_split_def)

lemma match_later_None:
  "literal_pattern c \<Longrightarrow> match_later c l s = Inr None \<Longrightarrow> \<not> later_split c l s u v"
proof (induction s arbitrary: u)
  case Nil
  then show ?case by (auto simp: later_split_def)
next
  case (Cons a s)
  show ?case
  proof
    assume sp: "later_split c l (a # s) u v"
    then obtain b w where u: "u = b # w" using later_split_not_Nil by blast
    with sp Cons show False
      by (auto simp: later_split_Cons match_chunk_literal has_prefix_iff split: if_splits)
  qed
qed

lemma match_later_Some:
  "literal_pattern c \<Longrightarrow> match_later c l s = Inr (Some t) \<Longrightarrow>
   \<exists>u. later_split c l s u (c @ t) \<and> (\<forall>u' v'. later_split c l s u' v' \<longrightarrow> length u \<le> length u')"
proof (induction s)
  case Nil
  then show ?case by simp
next
  case (Cons a s)
  then have a: "a \<noteq> CHR ''/''" by (auto split: if_splits)
  show ?case
  proof (cases "has_prefix s c \<and> (l \<longrightarrow> s = c)")
    case True
    then have "s = c @ t" using Cons.prems a
      by (auto simp: match_chunk_literal has_prefix_iff split: if_splits)
    moreover have "later_split c l (a # s) u' v' \<Longrightarrow> length [a] \<le> length u'" for u' v'
      by (auto dest: later_split_not_Nil)
    ultimately show ?thesis using True a
      by (intro exI [of _ "[a]"]) (auto simp: later_split_Cons)
  next
    case no: False
    then have "match_later c l s = Inr (Some t)"
      using Cons.prems a by (auto simp: match_chunk_literal has_prefix_iff split: if_splits)
    with Cons obtain u where u: "later_split c l s u (c @ t)"
      and least: "\<And>u' v'. later_split c l s u' v' \<Longrightarrow> length u \<le> length u'" by blast
    have "length (a # u) \<le> length u'" if sp: "later_split c l (a # s) u' v'" for u' v'
    proof -
      obtain b w where "u' = b # w" using later_split_not_Nil [OF sp] by blast
      with sp no least show ?thesis by (auto simp: later_split_Cons split: if_splits)
    qed
    moreover have "later_split c l (a # s) (a # u) (c @ t)"
      using u a later_split_not_Nil [OF u] by (auto simp: later_split_Cons)
    ultimately show ?thesis by blast
  qed
qed

lemma match_later_Inr: "literal_pattern c \<Longrightarrow> \<exists>r. match_later c l s = Inr r"
  by (induction s) (auto simp: match_chunk_literal)

lemma scan_chunk_literal:
  assumes "literal_pattern p"
  shows "snd (drop_stars p) = chunk_text p @ chunk_rest p"
    and "CHR ''*'' \<notin> set (chunk_text p)"
    and "chunk_rest p = [] \<or> (\<exists>q. chunk_rest p = CHR ''*'' # q)"
    and "literal_pattern (chunk_text p)" and "literal_pattern (chunk_rest p)"
proof -
  let ?q = "dropWhile (\<lambda>c. c = CHR ''*'') p"
  have q: "literal_pattern ?q"
    using assms by (auto simp: literal_pattern_def list_all_iff dest: set_dropWhileD)
  then have sc: "snd (scan_chunk p) = (takeWhile (\<lambda>c. c \<noteq> CHR ''*'') ?q, dropWhile (\<lambda>c. c \<noteq> CHR ''*'') ?q)"
    by (simp add: scan_chunk_def drop_stars_eq scan_body_literal)
  then have ct: "chunk_text p = takeWhile (\<lambda>c. c \<noteq> CHR ''*'') ?q"
    and cr: "chunk_rest p = dropWhile (\<lambda>c. c \<noteq> CHR ''*'') ?q" by simp_all
  show "snd (drop_stars p) = chunk_text p @ chunk_rest p"
    unfolding ct cr by (simp add: drop_stars_eq)
  show "CHR ''*'' \<notin> set (chunk_text p)"
    unfolding ct by (auto dest: set_takeWhileD)
  show "chunk_rest p = [] \<or> (\<exists>q. chunk_rest p = CHR ''*'' # q)"
    unfolding cr using hd_dropWhile [of "\<lambda>c. c \<noteq> CHR ''*''" ?q] by (metis list.collapse)
  show "literal_pattern (chunk_text p)" "literal_pattern (chunk_rest p)"
    using q unfolding ct cr
    by (auto simp: literal_pattern_def list_all_iff dest: set_takeWhileD set_dropWhileD)
qed

lemma chunk_star_eq: "chunk_star p = has_prefix p ''*''"
  by (simp add: scan_chunk_def drop_stars_eq)

text \<open>The meaning of a literal pattern in terms of its first chunk.\<close>

lemma glob_first_chunk:
  assumes "literal_pattern p"
  shows "glob p n \<longleftrightarrow>
    (if chunk_star p
     then \<exists>u v. n = u @ v \<and> CHR ''/'' \<notin> set u \<and> has_prefix v (chunk_text p)
            \<and> glob (chunk_rest p) (drop (length (chunk_text p)) v)
     else has_prefix n (chunk_text p) \<and> glob (chunk_rest p) (drop (length (chunk_text p)) n))"
proof (cases "chunk_star p")
  case True
  then have "glob p n = glob (CHR ''*'' # chunk_text p @ chunk_rest p) n"
    using glob_drop_stars [of p n] scan_chunk_literal(1) [OF assms] by (simp add: chunk_star_eq)
  also have "\<dots> \<longleftrightarrow> (\<exists>u v. n = u @ v \<and> CHR ''/'' \<notin> set u \<and> glob (chunk_text p @ chunk_rest p) v)"
    by (rule glob_star_iff)
  finally show ?thesis
    using True by (simp add: glob_literal_append [OF scan_chunk_literal(2) [OF assms]])
next
  case False
  then have "\<not> has_prefix p ''*''" by (simp add: chunk_star_eq)
  then have "snd (drop_stars p) = p" by (cases p) auto
  then have "p = chunk_text p @ chunk_rest p" using scan_chunk_literal(1) [OF assms] by simp
  then have "glob p n = glob (chunk_text p @ chunk_rest p) n" by simp
  with False show ?thesis
    by (simp add: glob_literal_append [OF scan_chunk_literal(2) [OF assms]])
qed

lemma check_rest_literal: "literal_pattern p \<Longrightarrow> check_rest p = Inr False"
proof (induction p rule: check_rest.induct)
  case (1 p)
  then show ?case
    using scan_chunk_literal(4,5) [OF "1.prems"]
    by (subst check_rest.simps) (simp add: match_chunk_literal)
qed

text \<open>
  A match found early is as good as a later one: what the later match would have skipped has no
  slash, so the next star can skip it.
\<close>

lemma glob_rest_earlier:
  assumes rest: "rest = CHR ''*'' # q" and c: "CHR ''/'' \<notin> set c"
    and eq: "u @ c @ t = u' @ c @ t'" and u': "CHR ''/'' \<notin> set u'" and le: "length u \<le> length u'"
    and gl: "glob rest t'"
  shows "glob rest t"
proof -
  have "t = drop (length u + length c) (u @ c @ t)" by simp
  then have t: "t = drop (length u + length c) (u' @ c @ t')" by (simp only: eq)
  define w where "w = drop (length u + length c) (u' @ c)"
  have "t = w @ t'" using le by (simp add: t w_def)
  moreover have "CHR ''/'' \<notin> set w"
    using c u' unfolding w_def by (metis Un_iff in_set_dropD set_append)
  ultimately show ?thesis using gl unfolding rest by (simp add: glob_star_absorb)
qed

theorem path_match_glob: "literal_pattern p \<Longrightarrow> path_match p n = Inr (glob p n)"
proof (induction p n rule: path_match.induct)
  case (1 p n)
  let ?c = "chunk_text p" and ?r = "chunk_rest p" and ?st = "chunk_star p"
  note lit = scan_chunk_literal [OF "1.prems"]
  note gf = glob_first_chunk [OF "1.prems", of n]
  note mc = match_chunk_literal [OF lit(4)]
  note cr = check_rest_literal [OF lit(5)]
  note unf = path_match.simps [of p n]
  show ?case
  proof (cases "p = []")
    case True
    then show ?thesis using unf by simp
  next
    case p: False
    show ?thesis
    proof (cases "?st \<and> ?c = []")
      case True
      then have "?r = []"
        using lit(1,3) drop_stars_head [of p] by (cases ?r) auto
      with True gf p show ?thesis
        by (auto simp: unf)
    next
      case sc: False
      let ?here = "commit_here (?r = []) (if has_prefix n ?c then Some (drop (length ?c) n) else None)"
      show ?thesis
      proof (cases ?here)
        case (Some t)
        then have t: "has_prefix n ?c" "t = drop (length ?c) n" "t = [] \<or> ?r \<noteq> []"
          by (auto simp: commit_here_def split: if_splits)
        have step: "path_match p n = path_match ?r t"
          using p sc Some by (auto simp: unf mc)
        have IH: "path_match ?r t = Inr (glob ?r t)"
          using "1.IH"(2) [OF p sc] mc Some lit(5) by simp
        have "glob p n = glob ?r t"
        proof
          assume "glob p n"
          then obtain u v where uv: "n = u @ v" "has_prefix v ?c" "CHR ''/'' \<notin> set u"
            "glob ?r (drop (length ?c) v)"
            using gf t by (auto split: if_splits intro: that [of "[]"])
          show "glob ?r t"
          proof (cases "?r = []")
            case True
            with t show ?thesis by simp
          next
            case False
            with lit(3) obtain q where q: "?r = CHR ''*'' # q" by blast
            have "?c @ t = n" "?c @ drop (length ?c) v = v"
              using uv(2) t(1,2) by (auto simp: has_prefix_iff)
            then have "[] @ ?c @ t = u @ ?c @ drop (length ?c) v" using uv(1) by simp
            then show ?thesis
              by (rule glob_rest_earlier [OF q literal_pattern_slash [OF lit(4)] _ uv(3) _ uv(4)]) simp
          qed
        next
          assume "glob ?r t"
          with gf t show "glob p n" by (auto intro: exI [of _ "[]"])
        qed
        with step IH show ?thesis by simp
      next
        case None
        then have nohere: "has_prefix n ?c \<Longrightarrow> ?r = [] \<and> drop (length ?c) n \<noteq> []"
          by (auto simp: commit_here_def split: if_splits)
        obtain m where m: "match_later ?c (?r = []) n = Inr m" using match_later_Inr [OF lit(4)] by blast
        have step: "path_match p n =
            (case (if ?st then m else None) of Some t \<Rightarrow> path_match ?r t | None \<Rightarrow> Inr False)"
          using p sc None m cr by (auto simp: unf mc split: option.split)
        have later: "later_split ?c (?r = []) n u v"
          if "n = u @ v" "CHR ''/'' \<notin> set u" "has_prefix v ?c" "glob ?r (drop (length ?c) v)" for u v
          using that nohere by (auto simp: later_split_def has_prefix_iff)
        show ?thesis
        proof (cases "if ?st then m else None")
          case None
          have "\<not> glob p n"
          proof
            assume g: "glob p n"
            show False
            proof (cases ?st)
              case True
              then obtain u v where uv: "n = u @ v" "CHR ''/'' \<notin> set u" "has_prefix v ?c"
                "glob ?r (drop (length ?c) v)" using gf g by auto
              have "match_later ?c (?r = []) n = Inr None" using None True m by simp
              from match_later_None [OF lit(4) this] later [OF uv] show False by blast
            next
              case False
              with gf g nohere show False by auto
            qed
          qed
          with None step show ?thesis by simp
        next
          case (Some t)
          then have st: "?st" and mt: "m = Some t" by (auto split: if_splits)
          obtain u where u: "later_split ?c (?r = []) n u (?c @ t)"
            and least: "\<And>u' v'. later_split ?c (?r = []) n u' v' \<Longrightarrow> length u \<le> length u'"
            using match_later_Some [OF lit(4)] m mt by blast
          have IH: "path_match ?r t = Inr (glob ?r t)"
            using "1.IH"(1) [OF p sc] mc None m mt st lit(5) by simp
          have "glob p n = glob ?r t"
          proof
            assume "glob p n"
            then obtain u' v' where uv: "n = u' @ v'" "CHR ''/'' \<notin> set u'" "has_prefix v' ?c"
              "glob ?r (drop (length ?c) v')" using gf st by auto
            show "glob ?r t"
            proof (cases "?r = []")
              case True
              with u show ?thesis by (simp add: later_split_def)
            next
              case False
              with lit(3) obtain q where q: "?r = CHR ''*'' # q" by blast
              have "u @ ?c @ t = u' @ ?c @ drop (length ?c) v'"
                using uv(1,3) u by (auto simp: has_prefix_iff later_split_def)
              then show ?thesis
                by (rule glob_rest_earlier [OF q literal_pattern_slash [OF lit(4)] _ uv(2) _ uv(4)])
                  (rule least [OF later [OF uv]])
            qed
          next
            assume "glob ?r t"
            then have "n = u @ (?c @ t) \<and> CHR ''/'' \<notin> set u \<and> has_prefix (?c @ t) ?c
              \<and> glob ?r (drop (length ?c) (?c @ t))" using u by (simp add: later_split_def)
            with gf st show "glob p n" by (simp only: if_True) blast
          qed
          with step IH Some show ?thesis by simp
        qed
      qed
    qed
  qed
qed

corollary path_match_suffix:
  assumes "literal_pattern s" "CHR ''*'' \<notin> set s"
  shows "path_match (CHR ''*'' # s) n = Inr (\<exists>u. n = u @ s \<and> CHR ''/'' \<notin> set u)"
proof -
  have "glob s v \<longleftrightarrow> v = s" for v
    using glob_literal_append [OF assms(2), of "[]" v] by (auto simp: has_prefix_iff)
  moreover have "literal_pattern (CHR ''*'' # s)"
    using assms(1) by (simp add: literal_char_def)
  ultimately show ?thesis by (simp add: path_match_glob glob_star_iff)
qed

end
