(* ===== verification/RoutingMatch.thy ===== *)
theory RoutingMatch
  imports RoutingTypes GoPath
begin

text \<open>
  \<^verbatim>\<open>internal/routing/match.go\<close>: the host-name patterns of a route and when a host name matches
  one. A malformed pattern matches nothing.
\<close>

definition match_patterns :: "match_cfg \<Rightarrow> string list" where
  "match_patterns m =
     (if 0 < length (m_hostnames m) then m_hostnames m
      else if m_hostname m \<noteq> [] then [m_hostname m]
      else [])"

definition canonical_host :: "string \<Rightarrow> string" where
  "canonical_host s = to_lower (trim_suffix (trim_space s) ''.'')"

definition hostname_matches :: "string \<Rightarrow> string \<Rightarrow> bool" where
  "hostname_matches pattern0 hostname =
     (let pattern = canonical_host pattern0 in
      if pattern = [] \<or> hostname = [] then False
      else if pattern = hostname then True
      else (case path_match pattern hostname of Inl _ \<Rightarrow> False | Inr ok \<Rightarrow> ok))"

section \<open>Properties\<close>

lemma hostname_matches_empty [simp]: "\<not> hostname_matches p []"
  by (simp add: hostname_matches_def)

text \<open>Case and one trailing dot do not matter.\<close>

lemma to_lower_ascii_idem: "ascii_string s \<Longrightarrow> to_lower (to_lower s) = to_lower s"
proof -
  assume s: "ascii_string s"
  have low: "ascii_lower (code c) < 256" "ascii_lower (ascii_lower (code c)) = ascii_lower (code c)" for c
    using of_char_less_256 [of c] by (auto simp: ascii_lower_def)
  have code_low: "code (char_lower c) = ascii_lower (code c)" for c
    using low [of c] by (simp add: char_lower_def)
  then have idem: "char_lower (char_lower c) = char_lower c" for c
    unfolding char_lower_def [of "char_lower c"] code_low low(2) by (simp add: char_lower_def)
  have "code c < 128 \<Longrightarrow> code (char_lower c) < 128" for c
    by (simp add: code_low ascii_lower_def)
  with s have "ascii_string (map char_lower s)" by (simp add: ascii_string_def list_all_iff)
  with s idem show ?thesis by (simp add: to_lower_def)
qed

lemma hostname_matches_canonical:
  "canonical_host p = canonical_host q \<Longrightarrow> hostname_matches p h = hostname_matches q h"
  by (simp add: hostname_matches_def)

text \<open>
  For a pattern whose canonical form has only literal bytes and stars, matching is the declarative
  meaning of the pattern.
\<close>

lemma glob_self: "glob p p"
proof (induction p)
  case Nil
  then show ?case by simp
next
  case (Cons c p)
  show ?case
  proof (cases "c = CHR ''*''")
    case True
    have "c # p = [c] @ p \<and> CHR ''/'' \<notin> set [c] \<and> glob p p" using True Cons by simp
    then show ?thesis unfolding True glob_star_iff by blast
  next
    case False
    with Cons show ?thesis by simp
  qed
qed

lemma hostname_matches_glob:
  assumes "literal_pattern (canonical_host p)"
  shows "hostname_matches p h \<longleftrightarrow> canonical_host p \<noteq> [] \<and> h \<noteq> [] \<and> glob (canonical_host p) h"
  using assms glob_self by (auto simp: hostname_matches_def Let_def path_match_glob)

lemma hostname_matches_exact:
  assumes "literal_pattern (canonical_host p)" "CHR ''*'' \<notin> set (canonical_host p)"
  shows "hostname_matches p h \<longleftrightarrow> h \<noteq> [] \<and> h = canonical_host p"
proof -
  have "glob (canonical_host p) h \<longleftrightarrow> h = canonical_host p"
    using glob_literal_append [OF assms(2), of "[]" h] by (auto simp: has_prefix_iff)
  with assms(1) show ?thesis by (auto simp: hostname_matches_glob)
qed

lemma hostname_matches_wildcard:
  assumes "canonical_host p = CHR ''*'' # s" "literal_pattern s" "CHR ''*'' \<notin> set s"
  shows "hostname_matches p h \<longleftrightarrow> h \<noteq> [] \<and> (\<exists>u. h = u @ s \<and> CHR ''/'' \<notin> set u)"
proof -
  have "literal_pattern (canonical_host p)" using assms by (simp add: literal_char_def)
  moreover have "glob (CHR ''*'' # s) h \<longleftrightarrow> (\<exists>u. h = u @ s \<and> CHR ''/'' \<notin> set u)"
    using path_match_suffix [OF assms(2,3), of h] path_match_glob [of "CHR ''*'' # s" h] assms(2)
    by (simp add: literal_char_def)
  ultimately show ?thesis using assms(1) by (simp add: hostname_matches_glob)
qed

end
