(* ===== verification/RoutingValidate.thy ===== *)
theory RoutingValidate
  imports RoutingTypes
begin

text \<open>
  \<^verbatim>\<open>internal/routing/validate.go\<close>: the checks a routing configuration passes before the server
  starts. An error is a value of \<open>valid_error\<close>; \<open>At\<close> carries the path prefix the code wraps
  around an inner error.
\<close>

datatype valid_error =
    HostEmpty
  | PortRange
  | WeightNegative
  | BackendsEmpty
  | StrategyEmpty
  | UnknownStrategy string
  | KeyEmptyFor string
  | SampleNegative
  | LimitNegative
  | SortKeyEmpty nat
  | SortOrderBad nat
  | SortTypeBad nat
  | FilterTypeEmpty
  | FilterFieldEmpty string
  | FilterOpBad
  | FilterSubjectBad
  | FilterTypeUnknown string
  | ProviderEmpty
  | ModeBad
  | WeightNotPositive nat
  | MatchEmpty nat
  | At string nat valid_error

section \<open>Targets and backends\<close>

definition validate_target :: "target \<Rightarrow> valid_error option" where
  "validate_target t = check_seq [
     fail_if (tgt_host t = []) HostEmpty,
     fail_if (tgt_port t \<le> 0 \<or> 65535 < tgt_port t) PortRange]"

definition validate_backend :: "backend \<Rightarrow> valid_error option" where
  "validate_backend b = check_seq [
     validate_target (backend_target b),
     fail_if (b_weight b < 0) WeightNegative]"

section \<open>Sort keys and filters\<close>

definition strategies :: "string list" where
  "strategies = [''round_robin'', ''random'', ''weighted'', ''least_loaded'', ''p2c'']"

definition keyed_strategy :: "string \<Rightarrow> bool" where
  "keyed_strategy s \<longleftrightarrow> s = ''least_loaded'' \<or> s = ''p2c''"

definition validate_sort_key :: "nat \<Rightarrow> sort_key \<Rightarrow> valid_error option" where
  "validate_sort_key i s =
     (let order0 = normalize_strategy (sk_order s);
          order = (if order0 = [] then ''asc'' else order0);
          hint = normalize_strategy (sk_type s)
      in check_seq [
        fail_if (trim_space (sk_key s) = []) (SortKeyEmpty i),
        fail_if (order \<notin> set [''asc'', ''desc'']) (SortOrderBad i),
        fail_if (hint \<notin> set [[], ''string'', ''number'']) (SortTypeBad i)])"

definition compare_ops :: "string list" where
  "compare_ops = [''lt'', ''lte'', ''gt'', ''gte'', ''eq'', ''neq'']"

definition validate_filter :: "filter_cfg \<Rightarrow> valid_error option" where
  "validate_filter f =
     (let t = normalize_strategy (f_type f) in
      if t = [] then Some FilterTypeEmpty
      else if t = ''compare'' then check_seq [
        fail_if (trim_space (f_left f) = []) (FilterFieldEmpty ''left''),
        fail_if (normalize_strategy (f_op f) \<notin> set compare_ops) FilterOpBad,
        fail_if (trim_space (f_right f) = []) (FilterFieldEmpty ''right'')]
      else if t = ''whitelist'' then check_seq [
        fail_if (trim_space (f_enabled_key f) = []) (FilterFieldEmpty ''enabled_key''),
        fail_if (trim_space (f_list_key f) = []) (FilterFieldEmpty ''list_key''),
        fail_if (normalize_strategy (f_subject f) \<notin> set [[], ''uuid'', ''username'']) FilterSubjectBad]
      else if t = ''game_start_not_past'' then
        fail_if (trim_space (f_key f) = []) (FilterFieldEmpty ''key'')
      else Some (FilterTypeUnknown (f_type f)))"

section \<open>Fallbacks\<close>

definition validate_fallback :: "fallback \<Rightarrow> valid_error option" where
  "validate_fallback fb = check_seq [
     (case fb_strategy fb of None \<Rightarrow> None
      | Some s \<Rightarrow> let strategy = normalize_strategy s in check_seq [
          fail_if (strategy \<notin> set strategies) (UnknownStrategy s),
          fail_if (keyed_strategy strategy \<and>
            (case fb_key fb of None \<Rightarrow> True | Some k \<Rightarrow> trim_space k = [])) (KeyEmptyFor s)]),
     (case fb_sample fb of None \<Rightarrow> None | Some n \<Rightarrow> fail_if (n < 0) SampleNegative),
     (case fb_limit fb of None \<Rightarrow> None | Some n \<Rightarrow> fail_if (n < 0) LimitNegative),
     check_each validate_sort_key (case fb_sort fb of None \<Rightarrow> [] | Some ss \<Rightarrow> ss),
     check_each (\<lambda>i f. map_option (At ''filters'' i) (validate_filter f))
       (case fb_filters fb of None \<Rightarrow> [] | Some fs \<Rightarrow> fs)]"

section \<open>Pools\<close>

definition validate_discovery_ref :: "disc_ref \<Rightarrow> valid_error option" where
  "validate_discovery_ref d =
     (let mode0 = normalize_strategy (dr_mode d);
          mode = (if mode0 = [] then ''union'' else mode0)
      in check_seq [
        fail_if (trim_space (dr_provider d) = []) ProviderEmpty,
        fail_if (mode \<notin> set [''union'', ''prefer'']) ModeBad])"

definition validate_pool :: "pool \<Rightarrow> valid_error option" where
  "validate_pool p =
     (let strategy = normalize_strategy (p_strategy p) in check_seq [
        fail_if (p_backends p = [] \<and> p_discovery p = None) BackendsEmpty,
        fail_if (strategy = []) StrategyEmpty,
        fail_if (strategy \<notin> set strategies) (UnknownStrategy (p_strategy p)),
        fail_if (keyed_strategy strategy \<and> trim_space (p_key p) = []) (KeyEmptyFor (p_strategy p)),
        fail_if (strategy = ''p2c'' \<and> p_sample p < 0) SampleNegative,
        fail_if (p_limit p < 0) LimitNegative,
        check_each validate_sort_key (p_sort p),
        check_each (\<lambda>i f. map_option (At ''filters'' i) (validate_filter f)) (p_filters p),
        check_each (\<lambda>i fb. map_option (At ''fallback'' i) (validate_fallback fb)) (p_fallback p),
        (case p_discovery p of None \<Rightarrow> None | Some d \<Rightarrow> validate_discovery_ref d),
        check_each (\<lambda>i b. check_seq [
            map_option (At ''backends'' i) (validate_backend b),
            fail_if (strategy = ''weighted'' \<and> b_weight b \<le> 0) (WeightNotPositive i)])
          (p_backends p)])"

section \<open>The whole routing configuration\<close>

definition validate_routing :: "routing_config \<Rightarrow> valid_error option" where
  "validate_routing c = check_seq [
     (case rc_default c of None \<Rightarrow> None | Some p \<Rightarrow> map_option (At ''routing.default'' 0) (validate_pool p)),
     check_each (\<lambda>i r. check_seq [
         map_option (At ''routing.routes'' i) (validate_pool (r_pool r)),
         fail_if (m_hostnames (r_match r) = [] \<and> m_hostname (r_match r) = []) (MatchEmpty i)])
       (rc_routes c)]"

section \<open>What validation guarantees\<close>

lemma map_option_None [simp]: "map_option f x = None \<longleftrightarrow> x = None"
  by (cases x) auto

lemma check_seq_Nil_None [simp]: "check_seq [] = None"
  by simp

lemma fail_if_None [simp]: "fail_if b e = None \<longleftrightarrow> \<not> b"
  by simp

lemma validate_backend_ok:
  "validate_backend b = None \<longleftrightarrow> b_host b \<noteq> [] \<and> 0 < b_port b \<and> b_port b \<le> 65535 \<and> 0 \<le> b_weight b"
  by (auto simp: validate_backend_def validate_target_def backend_target_def)

lemma validate_routing_pools:
  assumes "validate_routing c = None"
  shows "rc_default c = Some p \<Longrightarrow> validate_pool p = None"
    and "r \<in> set (rc_routes c) \<Longrightarrow> validate_pool (r_pool r) = None
      \<and> (m_hostnames (r_match r) \<noteq> [] \<or> m_hostname (r_match r) \<noteq> [])"
  using assms by (auto simp: validate_routing_def check_each_None in_set_conv_nth)

lemma validate_pool_strategy:
  assumes "validate_pool p = None"
  shows "normalize_strategy (p_strategy p) \<in> set strategies"
    and "keyed_strategy (normalize_strategy (p_strategy p)) \<Longrightarrow> trim_space (p_key p) \<noteq> []"
    and "0 \<le> p_limit p"
    and "p_backends p \<noteq> [] \<or> p_discovery p \<noteq> None"
  using assms by (auto simp: validate_pool_def Let_def)

lemma validate_pool_fallback:
  assumes "validate_pool p = None" "fb \<in> set (p_fallback p)"
  shows "validate_fallback fb = None"
  using assms by (auto simp: validate_pool_def Let_def check_each_None in_set_conv_nth)

lemma validate_pool_backend:
  assumes "validate_pool p = None" "b \<in> set (p_backends p)"
  shows "validate_backend b = None"
    and "normalize_strategy (p_strategy p) = ''weighted'' \<Longrightarrow> 0 < b_weight b"
  using assms by (auto simp: validate_pool_def Let_def check_each_None in_set_conv_nth)

lemma validate_pool_mode:
  assumes "validate_pool p = None" "p_discovery p = Some d"
  shows "normalize_strategy (dr_mode d) \<in> {[], ''union'', ''prefer''}" and "trim_space (dr_provider d) \<noteq> []"
  using assms by (auto simp: validate_pool_def validate_discovery_ref_def Let_def split: if_splits)

lemma validate_fallback_strategy:
  assumes "validate_fallback fb = None" "fb_strategy fb = Some s"
  shows "normalize_strategy s \<in> set strategies"
    and "keyed_strategy (normalize_strategy s) \<Longrightarrow> \<exists>k. fb_key fb = Some k \<and> trim_space k \<noteq> []"
  using assms by (auto simp: validate_fallback_def Let_def split: option.splits)

end
