(* ===== verification/RoutingEngine.thy ===== *)
theory RoutingEngine
  imports RoutingDiscovery RoutingFilters RoutingSort RoutingMatch RoutingValidate
begin

text \<open>
  \<^verbatim>\<open>internal/routing/engine.go\<close>: the routing decision. Operations take the engine state and return
  the new one. The rejection loop of \<open>p2c\<close> ends only with luck of the draw, so the outcome of a
  selection is an option: \<open>None\<close> means that the loop never ends.
\<close>

type_synonym 'a outcome = "((routing_error + 'a) \<times> engine) option"

section \<open>Selection settings\<close>

record selection_config =
  sc_strategy :: string
  sc_key :: string
  sc_sample :: int
  sc_sort :: "sort_key list"
  sc_limit :: int
  sc_filters :: "filter_cfg list"

definition selection_config_from_pool :: "pool \<Rightarrow> selection_config" where
  "selection_config_from_pool p =
     \<lparr>sc_strategy = normalize_strategy (p_strategy p), sc_key = trim_space (p_key p),
      sc_sample = p_sample p, sc_sort = p_sort p, sc_limit = p_limit p, sc_filters = p_filters p\<rparr>"

definition or_keep :: "'a option \<Rightarrow> 'a \<Rightarrow> 'a" where
  "or_keep x d = (case x of None \<Rightarrow> d | Some v \<Rightarrow> v)"

definition merge_fallback :: "selection_config \<Rightarrow> fallback \<Rightarrow> selection_config" where
  "merge_fallback c fb =
     \<lparr>sc_strategy = or_keep (map_option normalize_strategy (fb_strategy fb)) (sc_strategy c),
      sc_key = or_keep (map_option trim_space (fb_key fb)) (sc_key c),
      sc_sample = or_keep (fb_sample fb) (sc_sample c),
      sc_sort = or_keep (fb_sort fb) (sc_sort c),
      sc_limit = or_keep (fb_limit fb) (sc_limit c),
      sc_filters = or_keep (fb_filters fb) (sc_filters c)\<rparr>"

section \<open>The counters\<close>

text \<open>The counter a selection uses: that of its route, or that of the default pool.\<close>

datatype counter = RouteCounter nat | DefaultCounter

fun read_counter :: "counter \<Rightarrow> engine \<Rightarrow> u64" where
  "read_counter (RouteCounter i) e = e_rr e ! i"
| "read_counter DefaultCounter e = e_rr_default e"

fun bump_counter :: "counter \<Rightarrow> engine \<Rightarrow> engine" where
  "bump_counter (RouteCounter i) e = e\<lparr>e_rr := (e_rr e)[i := e_rr e ! i + 1]\<rparr>"
| "bump_counter DefaultCounter e = e\<lparr>e_rr_default := e_rr_default e + 1\<rparr>"

section \<open>The strategies\<close>

text \<open>\<open>rr.Add(1) - 1\<close>, reduced modulo the number of candidates.\<close>

definition select_round_robin :: "backend list \<Rightarrow> counter \<Rightarrow> engine \<Rightarrow> int outcome" where
  "select_round_robin bs rr e =
     (let e' = bump_counter rr e; v = read_counter rr e' - 1 in
      Some (Inr (int (unat v mod length bs)), e'))"

definition select_random :: "backend list \<Rightarrow> engine \<Rightarrow> int outcome" where
  "select_random bs e = (case intn (length bs) e of (i, e') \<Rightarrow> Some (Inr (int i), e'))"

definition eff_weight :: "backend \<Rightarrow> int" where
  "eff_weight b = (if b_weight b \<le> 0 then 1 else b_weight b)"

definition total_weight :: "backend list \<Rightarrow> int" where
  "total_weight bs = foldl (\<lambda>t b. wrap64 (t + eff_weight b)) 0 bs"

fun weighted_scan :: "int \<Rightarrow> int \<Rightarrow> int \<Rightarrow> backend list \<Rightarrow> int option" where
  "weighted_scan r acc i [] = None"
| "weighted_scan r acc i (b # bs) =
     (let acc' = wrap64 (acc + eff_weight b) in
      if r < acc' then Some i else weighted_scan r acc' (i + 1) bs)"

definition weighted_index :: "int \<Rightarrow> backend list \<Rightarrow> int" where
  "weighted_index r bs =
     (case weighted_scan r 0 0 bs of Some i \<Rightarrow> i | None \<Rightarrow> int (length bs) - 1)"

definition select_weighted :: "backend list \<Rightarrow> engine \<Rightarrow> int outcome" where
  "select_weighted bs e =
     (let total = total_weight bs in
      if total \<le> 0 then Some (Inl ErrInvalidWeightedPool, e)
      else (case intn (nat total) e of (r, e') \<Rightarrow> Some (Inr (weighted_index (int r) bs), e')))"

text \<open>The scan for the least value of the key, from index \<open>i\<close> with the best so far.\<close>

fun least_scan :: "string \<Rightarrow> int \<Rightarrow> f64 \<Rightarrow> int \<Rightarrow> backend list \<Rightarrow> int" where
  "least_scan key i best best_idx [] = best_idx"
| "least_scan key i best best_idx (b # bs) =
     (case key_number b key of
        None \<Rightarrow> least_scan key (i + 1) best best_idx bs
      | Some n \<Rightarrow> if f64_lt n best then least_scan key (i + 1) n i bs
          else least_scan key (i + 1) best best_idx bs)"

definition select_least_loaded :: "string \<Rightarrow> backend list \<Rightarrow> engine \<Rightarrow> int outcome" where
  "select_least_loaded key0 bs e =
     (let key = trim_space key0 in
      if key = [] then Some (Inl (ErrEmptyKey ''least_loaded''), e)
      else let best = least_scan key 0 PosInf (- 1) bs in
        Some (Inr (if 0 \<le> best then best else 0), e))"

text \<open>
  The loop of \<open>p2c\<close>: it draws until \<open>sample\<close> different candidates are chosen, and keeps the one with
  the least value of the key.
\<close>

definition load_of :: "string \<Rightarrow> backend \<Rightarrow> f64" where
  "load_of key b = (case key_number b key of None \<Rightarrow> PosInf | Some n \<Rightarrow> n)"

partial_function (option) p2c_loop ::
  "string \<Rightarrow> backend list \<Rightarrow> nat \<Rightarrow> nat list \<Rightarrow> f64 \<Rightarrow> int \<Rightarrow> engine \<Rightarrow> (nat list \<times> int \<times> engine) option"
where
  "p2c_loop key bs sample chosen best best_idx e =
     (if length chosen < sample then
        (if fst (intn (length bs) e) \<in> set chosen
         then p2c_loop key bs sample chosen best best_idx (snd (intn (length bs) e))
         else (if f64_lt (load_of key (bs ! fst (intn (length bs) e))) best
               then p2c_loop key bs sample (fst (intn (length bs) e) # chosen)
                      (load_of key (bs ! fst (intn (length bs) e))) (int (fst (intn (length bs) e)))
                      (snd (intn (length bs) e))
               else p2c_loop key bs sample (fst (intn (length bs) e) # chosen) best best_idx
                      (snd (intn (length bs) e))))
      else Some (chosen, best_idx, e))"

declare p2c_loop.simps [code]

definition sample_size :: "int \<Rightarrow> backend list \<Rightarrow> int" where
  "sample_size n bs = min (if n \<le> 0 then 2 else n) (int (length bs))"

definition select_p2c :: "string \<Rightarrow> int \<Rightarrow> backend list \<Rightarrow> engine \<Rightarrow> int outcome" where
  "select_p2c key0 n bs e =
     (let key = trim_space key0 in
      if key = [] then Some (Inl (ErrEmptyKey ''p2c''), e)
      else let sample = sample_size n bs in
        if sample \<le> 0 then Some (Inl ErrNoBackends, e)
        else (case p2c_loop key bs (nat sample) [] PosInf (- 1) e of
            None \<Rightarrow> None
          | Some (chosen, best_idx, e') \<Rightarrow> Some (Inr (if 0 \<le> best_idx then best_idx else 0), e')))"

text \<open>\<open>selectIndex\<close>.\<close>

definition select_index :: "selection_config \<Rightarrow> backend list \<Rightarrow> counter \<Rightarrow> engine \<Rightarrow> int outcome" where
  "select_index c bs rr e =
     (if bs = [] then Some (Inl ErrNoBackends, e)
      else if sc_strategy c = ''round_robin'' then select_round_robin bs rr e
      else if sc_strategy c = ''random'' then select_random bs e
      else if sc_strategy c = ''weighted'' then select_weighted bs e
      else if sc_strategy c = ''least_loaded'' then select_least_loaded (sc_key c) bs e
      else if sc_strategy c = ''p2c'' then select_p2c (sc_key c) (sc_sample c) bs e
      else Some (Inl (ErrUnknownStrategy (sc_strategy c)), e))"

section \<open>Filter, sort, limit, select\<close>

definition limit_candidates :: "int \<Rightarrow> backend list \<Rightarrow> backend list" where
  "limit_candidates n bs = (if 0 < n \<and> n < int (length bs) then take (nat n) bs else bs)"

definition select_with_config ::
  "int \<Rightarrow> request \<Rightarrow> selection_config \<Rightarrow> backend list \<Rightarrow> counter \<Rightarrow> engine \<Rightarrow> (backend list \<times> int) outcome"
where
  "select_with_config now req c bs rr e =
     (let filtered = apply_filters now req bs (sc_filters c) in
      if filtered = [] then Some (Inl ErrNoBackends, e)
      else let limited = limit_candidates (sc_limit c) (apply_sort filtered (sc_sort c)) in
        (case select_index c limited rr e of
           None \<Rightarrow> None
         | Some (Inl err, e') \<Rightarrow> Some (Inl err, e')
         | Some (Inr idx, e') \<Rightarrow> Some (Inr (limited, idx), e')))"

text \<open>
  \<open>selectCandidates\<close>: the settings of the pool, then those of its fallbacks in order, as long as the
  error is \<open>ErrNoBackends\<close>.
\<close>

fun try_configs ::
  "int \<Rightarrow> request \<Rightarrow> selection_config list \<Rightarrow> backend list \<Rightarrow> counter \<Rightarrow> engine \<Rightarrow> (backend list \<times> int) outcome"
where
  "try_configs now req [] bs rr e = Some (Inl ErrNoBackends, e)"
| "try_configs now req (c # cs) bs rr e =
     (case select_with_config now req c bs rr e of
        None \<Rightarrow> None
      | Some (Inr r, e') \<Rightarrow> Some (Inr r, e')
      | Some (Inl err, e') \<Rightarrow>
          if err = ErrNoBackends then try_configs now req cs bs rr e' else Some (Inl err, e'))"

definition pool_configs :: "pool \<Rightarrow> selection_config list" where
  "pool_configs p =
     (let base = selection_config_from_pool p in base # map (merge_fallback base) (p_fallback p))"

definition select_candidates ::
  "int \<Rightarrow> request \<Rightarrow> pool \<Rightarrow> backend list \<Rightarrow> counter \<Rightarrow> engine \<Rightarrow> (backend list \<times> int) outcome"
where
  "select_candidates now req p bs rr e =
     (if bs = [] then Some (Inl ErrNoBackends, e)
      else try_configs now req (pool_configs p) bs rr e)"

section \<open>The decision\<close>

definition backend_at :: "backend list \<Rightarrow> int \<Rightarrow> backend" where
  "backend_at bs i = (if 0 \<le> i \<and> i < int (length bs) then bs ! nat i else empty_backend)"

text \<open>What \<open>Decide\<close> does once it has found the pool: resolve, select, report.\<close>

definition decide_pool ::
  "discovery_fn option \<Rightarrow> int \<Rightarrow> request \<Rightarrow> pool \<Rightarrow> counter \<Rightarrow> bool \<Rightarrow> int \<Rightarrow> engine \<Rightarrow> decision outcome"
where
  "decide_pool disc now req p rr matched idx e =
     (case resolve_candidates disc p of
        Inl err \<Rightarrow> Some (Inl err, e)
      | Inr cands0 \<Rightarrow>
        (case select_candidates now req p cands0 rr e of
           None \<Rightarrow> None
         | Some (Inl err, e') \<Rightarrow> Some (Inl err, e')
         | Some (Inr (cands, i), e') \<Rightarrow>
             Some (Inr \<lparr>d_matched = matched, d_route_index = idx,
                        d_strategy = normalize_strategy (p_strategy p), d_candidates = cands,
                        d_selected_index = i, d_backend = backend_at cands i\<rparr>, e')))"

definition route_matches :: "string \<Rightarrow> route \<Rightarrow> bool" where
  "route_matches sni r = list_ex (\<lambda>p. hostname_matches p sni) (match_patterns (r_match r))"

text \<open>The index of the first route with a matching pattern.\<close>

fun first_route :: "nat \<Rightarrow> string \<Rightarrow> route list \<Rightarrow> (nat \<times> route) option" where
  "first_route i sni [] = None"
| "first_route i sni (r # rs) =
     (if route_matches sni r then Some (i, r) else first_route (Suc i) sni rs)"

definition decide :: "discovery_fn option \<Rightarrow> int \<Rightarrow> request \<Rightarrow> engine \<Rightarrow> decision outcome" where
  "decide disc now req e =
     (let sni = canonical_host (req_sni req) in
      case first_route 0 sni (rc_routes (e_cfg e)) of
        Some (i, r) \<Rightarrow> decide_pool disc now req (r_pool r) (RouteCounter i) True (int i) e
      | None \<Rightarrow>
        (case rc_default (e_cfg e) of
           Some p \<Rightarrow> decide_pool disc now req p DefaultCounter False (- 1) e
         | None \<Rightarrow> Some (Inr no_decision, e)))"

end
