(* ===== verification/RoutingSelect.thy ===== *)
theory RoutingSelect
  imports RoutingEngine
begin

text \<open>
  Correctness of the load-balancing strategies of \<^verbatim>\<open>internal/routing/engine.go\<close>: the contract all of
  them share (an index in range, the rest of the state untouched), and what each one chooses.
\<close>

section \<open>The contract of a choice\<close>

text \<open>What a choice may change: counters keep their number, the configuration and the draws stay.\<close>

definition same_engine :: "engine \<Rightarrow> engine \<Rightarrow> bool" where
  "same_engine e e' \<longleftrightarrow> e_cfg e' = e_cfg e \<and> e_rng e' = e_rng e \<and> length (e_rr e') = length (e_rr e)"

lemma same_engine_refl [simp]: "same_engine e e"
  by (simp add: same_engine_def)

lemma same_engine_trans: "same_engine e e' \<Longrightarrow> same_engine e' e'' \<Longrightarrow> same_engine e e''"
  by (simp add: same_engine_def)

lemma same_engine_intn [simp]: "same_engine e (snd (intn n e))"
  by (simp add: same_engine_def intn_def)

lemma same_engine_bump [simp]: "same_engine e (bump_counter c e)"
  by (cases c) (simp_all add: same_engine_def)

text \<open>A choice that only draws random numbers.\<close>

definition only_draws :: "engine \<Rightarrow> engine \<Rightarrow> bool" where
  "only_draws e e' \<longleftrightarrow> (\<exists>n. e' = e\<lparr>e_draws := n\<rparr>)"

lemma only_draws_refl [simp]: "only_draws e e"
  unfolding only_draws_def by (intro exI [of _ "e_draws e"]) simp

lemma only_draws_trans: "only_draws e e' \<Longrightarrow> only_draws e' e'' \<Longrightarrow> only_draws e e''"
  by (auto simp: only_draws_def)

lemma only_draws_intn [simp]: "only_draws e (snd (intn n e))"
  by (auto simp: only_draws_def intn_def)

lemma only_draws_same: "only_draws e e' \<Longrightarrow> same_engine e e'"
  by (auto simp: only_draws_def same_engine_def)

lemma only_draws_counter: "only_draws e e' \<Longrightarrow> read_counter c e' = read_counter c e"
  by (cases c) (auto simp: only_draws_def)

locale index_choice =
  fixes pick :: "backend list \<Rightarrow> engine \<Rightarrow> int outcome"
  assumes in_range: "bs \<noteq> [] \<Longrightarrow> pick bs e = Some (Inr i, e') \<Longrightarrow> 0 \<le> i \<and> i < int (length bs)"
    and frame: "bs \<noteq> [] \<Longrightarrow> pick bs e = Some (r, e') \<Longrightarrow> same_engine e e'"
begin

lemma chosen_member:
  assumes "bs \<noteq> []" "pick bs e = Some (Inr i, e')"
  shows "backend_at bs i \<in> set bs" and "backend_at bs i = bs ! nat i"
  using in_range [OF assms] by (auto simp: backend_at_def nat_less_iff)

end

section \<open>Round robin\<close>

lemma read_bump: "c = RouteCounter i \<Longrightarrow> i < length (e_rr e) \<Longrightarrow> read_counter c (bump_counter c e) = read_counter c e + 1"
  by simp

definition counter_ok :: "counter \<Rightarrow> engine \<Rightarrow> bool" where
  "counter_ok c e = (case c of RouteCounter i \<Rightarrow> i < length (e_rr e) | DefaultCounter \<Rightarrow> True)"

lemma read_bump_same: "counter_ok c e \<Longrightarrow> read_counter c (bump_counter c e) = read_counter c e + 1"
  by (cases c) (simp_all add: counter_ok_def)

lemma read_bump_other: "c \<noteq> d \<Longrightarrow> read_counter d (bump_counter c e) = read_counter d e"
  by (cases c; cases d) simp_all

lemma counter_ok_bump [simp]: "counter_ok c (bump_counter d e) = counter_ok c e"
  by (cases c; cases d) (simp_all add: counter_ok_def)

lemma round_robin_index:
  assumes "counter_ok c e"
  shows "select_round_robin bs c e =
    Some (Inr (int (unat (read_counter c e) mod length bs)), bump_counter c e)"
  using read_bump_same [OF assms] by (simp add: select_round_robin_def Let_def)

interpretation round_robin: index_choice "\<lambda>bs. select_round_robin bs c" for c
  by unfold_locales (auto simp: select_round_robin_def Let_def zmod_int)

section \<open>Random\<close>

interpretation random: index_choice select_random
  by unfold_locales (auto simp: select_random_def intn_def same_engine_def)

section \<open>Weighted\<close>

abbreviation weight_sum :: "backend list \<Rightarrow> int" where
  "weight_sum bs \<equiv> sum_list (map eff_weight bs)"

lemma eff_weight_pos [simp]: "0 < eff_weight b"
  by (simp add: eff_weight_def)

lemma eff_weight_nonneg [simp]: "0 \<le> eff_weight b"
  by (simp add: eff_weight_def)

lemma weight_sum_nonneg: "0 \<le> weight_sum bs"
  by (induction bs) simp_all

lemma weight_sum_pos: "bs \<noteq> [] \<Longrightarrow> 0 < weight_sum bs"
  by (cases bs) (simp_all add: add_pos_nonneg weight_sum_nonneg)

lemma weight_sum_take_mono: "i \<le> j \<Longrightarrow> weight_sum (take i bs) \<le> weight_sum (take j bs)"
proof -
  assume "i \<le> j"
  then have "take j bs = take i bs @ take (j - i) (drop i bs)"
    by (metis le_add_diff_inverse take_add)
  then show ?thesis using weight_sum_nonneg [of "take (j - i) (drop i bs)"] by simp
qed

lemma weight_sum_take_le: "weight_sum (take i bs) \<le> weight_sum bs"
  using weight_sum_take_mono [of i "max i (length bs)" bs] by simp

text \<open>No overflow: the sum of the weights is an \<open>int\<close>.\<close>

definition weights_fit :: "backend list \<Rightarrow> bool" where
  "weights_fit bs \<longleftrightarrow> weight_sum bs < 2 ^ 63"

lemma wrap64_small: "0 \<le> x \<Longrightarrow> x < 2 ^ 63 \<Longrightarrow> wrap64 x = x"
  by (rule wrap64_id) (simp add: int64_range_def)

lemma foldl_weight_sum:
  "0 \<le> acc \<Longrightarrow> acc + weight_sum bs < 2 ^ 63 \<Longrightarrow>
   foldl (\<lambda>t b. wrap64 (t + eff_weight b)) acc bs = acc + weight_sum bs"
proof (induction bs arbitrary: acc)
  case (Cons b bs)
  have "0 \<le> acc + eff_weight b" using Cons.prems by simp
  moreover from Cons.prems have "acc + eff_weight b < 2 ^ 63"
    using weight_sum_nonneg [of bs] by simp
  ultimately have "wrap64 (acc + eff_weight b) = acc + eff_weight b" by (rule wrap64_small)
  with Cons \<open>0 \<le> acc + eff_weight b\<close> show ?case by (simp add: add.assoc)
qed simp

lemma total_weight_sum: "weights_fit bs \<Longrightarrow> total_weight bs = weight_sum bs"
  using foldl_weight_sum [of 0 bs] by (simp add: total_weight_def weights_fit_def)

lemma weighted_scan_finds:
  "0 \<le> acc \<Longrightarrow> acc \<le> r \<Longrightarrow> r < acc + weight_sum bs \<Longrightarrow> acc + weight_sum bs < 2 ^ 63 \<Longrightarrow>
   \<exists>j < length bs. weighted_scan r acc k bs = Some (k + int j) \<and>
     acc + weight_sum (take j bs) \<le> r \<and> r < acc + weight_sum (take (Suc j) bs)"
proof (induction bs arbitrary: acc k)
  case (Cons b bs)
  let ?a = "acc + eff_weight b"
  have a: "0 \<le> ?a" "?a < 2 ^ 63"
    using Cons.prems weight_sum_nonneg [of bs] eff_weight_pos [of b] by simp_all
  then have w: "wrap64 ?a = ?a" by (rule wrap64_small)
  show ?case
  proof (cases "r < ?a")
    case True
    with Cons.prems w show ?thesis by (intro exI [of _ 0]) simp
  next
    case False
    with Cons.prems a have "\<exists>j < length bs. weighted_scan r ?a (k + 1) bs = Some (k + 1 + int j) \<and>
        ?a + weight_sum (take j bs) \<le> r \<and> r < ?a + weight_sum (take (Suc j) bs)"
      by (intro Cons.IH) simp_all
    then obtain j where "j < length bs" "weighted_scan r ?a (k + 1) bs = Some (k + 1 + int j)"
      "?a + weight_sum (take j bs) \<le> r" "r < ?a + weight_sum (take (Suc j) bs)" by blast
    with False w show ?thesis by (intro exI [of _ "Suc j"]) (simp add: add.assoc)
  qed
qed simp

text \<open>Draw \<open>r\<close> selects candidate \<open>i\<close> exactly when \<open>r\<close> lies in the interval of its weight.\<close>

lemma weighted_index_iff:
  assumes fit: "weights_fit bs" and r: "0 \<le> r" "r < weight_sum bs" and i: "i < length bs"
  shows "weighted_index r bs = int i \<longleftrightarrow> weight_sum (take i bs) \<le> r \<and> r < weight_sum (take (Suc i) bs)"
proof -
  obtain j where j: "j < length bs" "weighted_index r bs = int j"
    "weight_sum (take j bs) \<le> r" "r < weight_sum (take (Suc j) bs)"
    using weighted_scan_finds [of 0 r bs 0] fit r by (auto simp: weighted_index_def weights_fit_def)
  show ?thesis
  proof
    assume "weighted_index r bs = int i"
    with j show "weight_sum (take i bs) \<le> r \<and> r < weight_sum (take (Suc i) bs)" by simp
  next
    assume ri: "weight_sum (take i bs) \<le> r \<and> r < weight_sum (take (Suc i) bs)"
    have "\<not> Suc i \<le> j" using ri j(3) weight_sum_take_mono [of "Suc i" j bs] by linarith
    moreover have "\<not> Suc j \<le> i" using ri j(4) weight_sum_take_mono [of "Suc j" i bs] by linarith
    ultimately show "weighted_index r bs = int i" using j(2) by simp
  qed
qed

lemma weighted_draws:
  assumes fit: "weights_fit bs" and i: "i < length bs"
  shows "card {r \<in> {0 ..< total_weight bs}. weighted_index r bs = int i} = nat (eff_weight (bs ! i))"
proof -
  have split: "weight_sum (take (Suc i) bs) = weight_sum (take i bs) + eff_weight (bs ! i)"
    using i by (simp add: take_Suc_conv_app_nth)
  have "{r \<in> {0 ..< total_weight bs}. weighted_index r bs = int i}
      = {weight_sum (take i bs) ..< weight_sum (take (Suc i) bs)}"
  proof (rule set_eqI)
    fix r
    show "r \<in> {r \<in> {0 ..< total_weight bs}. weighted_index r bs = int i}
      \<longleftrightarrow> r \<in> {weight_sum (take i bs) ..< weight_sum (take (Suc i) bs)}"
      using weighted_index_iff [OF fit _ _ i, of r] weight_sum_nonneg [of "take i bs"]
        weight_sum_take_le [of "Suc i" bs]
      by (simp only: total_weight_sum [OF fit] mem_Collect_eq atLeastLessThan_iff) linarith
  qed
  then show ?thesis by (simp add: split)
qed

lemma weighted_scan_range: "weighted_scan r acc k bs = Some i \<Longrightarrow> k \<le> i \<and> i < k + int (length bs)"
  by (induction bs arbitrary: acc k) (fastforce simp: Let_def split: if_splits)+

lemma weighted_index_range: "bs \<noteq> [] \<Longrightarrow> 0 \<le> weighted_index r bs \<and> weighted_index r bs < int (length bs)"
  using weighted_scan_range [of r 0 0 bs]
  by (cases bs) (auto simp: weighted_index_def split: option.splits)

interpretation weighted: index_choice select_weighted
  by unfold_locales (auto simp: select_weighted_def Let_def intn_def same_engine_def
      weighted_index_range split: if_splits)

section \<open>Least loaded\<close>

lemma f64_lt_asym: "f64_lt x y \<Longrightarrow> \<not> f64_lt y x"
  using f64_lt_trans f64_lt_irrefl by blast

abbreviation loads :: "string \<Rightarrow> backend list \<Rightarrow> nat \<Rightarrow> f64" where
  "loads key bs i \<equiv> load_of key (bs ! i)"

lemma least_scan_step:
  "least_scan key i best bi (b # bs) =
     (if f64_lt (load_of key b) best then least_scan key (i + 1) (load_of key b) i bs
      else least_scan key (i + 1) best bi bs)"
  by (cases best) (simp_all add: load_of_def split: option.splits)

declare least_scan.simps(2) [simp del]

lemma least_scan_spec:
  "(least_scan key i best bi bs = bi \<and> (\<forall>b \<in> set bs. \<not> f64_lt (load_of key b) best)) \<or>
   (\<exists>j < length bs. least_scan key i best bi bs = i + int j \<and> f64_lt (loads key bs j) best \<and>
      (\<forall>k < length bs. \<not> f64_lt (loads key bs k) (loads key bs j)) \<and>
      (\<forall>k < j. loads key bs k \<noteq> NaN \<longrightarrow> f64_lt (loads key bs j) (loads key bs k)))"
proof (induction bs arbitrary: i best bi)
  case (Cons b bs)
  let ?l = "load_of key b"
  show ?case
  proof (cases "f64_lt ?l best")
    case True
    from Cons.IH [of "i + 1" ?l i] show ?thesis
    proof (elim disjE exE conjE)
      assume "least_scan key (i + 1) ?l i bs = i" "\<forall>b \<in> set bs. \<not> f64_lt (load_of key b) ?l"
      with True show ?thesis
        by (intro disjI2 exI [of _ 0]) (simp add: least_scan_step All_less_Suc2)
    next
      fix j assume "j < length bs" "least_scan key (i + 1) ?l i bs = i + 1 + int j"
        "f64_lt (loads key bs j) ?l" "\<forall>k < length bs. \<not> f64_lt (loads key bs k) (loads key bs j)"
        "\<forall>k < j. loads key bs k \<noteq> NaN \<longrightarrow> f64_lt (loads key bs j) (loads key bs k)"
      with True show ?thesis
        by (intro disjI2 exI [of _ "Suc j"])
          (simp add: least_scan_step All_less_Suc2 f64_lt_asym, rule f64_lt_trans)
    qed
  next
    case False
    from Cons.IH [of "i + 1" best bi] show ?thesis
    proof (elim disjE exE conjE)
      assume "least_scan key (i + 1) best bi bs = bi" "\<forall>b \<in> set bs. \<not> f64_lt (load_of key b) best"
      with False show ?thesis by (intro disjI1) (simp add: least_scan_step)
    next
      fix j assume j: "j < length bs" "least_scan key (i + 1) best bi bs = i + 1 + int j"
        "f64_lt (loads key bs j) best" "\<forall>k < length bs. \<not> f64_lt (loads key bs k) (loads key bs j)"
        "\<forall>k < j. loads key bs k \<noteq> NaN \<longrightarrow> f64_lt (loads key bs j) (loads key bs k)"
      moreover have "\<not> f64_lt ?l (loads key bs j)" using False j(3) f64_lt_trans by blast
      moreover have "?l \<noteq> NaN \<longrightarrow> f64_lt (loads key bs j) ?l"
        using False j(3) f64_not_lt_trans by blast
      ultimately show ?thesis using False
        by (intro disjI2 exI [of _ "Suc j"]) (simp add: least_scan_step All_less_Suc2)
    qed
  qed
qed simp

text \<open>Candidate \<open>i\<close> has the least load of the candidates in \<open>S\<close>.\<close>

definition least_among :: "string \<Rightarrow> backend list \<Rightarrow> nat set \<Rightarrow> nat \<Rightarrow> bool" where
  "least_among key bs S i \<longleftrightarrow> (\<forall>k \<in> S. \<not> f64_lt (loads key bs k) (loads key bs i))"

lemma not_lt_PosInf: "\<not> f64_lt x PosInf \<Longrightarrow> \<not> f64_lt x y"
  by (cases x; cases y) simp_all

lemma select_least_loaded_spec:
  assumes "bs \<noteq> []" "select_least_loaded key bs e = Some (Inr i, e')"
  shows "\<exists>j < length bs. i = int j \<and> e' = e \<and> least_among (trim_space key) bs {..<length bs} j \<and>
    (\<forall>k < j. loads (trim_space key) bs k \<noteq> NaN \<longrightarrow>
       f64_lt (loads (trim_space key) bs j) (loads (trim_space key) bs k))"
proof -
  let ?k = "trim_space key"
  let ?r = "least_scan ?k 0 PosInf (- 1) bs"
  have i: "i = (if 0 \<le> ?r then ?r else 0)" "e' = e"
    using assms(2) by (auto simp: select_least_loaded_def Let_def split: if_splits)
  from least_scan_spec [of ?k 0 PosInf "- 1" bs] show ?thesis
  proof (elim disjE exE conjE)
    assume "?r = - 1" "\<forall>b \<in> set bs. \<not> f64_lt (load_of ?k b) PosInf"
    with i assms(1) show ?thesis
      by (intro exI [of _ 0]) (simp add: least_among_def not_lt_PosInf)
  next
    fix j assume "j < length bs" "?r = 0 + int j"
      "\<forall>k < length bs. \<not> f64_lt (loads ?k bs k) (loads ?k bs j)"
      "\<forall>k < j. loads ?k bs k \<noteq> NaN \<longrightarrow> f64_lt (loads ?k bs j) (loads ?k bs k)"
    with i show ?thesis by (intro exI [of _ j]) (simp add: least_among_def)
  qed
qed

interpretation least_loaded: index_choice "select_least_loaded key" for key
proof
  fix bs e i e' assume "bs \<noteq> []" "select_least_loaded key bs e = Some (Inr i, e')"
  from select_least_loaded_spec [OF this] show "0 \<le> i \<and> i < int (length bs)" by auto
qed (auto simp: select_least_loaded_def Let_def split: if_splits)


section \<open>Power of \<open>k\<close> choices\<close>

text \<open>What the loop keeps true of the sample and of the best candidate of it.\<close>

definition p2c_inv :: "string \<Rightarrow> backend list \<Rightarrow> nat list \<Rightarrow> f64 \<Rightarrow> int \<Rightarrow> bool" where
  "p2c_inv key bs chosen best bi \<longleftrightarrow>
     distinct chosen \<and> set chosen \<subseteq> {..<length bs} \<and>
     (if bi = - 1 then best = PosInf \<and> (\<forall>c \<in> set chosen. \<not> f64_lt (loads key bs c) PosInf)
      else \<exists>c \<in> set chosen. bi = int c \<and> best = loads key bs c \<and> f64_lt best PosInf \<and>
             least_among key bs (set chosen) c)"

lemma p2c_inv_start: "p2c_inv key bs [] PosInf (- 1)"
  by (simp add: p2c_inv_def)

lemma p2c_inv_better:
  assumes "p2c_inv key bs chosen best bi" "idx < length bs" "idx \<notin> set chosen"
    and lt: "f64_lt (loads key bs idx) best"
  shows "p2c_inv key bs (idx # chosen) (loads key bs idx) (int idx)"
proof -
  have inf: "f64_lt (loads key bs idx) PosInf"
    using lt by (cases "loads key bs idx"; cases best) simp_all
  have "\<not> f64_lt (loads key bs c) (loads key bs idx)" if c: "c \<in> set chosen" for c
  proof (cases "bi = - 1")
    case True
    with assms(1) c show ?thesis by (simp add: p2c_inv_def not_lt_PosInf)
  next
    case False
    with assms(1) c have "\<not> f64_lt (loads key bs c) best" by (auto simp: p2c_inv_def least_among_def)
    with lt show ?thesis using f64_lt_trans by blast
  qed
  with assms inf show ?thesis by (simp add: p2c_inv_def least_among_def)
qed

lemma p2c_inv_worse:
  assumes "p2c_inv key bs chosen best bi" "idx < length bs" "idx \<notin> set chosen"
    and "\<not> f64_lt (loads key bs idx) best"
  shows "p2c_inv key bs (idx # chosen) best bi"
  using assms by (auto simp: p2c_inv_def least_among_def split: if_splits)

lemma p2c_loop_inv:
  assumes "p2c_loop key bs n chosen best bi e = Some r"
    and "bs \<noteq> []" "p2c_inv key bs chosen best bi" "length chosen \<le> n"
  shows "length (fst r) = n \<and> only_draws e (snd (snd r)) \<and> (\<exists>best'. p2c_inv key bs (fst r) best' (fst (snd r)))"
  using assms(2-4)
proof (induction rule: p2c_loop.raw_induct [OF _ assms(1)])
  case (1 loop key bs n chosen best bi e r)
  let ?i = "fst (intn (length bs) e)" and ?e = "snd (intn (length bs) e)"
  have i: "?i < length bs" using 1 by (simp add: intn_less)
  show ?case
  proof (cases "length chosen < n")
    case False
    with 1 show ?thesis by auto
  next
    case less: True
    consider (again) "?i \<in> set chosen"
      | (better) "?i \<notin> set chosen" "f64_lt (loads key bs ?i) best"
      | (worse) "?i \<notin> set chosen" "\<not> f64_lt (loads key bs ?i) best" by blast
    then show ?thesis
    proof cases
      case again
      with 1 less have "length (fst r) = n \<and> only_draws ?e (snd (snd r)) \<and>
          (\<exists>best'. p2c_inv key bs (fst r) best' (fst (snd r)))"
        by (intro "1.IH" [of key bs n chosen best bi ?e r]) simp_all
      then show ?thesis using only_draws_trans [OF only_draws_intn] by blast
    next
      case better
      have "length (fst r) = n \<and> only_draws ?e (snd (snd r)) \<and>
          (\<exists>best'. p2c_inv key bs (fst r) best' (fst (snd r)))"
        using 1 less better p2c_inv_better [OF "1.prems"(2) i better]
        by (intro "1.IH" [of key bs n "?i # chosen" "loads key bs ?i" "int ?i" ?e r]) simp_all
      then show ?thesis using only_draws_trans [OF only_draws_intn] by blast
    next
      case worse
      have "length (fst r) = n \<and> only_draws ?e (snd (snd r)) \<and>
          (\<exists>best'. p2c_inv key bs (fst r) best' (fst (snd r)))"
        using 1 less worse p2c_inv_worse [OF "1.prems"(2) i worse]
        by (intro "1.IH" [of key bs n "?i # chosen" best bi ?e r]) simp_all
      then show ?thesis using only_draws_trans [OF only_draws_intn] by blast
    qed
  qed
qed


lemma sample_size_bounds: "bs \<noteq> [] \<Longrightarrow> 0 < sample_size n bs \<and> sample_size n bs \<le> int (length bs)"
  by (simp add: sample_size_def)

text \<open>
  The chosen candidate has the least load of a sample of the configured size (two if it is not
  positive, all candidates if it is larger); if no candidate of the sample has a finite load, it is
  candidate 0.
\<close>

lemma select_p2c_spec:
  assumes "bs \<noteq> []" "select_p2c key n bs e = Some (Inr i, e')"
  shows "\<exists>j < length bs. i = int j \<and> only_draws e e' \<and>
    (\<exists>S \<subseteq> {..<length bs}. int (card S) = sample_size n bs \<and>
       (if \<forall>c \<in> S. \<not> f64_lt (loads (trim_space key) bs c) PosInf then j = 0
        else j \<in> S \<and> least_among (trim_space key) bs S j))"
proof -
  let ?k = "trim_space key"
  have n: "0 < sample_size n bs" using sample_size_bounds [OF assms(1)] by simp
  with assms(2) obtain chosen bi where loop:
      "p2c_loop ?k bs (nat (sample_size n bs)) [] PosInf (- 1) e = Some (chosen, bi, e')"
      and i: "i = (if 0 \<le> bi then bi else 0)"
    by (auto simp: select_p2c_def Let_def split: if_splits option.splits)
  from p2c_loop_inv [OF loop assms(1) p2c_inv_start] obtain best where
    len: "int (length chosen) = sample_size n bs" and same: "only_draws e e'"
    and inv: "p2c_inv ?k bs chosen best bi" using n by auto
  have card: "set chosen \<subseteq> {..<length bs}" "int (card (set chosen)) = sample_size n bs"
    using inv len by (simp_all add: p2c_inv_def distinct_card)
  show ?thesis
  proof (cases "bi = - 1")
    case True
    with inv card i same assms(1) show ?thesis
      by (intro exI [of _ 0]) (auto simp: p2c_inv_def intro!: exI [of _ "set chosen"])
  next
    case False
    with inv obtain c where c: "c \<in> set chosen" "bi = int c" "f64_lt (loads ?k bs c) PosInf"
      "least_among ?k bs (set chosen) c" by (auto simp: p2c_inv_def)
    with card i same show ?thesis
      by (intro exI [of _ c] conjI exI [of _ "set chosen"]) auto
  qed
qed

interpretation p2c: index_choice "select_p2c key n" for key n
proof
  fix bs e i e' assume "bs \<noteq> []" "select_p2c key n bs e = Some (Inr i, e')"
  from select_p2c_spec [OF this] show "0 \<le> i \<and> i < int (length bs)" by auto
next
  fix bs e r e' assume ne: "bs \<noteq> []" and r: "select_p2c key n bs e = Some (r, e')"
  show "same_engine e e'"
  proof (cases r)
    case (Inr i)
    with r select_p2c_spec [OF ne] only_draws_same show ?thesis by blast
  next
    case (Inl x)
    with r show ?thesis by (auto simp: select_p2c_def Let_def split: if_splits option.splits)
  qed
qed

text \<open>
  The loop ends when the generator keeps producing every index; a generator that repeats one index
  for ever is the only obstacle.
\<close>

definition fair_draws :: "nat \<Rightarrow> engine \<Rightarrow> bool" where
  "fair_draws n e \<longleftrightarrow> (\<forall>i < n. \<forall>p. \<exists>q \<ge> p. e_rng e q mod n = i)"

lemma fair_draws_same [simp]: "same_engine e e' \<Longrightarrow> fair_draws n e' = fair_draws n e"
  by (simp add: fair_draws_def same_engine_def)

lemma p2c_draw_fresh:
  assumes "length chosen < n" "n \<le> length bs" "fair_draws (length bs) e"
  shows "\<exists>i best' bi' e'. i < length bs \<and> i \<notin> set chosen \<and> same_engine e e' \<and>
    p2c_loop key bs n chosen best bi e = p2c_loop key bs n (i # chosen) best' bi' e'"
proof -
  have "card (set chosen) < card {..<length bs}"
    using assms(1,2) card_length [of chosen] by simp
  then have "\<not> {..<length bs} \<subseteq> set chosen" by (meson List.finite_set card_mono not_less)
  then obtain i where i: "i < length bs" "i \<notin> set chosen" by auto
  from assms(3) i(1) obtain q where "e_draws e \<le> q" "e_rng e q mod length bs = i"
    unfolding fair_draws_def by blast
  then show ?thesis
  proof (induction "q - e_draws e" arbitrary: e rule: less_induct)
    case less
    let ?i = "fst (intn (length bs) e)" and ?e = "snd (intn (length bs) e)"
    have "0 < length bs" using i(1) by linarith
    then have step: "?i < length bs" by (rule intn_less)
    show ?case
    proof (cases "?i \<in> set chosen")
      case False
      with assms(1) have "\<exists>best' bi'. p2c_loop key bs n chosen best bi e = p2c_loop key bs n (?i # chosen) best' bi' ?e"
        by (subst p2c_loop.simps) auto
      with False step same_engine_intn show ?thesis by blast
    next
      case True
      have ne: "e_draws e \<noteq> q" using True less.prems(2) i(2) by (auto simp: intn_def)
      have "\<exists>i best' bi' e'. i < length bs \<and> i \<notin> set chosen \<and> same_engine ?e e' \<and>
          p2c_loop key bs n chosen best bi ?e = p2c_loop key bs n (i # chosen) best' bi' e'"
        using less.prems ne by (intro less.hyps) (simp_all add: intn_def)
      moreover have "p2c_loop key bs n chosen best bi e = p2c_loop key bs n chosen best bi ?e"
        using assms(1) True by (subst p2c_loop.simps) simp
      ultimately show ?thesis using same_engine_trans [OF same_engine_intn] by metis
    qed
  qed
qed

lemma p2c_loop_ends:
  "n \<le> length bs \<Longrightarrow> fair_draws (length bs) e \<Longrightarrow> \<exists>r. p2c_loop key bs n chosen best bi e = Some r"
proof (induction "n - length chosen" arbitrary: chosen best bi e)
  case 0
  then show ?case by (subst p2c_loop.simps) simp
next
  case (Suc m)
  then have "length chosen < n" by simp
  from p2c_draw_fresh [OF this Suc.prems] obtain i best' bi' e' where
    step: "same_engine e e'" "p2c_loop key bs n chosen best bi e = p2c_loop key bs n (i # chosen) best' bi' e'"
    by blast
  have "\<exists>r. p2c_loop key bs n (i # chosen) best' bi' e' = Some r"
    using Suc.hyps(2) Suc.prems step(1) by (intro Suc.hyps(1)) simp_all
  with step(2) show ?case by simp
qed

lemma select_p2c_ends:
  assumes "fair_draws (length bs) e"
  shows "\<exists>r e'. select_p2c key n bs e = Some (r, e')"
proof -
  have "nat (sample_size n bs) \<le> length bs" by (simp add: sample_size_def)
  from p2c_loop_ends [OF this assms] obtain chosen bi e' where
    "p2c_loop (trim_space key) bs (nat (sample_size n bs)) [] PosInf (- 1) e = Some (chosen, bi, e')"
    by (metis prod_cases3)
  then show ?thesis by (simp add: select_p2c_def Let_def)
qed

section \<open>All strategies\<close>

lemma select_index_cases:
  assumes "bs \<noteq> []"
  shows "select_index c bs rr e =
    (if sc_strategy c = ''round_robin'' then select_round_robin bs rr e
     else if sc_strategy c = ''random'' then select_random bs e
     else if sc_strategy c = ''weighted'' then select_weighted bs e
     else if sc_strategy c = ''least_loaded'' then select_least_loaded (sc_key c) bs e
     else if sc_strategy c = ''p2c'' then select_p2c (sc_key c) (sc_sample c) bs e
     else Some (Inl (ErrUnknownStrategy (sc_strategy c)), e))"
  using assms by (simp add: select_index_def)

interpretation strategy: index_choice "\<lambda>bs. select_index c bs rr" for c rr
proof
  fix bs e i e' assume ne: "bs \<noteq> []" and "select_index c bs rr e = Some (Inr i, e')"
  then show "0 \<le> i \<and> i < int (length bs)"
    using round_robin.in_range random.in_range weighted.in_range least_loaded.in_range p2c.in_range
    by (simp add: select_index_cases split: if_splits)
next
  fix bs e r e' assume ne: "bs \<noteq> []" and "select_index c bs rr e = Some (r, e')"
  then show "same_engine e e'"
    using round_robin.frame random.frame weighted.frame least_loaded.frame p2c.frame
    by (simp add: select_index_cases split: if_splits)
qed

text \<open>Only round robin touches the counters, and only the one it is given.\<close>

lemma select_index_only_draws:
  assumes ne: "bs \<noteq> []" and sel: "select_index c bs rr e = Some (r, e')" and rr: "sc_strategy c \<noteq> ''round_robin''"
  shows "only_draws e e'"
proof -
  have "only_draws e e'" if p: "select_p2c k n bs e = Some (r, e')" for k n
  proof (cases r)
    case (Inr i)
    with p select_p2c_spec [OF ne] show ?thesis by blast
  next
    case (Inl x)
    with p show ?thesis by (auto simp: select_p2c_def Let_def split: if_splits option.splits)
  qed
  moreover have "select_random bs e = Some (r, e') \<Longrightarrow> only_draws e e'"
    by (auto simp: select_random_def intn_def only_draws_def)
  moreover have "select_weighted bs e = Some (r, e') \<Longrightarrow> only_draws e e'"
    by (auto simp: select_weighted_def Let_def split: if_splits prod.splits) (metis only_draws_intn snd_conv)
  moreover have "select_least_loaded k bs e = Some (r, e') \<Longrightarrow> only_draws e e'" for k
    by (auto simp: select_least_loaded_def Let_def split: if_splits)
  ultimately show ?thesis using sel rr by (simp add: select_index_cases [OF ne] split: if_splits)
qed

lemma select_index_ends:
  "fair_draws (length bs) e \<Longrightarrow> \<exists>r e'. select_index c bs rr e = Some (r, e')"
  by (auto simp: select_index_def select_round_robin_def select_random_def select_weighted_def
      select_least_loaded_def Let_def select_p2c_ends split: prod.splits)

end
