(* ===== verification/RoutingDecide.thy ===== *)
theory RoutingDecide
  imports RoutingSelect
begin

text \<open>
  Correctness of \<open>Decide\<close> and \<open>selectCandidates\<close> of \<^verbatim>\<open>internal/routing/engine.go\<close>: which settings
  apply, what a decision contains, what happens to the counters, and which errors a validated
  configuration can still give.
\<close>

section \<open>One set of settings\<close>

definition offered :: "int \<Rightarrow> request \<Rightarrow> selection_config \<Rightarrow> backend list \<Rightarrow> backend list" where
  "offered now req c bs =
     limit_candidates (sc_limit c) (apply_sort (apply_filters now req bs (sc_filters c)) (sc_sort c))"

lemma limit_candidates_eq_Nil [simp]: "limit_candidates n bs = [] \<longleftrightarrow> bs = []"
  by (auto simp: limit_candidates_def)

lemma limit_candidates_take: "\<exists>k. limit_candidates n bs = take k bs"
  unfolding limit_candidates_def by (metis order_refl take_all_iff)

lemma set_limit_candidates: "set (limit_candidates n bs) \<subseteq> set bs"
  using limit_candidates_take [of n bs] set_take_subset by metis

lemma length_limit_candidates: "0 < n \<Longrightarrow> int (length (limit_candidates n bs)) \<le> n"
  by (simp add: limit_candidates_def)

lemma offered_eq_Nil: "offered now req c bs = [] \<longleftrightarrow> apply_filters now req bs (sc_filters c) = []"
proof -
  have "apply_sort xs ks = [] \<longleftrightarrow> xs = []" for xs ks
    by (metis apply_sort_length length_0_conv)
  then show ?thesis by (simp add: offered_def)
qed

lemma set_offered: "set (offered now req c bs) \<subseteq> set (apply_filters now req bs (sc_filters c))"
  using set_limit_candidates by (metis offered_def apply_sort_set)

text \<open>\<open>ErrNoBackends\<close> is the answer exactly when the filters keep no candidate.\<close>

lemma select_index_error:
  assumes "bs \<noteq> []" "select_index c bs rr e = Some (Inl err, e')"
  shows "err \<noteq> ErrNoBackends \<and> e' = e"
proof -
  have "select_p2c k n bs e = Some (Inl err, e') \<Longrightarrow> err = ErrEmptyKey ''p2c'' \<and> e' = e" for k n
    using sample_size_bounds [OF assms(1), of n]
    by (auto simp: select_p2c_def Let_def split: if_splits option.splits)
  with assms show ?thesis
    by (auto simp: select_index_cases select_round_robin_def select_random_def select_weighted_def
        select_least_loaded_def Let_def split: if_splits prod.splits)
qed

lemma select_with_config_Nil:
  "offered now req c bs = [] \<Longrightarrow> select_with_config now req c bs rr e = Some (Inl ErrNoBackends, e)"
  by (simp add: select_with_config_def Let_def offered_eq_Nil)

lemma select_with_config_offered:
  assumes "offered now req c bs \<noteq> []"
  shows "select_with_config now req c bs rr e =
    (case select_index c (offered now req c bs) rr e of
       None \<Rightarrow> None
     | Some (Inl err, e') \<Rightarrow> Some (Inl err, e')
     | Some (Inr idx, e') \<Rightarrow> Some (Inr (offered now req c bs, idx), e'))"
  using assms offered_eq_Nil [of now req c bs] by (simp add: select_with_config_def offered_def [symmetric] Let_def)

lemma select_with_config_no_backends:
  "select_with_config now req c bs rr e = Some (Inl ErrNoBackends, e') \<longleftrightarrow>
   offered now req c bs = [] \<and> e' = e"
proof (cases "offered now req c bs = []")
  case True
  then show ?thesis by (auto simp: select_with_config_Nil)
next
  case False
  then show ?thesis using select_index_error [OF False]
    by (auto simp: select_with_config_offered split: option.splits prod.splits sum.splits)
qed

section \<open>Fallbacks\<close>

text \<open>
  The fallbacks act as alternatives, and the first settings whose filters keep a candidate are the
  ones that decide: what they answer, an error included, is final.
\<close>

lemma try_configs_find:
  "try_configs now req cs bs rr e =
     (case find (\<lambda>c. offered now req c bs \<noteq> []) cs of
        None \<Rightarrow> Some (Inl ErrNoBackends, e)
      | Some c \<Rightarrow> select_with_config now req c bs rr e)"
proof (induction cs)
  case Nil
  then show ?case by simp
next
  case (Cons c cs)
  show ?case
  proof (cases "offered now req c bs = []")
    case True
    with Cons show ?thesis by (simp add: select_with_config_Nil)
  next
    case False
    then have "select_with_config now req c bs rr e \<noteq> Some (Inl ErrNoBackends, e')" for e'
      by (simp add: select_with_config_no_backends)
    with False show ?thesis by (auto split: option.splits prod.splits sum.splits)
  qed
qed

definition deciding_config :: "int \<Rightarrow> request \<Rightarrow> pool \<Rightarrow> backend list \<Rightarrow> selection_config option" where
  "deciding_config now req p bs = find (\<lambda>c. offered now req c bs \<noteq> []) (pool_configs p)"

lemma select_candidates_deciding:
  "select_candidates now req p bs rr e =
     (case deciding_config now req p bs of
        None \<Rightarrow> Some (Inl ErrNoBackends, e)
      | Some c \<Rightarrow> select_with_config now req c bs rr e)"
proof (cases "bs = []")
  case True
  have "offered now req c [] = []" for c by (simp add: offered_eq_Nil)
  then have "find (\<lambda>c. offered now req c [] \<noteq> []) cs = None" for cs by (simp add: find_None_iff)
  with True show ?thesis by (simp add: select_candidates_def deciding_config_def)
next
  case False
  then show ?thesis by (simp add: select_candidates_def deciding_config_def try_configs_find)
qed

lemma deciding_config_some:
  assumes "deciding_config now req p bs = Some c"
  shows "c \<in> set (pool_configs p)" and "offered now req c bs \<noteq> []"
  using assms by (auto simp: deciding_config_def find_Some_iff in_set_conv_nth)

lemma select_candidates_ok:
  assumes "select_candidates now req p bs rr e = Some (Inr (cands, i), e')"
  obtains c where "deciding_config now req p bs = Some c" "cands = offered now req c bs" "cands \<noteq> []"
    "select_index c cands rr e = Some (Inr i, e')"
proof -
  from assms obtain c where c: "deciding_config now req p bs = Some c"
    "select_with_config now req c bs rr e = Some (Inr (cands, i), e')"
    by (auto simp: select_candidates_deciding split: option.splits)
  with deciding_config_some(2) [OF c(1)] that show ?thesis
    by (auto simp: select_with_config_offered split: option.splits prod.splits sum.splits)
qed

lemma select_candidates_frame:
  assumes "select_candidates now req p bs rr e = Some (r, e')"
  shows "same_engine e e'"
proof (cases "deciding_config now req p bs")
  case None
  with assms show ?thesis by (simp add: select_candidates_deciding)
next
  case (Some c)
  note ne = deciding_config_some(2) [OF Some]
  from assms Some ne strategy.frame [OF ne, of c rr e] show ?thesis
    by (auto simp: select_candidates_deciding select_with_config_offered
        split: option.splits prod.splits sum.splits)
qed


section \<open>Which pool decides\<close>

lemma first_route_spec:
  "first_route k sni rs = Some (i, r) \<longleftrightarrow>
     (\<exists>j < length rs. i = k + j \<and> r = rs ! j \<and> route_matches sni r \<and> (\<forall>m < j. \<not> route_matches sni (rs ! m)))"
proof (induction rs arbitrary: k)
  case Nil
  then show ?case by simp
next
  case (Cons q rs)
  show ?case
  proof (cases "route_matches sni q")
    case True
    then show ?thesis by (auto simp: Ex_less_Suc2 All_less_Suc2)
  next
    case False
    then show ?thesis by (auto simp: Cons.IH Ex_less_Suc2 All_less_Suc2)
  qed
qed

lemma first_route_None: "first_route k sni rs = None \<longleftrightarrow> (\<forall>r \<in> set rs. \<not> route_matches sni r)"
  by (induction rs arbitrary: k) simp_all

lemma first_route_index: "first_route 0 sni rs = Some (i, r) \<Longrightarrow> i < length rs \<and> r = rs ! i \<and> route_matches sni r"
  by (auto simp: first_route_spec)

text \<open>The counter and the pool a request is sent to.\<close>

definition routed :: "routing_config \<Rightarrow> request \<Rightarrow> (counter \<times> pool) option" where
  "routed cfg req =
     (case first_route 0 (canonical_host (req_sni req)) (rc_routes cfg) of
        Some (i, r) \<Rightarrow> Some (RouteCounter i, r_pool r)
      | None \<Rightarrow> map_option (Pair DefaultCounter) (rc_default cfg))"

fun counter_index :: "counter \<Rightarrow> int" where
  "counter_index (RouteCounter i) = int i"
| "counter_index DefaultCounter = - 1"

lemma counter_index_inject [simp]: "counter_index c = counter_index d \<longleftrightarrow> c = d"
  by (cases c; cases d) simp_all

lemma decide_routed:
  "decide disc now req e =
     (case routed (e_cfg e) req of
        None \<Rightarrow> Some (Inr no_decision, e)
      | Some (c, p) \<Rightarrow> decide_pool disc now req p c (c \<noteq> DefaultCounter) (counter_index c) e)"
  by (simp add: decide_def routed_def Let_def split: option.splits prod.splits)

text \<open>One counter for every route, as \<open>NewStaticEngine\<close> makes them.\<close>

definition engine_ok :: "engine \<Rightarrow> bool" where
  "engine_ok e \<longleftrightarrow> length (e_rr e) = length (rc_routes (e_cfg e))"

lemma engine_ok_new [simp]: "engine_ok (new_static_engine cfg rng)"
  by (simp add: engine_ok_def new_static_engine_def)

lemma engine_ok_same: "same_engine e e' \<Longrightarrow> engine_ok e \<Longrightarrow> engine_ok e'"
  by (simp add: engine_ok_def same_engine_def)

lemma routed_counter_ok: "engine_ok e \<Longrightarrow> routed (e_cfg e) req = Some (c, p) \<Longrightarrow> counter_ok c e"
  by (auto simp: routed_def counter_ok_def engine_ok_def dest!: first_route_index split: option.splits prod.splits)

section \<open>What a decision contains\<close>

lemma decide_pool_ok:
  assumes "decide_pool disc now req p rr m idx e = Some (Inr d, e')"
  obtains bs c where "resolve_candidates disc p = Inr bs" "deciding_config now req p bs = Some c"
    "d_candidates d = offered now req c bs" "d_candidates d \<noteq> []"
    "select_index c (d_candidates d) rr e = Some (Inr (d_selected_index d), e')"
    "d_backend d = backend_at (d_candidates d) (d_selected_index d)"
    "d_matched d = m" "d_route_index d = idx" "d_strategy d = normalize_strategy (p_strategy p)"
proof -
  from assms obtain bs cands i where r: "resolve_candidates disc p = Inr bs"
    and s: "select_candidates now req p bs rr e = Some (Inr (cands, i), e')"
    and d: "d = \<lparr>d_matched = m, d_route_index = idx, d_strategy = normalize_strategy (p_strategy p),
      d_candidates = cands, d_selected_index = i, d_backend = backend_at cands i\<rparr>"
    by (auto simp: decide_pool_def split: sum.splits option.splits prod.splits)
  from s show ?thesis
  proof (rule select_candidates_ok)
    fix c assume "deciding_config now req p bs = Some c" "cands = offered now req c bs" "cands \<noteq> []"
      "select_index c cands rr e = Some (Inr i, e')"
    with r d show ?thesis by (intro that) simp_all
  qed
qed

lemma decide_pool_frame:
  assumes "decide_pool disc now req p rr m idx e = Some (r, e')"
  shows "same_engine e e'"
  using assms select_candidates_frame
  by (auto simp: decide_pool_def split: sum.splits option.splits prod.splits)

lemma decide_frame: "decide disc now req e = Some (r, e') \<Longrightarrow> same_engine e e'"
  by (auto simp: decide_routed decide_pool_frame split: option.splits prod.splits)

text \<open>The shape of every decision the engine returns.\<close>

definition decision_ok :: "decision \<Rightarrow> bool" where
  "decision_ok d \<longleftrightarrow>
     d = no_decision \<or>
     (d_candidates d \<noteq> [] \<and> 0 \<le> d_selected_index d \<and> d_selected_index d < int (length (d_candidates d)) \<and>
      d_backend d = d_candidates d ! nat (d_selected_index d) \<and>
      (d_matched d \<longleftrightarrow> 0 \<le> d_route_index d) \<and> - 1 \<le> d_route_index d)"

lemma decide_pool_decision_ok:
  assumes "decide_pool disc now req p c (c \<noteq> DefaultCounter) (counter_index c) e = Some (Inr d, e')"
  shows "decision_ok d"
  using assms
proof (rule decide_pool_ok)
  fix bs sc assume d: "d_candidates d \<noteq> []"
    "select_index sc (d_candidates d) c e = Some (Inr (d_selected_index d), e')"
    "d_backend d = backend_at (d_candidates d) (d_selected_index d)"
    "d_matched d = (c \<noteq> DefaultCounter)" "d_route_index d = counter_index c"
  from strategy.in_range [OF d(1,2)] strategy.chosen_member(2) [OF d(1,2)] d show ?thesis
    by (cases c) (simp_all add: decision_ok_def)
qed

section \<open>The counters\<close>

lemma select_index_round_robin:
  assumes "bs \<noteq> []" "sc_strategy sc = ''round_robin''" "counter_ok c e"
  shows "select_index sc bs c e =
    Some (Inr (int (unat (read_counter c e) mod length bs)), bump_counter c e)"
  using assms by (simp add: select_index_cases round_robin_index)

lemma select_index_counter:
  assumes "bs \<noteq> []" "select_index sc bs c e = Some (r, e')" "counter_ok c e"
  shows "read_counter d e' = read_counter d e + (if d = c \<and> sc_strategy sc = ''round_robin'' then 1 else 0)"
proof (cases "sc_strategy sc = ''round_robin''")
  case True
  with assms have "e' = bump_counter c e" by (simp add: select_index_round_robin)
  with True assms(3) show ?thesis by (simp add: read_bump_same read_bump_other)
next
  case False
  with select_index_only_draws [OF assms(1,2)] show ?thesis by (simp add: only_draws_counter)
qed

lemma select_candidates_counter:
  assumes "select_candidates now req p bs c e = Some (r, e')" "counter_ok c e" "d \<noteq> c"
  shows "read_counter d e' = read_counter d e"
proof (cases "deciding_config now req p bs")
  case None
  with assms show ?thesis by (simp add: select_candidates_deciding)
next
  case (Some sc)
  note ne = deciding_config_some(2) [OF Some]
  from assms Some ne select_index_counter [OF ne, of sc c e _ _ d] show ?thesis
    by (auto simp: select_candidates_deciding select_with_config_offered
        split: option.splits prod.splits sum.splits)
qed

text \<open>A decision moves no counter but that of its own route.\<close>

lemma decide_other_counter:
  assumes "engine_ok e" "decide disc now req e = Some (r, e')"
    and "\<And>p. routed (e_cfg e) req \<noteq> Some (c, p)"
  shows "read_counter c e' = read_counter c e"
proof (cases "routed (e_cfg e) req")
  case None
  with assms show ?thesis by (simp add: decide_routed)
next
  case (Some cp)
  then obtain d p where dp: "routed (e_cfg e) req = Some (d, p)" by (cases cp) auto
  with assms(3) have "c \<noteq> d" by auto
  moreover have "counter_ok d e" using routed_counter_ok [OF assms(1) dp] .
  ultimately show ?thesis using assms(2) dp select_candidates_counter
    by (auto simp: decide_routed decide_pool_def split: sum.splits option.splits prod.splits)
qed

text \<open>A pool all of whose settings are round robin.\<close>

definition round_robin_pool :: "pool \<Rightarrow> bool" where
  "round_robin_pool p \<longleftrightarrow> (\<forall>c \<in> set (pool_configs p). sc_strategy c = ''round_robin'')"

lemma decide_pool_round_robin:
  assumes ok: "counter_ok c e" and rr: "round_robin_pool p"
    and dec: "decide_pool disc now req p c m idx e = Some (r, e')"
  shows "case r of
      Inl _ \<Rightarrow> e' = e
    | Inr d \<Rightarrow> e' = bump_counter c e \<and> d_candidates d \<noteq> [] \<and>
        d_selected_index d = int (unat (read_counter c e) mod length (d_candidates d))"
proof (cases r)
  case (Inr d)
  with dec have "decide_pool disc now req p c m idx e = Some (Inr d, e')" by simp
  then show ?thesis
  proof (rule decide_pool_ok)
    fix bs sc assume *: "deciding_config now req p bs = Some sc" "d_candidates d \<noteq> []"
      "select_index sc (d_candidates d) c e = Some (Inr (d_selected_index d), e')"
    from rr deciding_config_some(1) [OF *(1)] have "sc_strategy sc = ''round_robin''"
      by (simp add: round_robin_pool_def)
    from select_index_round_robin [OF *(2) this ok] * Inr show ?thesis by simp
  qed
next
  case (Inl err)
  have "e' = e" if s: "select_candidates now req p bs c e = Some (Inl err, e')" for bs
  proof (cases "deciding_config now req p bs")
    case None
    with s show ?thesis by (simp add: select_candidates_deciding)
  next
    case (Some sc)
    note ne = deciding_config_some(2) [OF Some]
    from rr deciding_config_some(1) [OF Some] have "sc_strategy sc = ''round_robin''"
      by (simp add: round_robin_pool_def)
    from s Some select_index_round_robin [OF ne this ok] show ?thesis
      by (simp add: select_candidates_deciding select_with_config_offered [OF ne])
  qed
  with dec Inl show ?thesis
    by (auto simp: decide_pool_def split: sum.splits option.splits prod.splits)
qed

end
