(* ===== verification/RoutingSafety.thy ===== *)
theory RoutingSafety
  imports RoutingDecide "HOL-Library.Countable"
begin

text \<open>
  What validation (\<^verbatim>\<open>internal/routing/validate.go\<close>) guarantees of the decisions of the engine
  (\<^verbatim>\<open>internal/routing/engine.go\<close>): the errors that can still occur, the backends that can be chosen,
  and that a decision is reached.
\<close>

section \<open>Settings that cannot fail\<close>

definition config_ok :: "selection_config \<Rightarrow> bool" where
  "config_ok c \<longleftrightarrow> sc_strategy c \<in> set strategies \<and> (keyed_strategy (sc_strategy c) \<longrightarrow> trim_space (sc_key c) \<noteq> [])"

lemma select_index_errors:
  assumes "bs \<noteq> []" "config_ok c" "select_index c bs rr e = Some (Inl err, e')"
  shows "err = ErrInvalidWeightedPool \<and> sc_strategy c = ''weighted'' \<and> total_weight bs \<le> 0"
  using assms sample_size_bounds [OF assms(1), of "sc_sample c"]
  by (auto simp: select_index_cases config_ok_def strategies_def keyed_strategy_def select_round_robin_def
      select_random_def select_weighted_def select_least_loaded_def select_p2c_def Let_def
      split: if_splits prod.splits option.splits)

text \<open>The key that a fallback without a strategy of its own brings along must not be blank.\<close>

definition fallback_key_ok :: "pool \<Rightarrow> fallback \<Rightarrow> bool" where
  "fallback_key_ok p fb \<longleftrightarrow>
     (fb_strategy fb = None \<longrightarrow> keyed_strategy (normalize_strategy (p_strategy p)) \<longrightarrow>
      (case fb_key fb of None \<Rightarrow> True | Some k \<Rightarrow> trim_space k \<noteq> []))"

lemma config_ok_base: "validate_pool p = None \<Longrightarrow> config_ok (selection_config_from_pool p)"
  using validate_pool_strategy [of p]
  by (simp add: config_ok_def selection_config_from_pool_def trim_space_idem)

lemma config_ok_fallback:
  assumes "validate_pool p = None" "fb \<in> set (p_fallback p)" "fallback_key_ok p fb"
  shows "config_ok (merge_fallback (selection_config_from_pool p) fb)"
proof (cases "fb_strategy fb")
  case (Some s)
  from validate_fallback_strategy [OF validate_pool_fallback [OF assms(1,2)] Some] Some show ?thesis
    by (auto simp: config_ok_def merge_fallback_def or_keep_def trim_space_idem)
next
  case None
  with assms(3) validate_pool_strategy [OF assms(1)] show ?thesis
    by (auto simp: config_ok_def merge_fallback_def or_keep_def trim_space_idem fallback_key_ok_def
        selection_config_from_pool_def split: option.splits)
qed

lemma pool_configs_ok:
  assumes "validate_pool p = None" "\<forall>fb \<in> set (p_fallback p). fallback_key_ok p fb" "c \<in> set (pool_configs p)"
  shows "config_ok c"
  using assms by (auto simp: pool_configs_def Let_def config_ok_base config_ok_fallback)

lemma routed_pool:
  assumes "routed cfg req = Some (c, p)"
  obtains "rc_default cfg = Some p" | r where "r \<in> set (rc_routes cfg)" "p = r_pool r"
proof (cases "first_route 0 (canonical_host (req_sni req)) (rc_routes cfg)")
  case None
  with assms show ?thesis by (auto simp: routed_def intro: that)
next
  case (Some ir)
  with assms have "first_route 0 (canonical_host (req_sni req)) (rc_routes cfg) = Some (fst ir, snd ir)"
    "p = r_pool (snd ir)" by (auto simp: routed_def split: prod.splits)
  with first_route_index show ?thesis by (metis nth_mem that(2))
qed

lemma routed_valid: "validate_routing cfg = None \<Longrightarrow> routed cfg req = Some (c, p) \<Longrightarrow> validate_pool p = None"
  by (erule routed_pool) (simp_all add: validate_routing_pools)

section \<open>Errors at run time\<close>

lemma select_candidates_errors:
  assumes ok: "\<forall>c \<in> set (pool_configs p). config_ok c"
    and sel: "select_candidates now req p bs rr e = Some (Inl err, e')"
  shows "(err = ErrNoBackends \<and> deciding_config now req p bs = None) \<or>
    (err = ErrInvalidWeightedPool \<and> (\<exists>cs. cs \<noteq> [] \<and> set cs \<subseteq> set bs \<and> total_weight cs \<le> 0))"
proof (cases "deciding_config now req p bs")
  case None
  with sel show ?thesis by (simp add: select_candidates_deciding)
next
  case (Some c)
  note ne = deciding_config_some(2) [OF Some]
  have "select_index c (offered now req c bs) rr e = Some (Inl err, e')"
    using sel Some ne by (auto simp: select_candidates_deciding select_with_config_offered
        split: option.splits prod.splits sum.splits)
  from select_index_errors [OF ne _ this] ok deciding_config_some(1) [OF Some]
  have "err = ErrInvalidWeightedPool" "total_weight (offered now req c bs) \<le> 0" by auto
  moreover have "set (offered now req c bs) \<subseteq> set bs"
    using set_offered [of now req c bs] by (auto simp: apply_filters_eq)
  ultimately show ?thesis using ne by blast
qed

definition blank_fallback_keys :: "routing_config \<Rightarrow> bool" where
  "blank_fallback_keys cfg \<longleftrightarrow>
     (\<exists>p \<in> set (map r_pool (rc_routes cfg) @ (case rc_default cfg of None \<Rightarrow> [] | Some p \<Rightarrow> [p])).
        \<exists>fb \<in> set (p_fallback p). \<not> fallback_key_ok p fb)"

lemma routed_fallback_keys:
  "\<not> blank_fallback_keys cfg \<Longrightarrow> routed cfg req = Some (c, p) \<Longrightarrow> fb \<in> set (p_fallback p) \<Longrightarrow> fallback_key_ok p fb"
  by (erule routed_pool) (auto simp: blank_fallback_keys_def)

text \<open>
  With a validated configuration without blank fallback keys and a discovery callback, \<open>Decide\<close> fails
  only for want of backends, because discovery fails, or because the weights overflow.
\<close>

lemma validated_errors:
  assumes "validate_routing (e_cfg e) = None" "\<not> blank_fallback_keys (e_cfg e)"
    and "decide (Some f) now req e = Some (Inl err, e')"
  shows "err = ErrNoBackends \<or> (\<exists>t. err = ErrDiscovery t) \<or>
    (err = ErrInvalidWeightedPool \<and> (\<exists>cs. cs \<noteq> [] \<and> total_weight cs \<le> 0))"
proof -
  from assms(3) obtain c p where r: "routed (e_cfg e) req = Some (c, p)"
    and d: "decide_pool (Some f) now req p c (c \<noteq> DefaultCounter) (counter_index c) e = Some (Inl err, e')"
    by (auto simp: decide_routed split: option.splits)
  have valid: "validate_pool p = None" using routed_valid [OF assms(1) r] .
  have ok: "\<forall>c \<in> set (pool_configs p). config_ok c"
    using pool_configs_ok [OF valid] routed_fallback_keys [OF assms(2) r] by blast
  show ?thesis
  proof (cases "resolve_candidates (Some f) p")
    case (Inl err')
    with d have "err' = err" by (simp add: decide_pool_def)
    with resolve_errors [OF Inl] validate_pool_mode(1) [OF valid] show ?thesis by auto
  next
    case (Inr bs)
    with d have "select_candidates now req p bs c e = Some (Inl err, e')"
      by (auto simp: decide_pool_def split: option.splits prod.splits sum.splits)
    with select_candidates_errors [OF ok this] show ?thesis by blast
  qed
qed

section \<open>Static pools\<close>

text \<open>
  A pool without discovery that has a candidate for the request always gives a decision, if its
  weights do not overflow and the generator is fair.
\<close>

definition fair :: "engine \<Rightarrow> bool" where
  "fair e \<longleftrightarrow> (\<forall>n. fair_draws n e)"

lemma fair_prod_decode: "e_rng e = (\<lambda>q. snd (prod_decode q)) \<Longrightarrow> fair e"
proof -
  assume e: "e_rng e = (\<lambda>q. snd (prod_decode q))"
  have "\<exists>q \<ge> p. e_rng e q mod n = i" if "i < n" for n i p
    using that le_prod_encode_1 [of p i] by (intro exI [of _ "prod_encode (p, i)"]) (simp add: e)
  then show ?thesis by (simp add: fair_def fair_draws_def)
qed

lemma decide_ends: "fair e \<Longrightarrow> \<exists>r e'. decide disc now req e = Some (r, e')"
proof -
  assume f: "fair e"
  have sel: "\<exists>r e'. select_candidates now req p bs c e = Some (r, e')" for p bs c
  proof (cases "deciding_config now req p bs")
    case None
    then show ?thesis by (simp add: select_candidates_deciding)
  next
    case (Some sc)
    note ne = deciding_config_some(2) [OF Some]
    have "fair_draws (length (offered now req sc bs)) e" using f by (simp add: fair_def)
    from select_index_ends [OF this, of sc c] Some ne show ?thesis
      by (auto simp: select_candidates_deciding select_with_config_offered split: sum.splits)
  qed
  have "\<exists>r e'. decide_pool disc now req p c m i e = Some (r, e')" for p c m i
  proof (cases "resolve_candidates disc p")
    case (Inl x)
    then show ?thesis by (simp add: decide_pool_def)
  next
    case (Inr bs)
    from sel [of p bs c] Inr show ?thesis by (auto simp: decide_pool_def split: sum.splits)
  qed
  then show ?thesis by (auto simp: decide_routed split: option.splits)
qed

lemma static_candidates:
  assumes "p_discovery p = None" "decide_pool disc now req p c m i e = Some (Inr d, e')"
  shows "set (d_candidates d) \<subseteq> set (p_backends p)"
  using assms(2)
proof (rule decide_pool_ok)
  fix bs sc assume "resolve_candidates disc p = Inr bs" "d_candidates d = offered now req sc bs"
  with assms(1) set_offered [of now req sc bs] show ?thesis
    by (auto simp: resolve_candidates_def Let_def apply_filters_eq split: if_splits)
qed

lemma decide_valid_backend:
  assumes "validate_routing (e_cfg e) = None" "routed (e_cfg e) req = Some (c, p)" "p_discovery p = None"
    and "decide disc now req e = Some (Inr d, e')"
  shows "d_backend d \<in> set (p_backends p) \<and> b_host (d_backend d) \<noteq> [] \<and>
    0 < b_port (d_backend d) \<and> b_port (d_backend d) \<le> 65535"
proof -
  from assms(2,4) have dp: "decide_pool disc now req p c (c \<noteq> DefaultCounter) (counter_index c) e = Some (Inr d, e')"
    by (simp add: decide_routed)
  have "d_backend d \<in> set (d_candidates d)"
    using dp by (rule decide_pool_ok) (use strategy.chosen_member(1) in metis)
  with static_candidates [OF assms(3) dp] have b: "d_backend d \<in> set (p_backends p)" by blast
  with validate_pool_backend(1) [OF routed_valid [OF assms(1,2)] b] show ?thesis
    by (simp add: validate_backend_ok)
qed

end
