(* ===== verification/RoutingFair.thy ===== *)
theory RoutingFair
  imports RoutingDecide
begin

text \<open>
  Sequences of calls of \<open>Decide\<close> (\<^verbatim>\<open>internal/routing/engine.go\<close>) on one engine, for any interleaving
  of routes, host names and discovery answers: a round-robin route spreads its decisions evenly.
  \<open>rr.Add\<close> is atomic, so concurrent calls take effect in some such order.
\<close>

section \<open>Counting residues\<close>

definition residue_count :: "nat \<Rightarrow> nat \<Rightarrow> nat \<Rightarrow> nat \<Rightarrow> nat" where
  "residue_count n i c m = length (filter (\<lambda>k. (c + k) mod n = i) [0..<m])"

lemma residue_count_0 [simp]: "residue_count n i c 0 = 0"
  by (simp add: residue_count_def)

lemma residue_count_Suc: "residue_count n i c (Suc m) = residue_count n i c m + (if (c + m) mod n = i then 1 else 0)"
  by (simp add: residue_count_def)

text \<open>The numbers below \<open>t\<close> of residue \<open>i\<close>.\<close>

lemma residues_below_step:
  fixes t n i :: nat
  assumes "i < n"
  shows "(Suc t + n - 1 - i) div n = (t + n - 1 - i) div n + (if t mod n = i then 1 else 0)"
proof -
  define q r where "q = t div n" and "r = t mod n"
  have t: "t = q * n + r" and r: "r < n" using assms by (simp_all add: q_def r_def)
  have "(Suc t + n - 1 - i) div n = q + (r + n - i) div n"
    using assms div_mult_self1 [of n "r + n - i" q] by (simp add: t ac_simps)
  also have "(r + n - i) div n = (if i \<le> r then 1 else 0)"
    using assms r by (auto simp: div_nat_eqI)
  finally have "(Suc t + n - 1 - i) div n = q + (if i \<le> r then 1 else 0)" .
  moreover have "(t + n - 1 - i) div n = q + (r + n - 1 - i) div n"
    using assms div_mult_self1 [of n "r + n - 1 - i" q] by (simp add: t ac_simps)
  moreover have "(r + n - 1 - i) div n = (if i < r then 1 else 0)"
    using assms r by (auto simp: div_nat_eqI)
  ultimately show ?thesis by (auto simp: r_def)
qed

lemma residue_count_closed:
  "i < n \<Longrightarrow> (c + n - 1 - i) div n + residue_count n i c m = (c + m + n - 1 - i) div n"
proof (induction m)
  case (Suc m)
  then show ?case using residues_below_step [OF Suc.prems, of "c + m"]
    by (simp add: residue_count_Suc)
qed simp

lemma residue_count_bounds:
  assumes "i < n"
  shows "m div n \<le> residue_count n i c m" and "residue_count n i c m \<le> m div n + 1"
proof -
  define a where "a = c + n - 1 - i"
  have "c + m + n - 1 - i = a + m" using assms by (simp add: a_def)
  then have eq: "a div n + residue_count n i c m = (a + m) div n"
    using residue_count_closed [OF assms, of c m] by (simp add: a_def)
  have "(a + m) div n = a div n + m div n + (a mod n + m mod n) div n" by (rule div_add1_eq)
  moreover have "a mod n + m mod n < 2 * n" using assms by (simp add: add_strict_mono mult_2)
  then have "(a mod n + m mod n) div n \<le> 1" by (simp add: div_less_iff_less_mult less_Suc_eq_le [symmetric] mult.commute)
  ultimately show "m div n \<le> residue_count n i c m" "residue_count n i c m \<le> m div n + 1"
    using eq by simp_all
qed

section \<open>Runs\<close>

type_synonym call = "discovery_fn option \<times> int \<times> request"

fun run_decides :: "call list \<Rightarrow> engine \<Rightarrow> ((routing_error + decision) list \<times> engine) option" where
  "run_decides [] e = Some ([], e)"
| "run_decides ((disc, now, req) # calls) e =
     (case decide disc now req e of
        None \<Rightarrow> None
      | Some (r, e') \<Rightarrow>
        (case run_decides calls e' of
           None \<Rightarrow> None
         | Some (rs, e'') \<Rightarrow> Some (r # rs, e'')))"

definition for_route :: "nat \<Rightarrow> (routing_error + decision) \<Rightarrow> bool" where
  "for_route i r = (case r of Inl _ \<Rightarrow> False | Inr d \<Rightarrow> d_matched d \<and> d_route_index d = int i)"

definition route_decisions :: "nat \<Rightarrow> (routing_error + decision) list \<Rightarrow> decision list" where
  "route_decisions i rs = map projr (filter (for_route i) rs)"

lemma decide_round_robin_step:
  assumes ok: "engine_ok e" and i: "i < length (rc_routes (e_cfg e))"
    and rr: "round_robin_pool (r_pool (rc_routes (e_cfg e) ! i))"
    and dec: "decide disc now req e = Some (r, e')"
  shows "if for_route i r
    then e_rr e' ! i = e_rr e ! i + 1 \<and> d_candidates (projr r) \<noteq> [] \<and>
      d_selected_index (projr r) = int (unat (e_rr e ! i) mod length (d_candidates (projr r)))
    else e_rr e' ! i = e_rr e ! i"
proof (cases "\<exists>p. routed (e_cfg e) req = Some (RouteCounter i, p)")
  case False
  then have "read_counter (RouteCounter i) e' = read_counter (RouteCounter i) e"
    using decide_other_counter [OF ok dec, of "RouteCounter i"] by blast
  moreover have "\<not> for_route i r"
  proof (cases "routed (e_cfg e) req")
    case None
    with dec show ?thesis by (auto simp: decide_routed for_route_def no_decision_def)
  next
    case (Some cp)
    then obtain c p where c: "routed (e_cfg e) req = Some (c, p)" by (cases cp) auto
    with False have "c \<noteq> RouteCounter i" by auto
    then have "counter_index c \<noteq> int i" using counter_index_inject [of c "RouteCounter i"] by simp
    moreover have "d_route_index d = counter_index c" if "r = Inr d" for d
      using dec c that by (auto simp: decide_routed elim!: decide_pool_ok)
    ultimately show ?thesis by (auto simp: for_route_def split: sum.splits)
  qed
  ultimately show ?thesis by simp
next
  case True
  then obtain p where p: "routed (e_cfg e) req = Some (RouteCounter i, p)" by blast
  then have "p = r_pool (rc_routes (e_cfg e) ! i)"
    by (auto simp: routed_def dest!: first_route_index split: option.splits)
  with rr have rp: "round_robin_pool p" by simp
  have ct: "counter_ok (RouteCounter i) e" using routed_counter_ok [OF ok p] .
  from dec p have dp: "decide_pool disc now req p (RouteCounter i) True (int i) e = Some (r, e')"
    by (simp add: decide_routed)
  note step = decide_pool_round_robin [OF ct rp dp]
  show ?thesis
  proof (cases r)
    case (Inl err)
    with step show ?thesis by (simp add: for_route_def)
  next
    case (Inr d)
    then have "for_route i r" using dp by (auto simp: for_route_def elim!: decide_pool_ok)
    with step Inr ct show ?thesis by (simp add: counter_ok_def)
  qed
qed

lemma run_round_robin:
  assumes "run_decides calls e = Some (rs, e')" "engine_ok e" "i < length (rc_routes (e_cfg e))"
    and "round_robin_pool (r_pool (rc_routes (e_cfg e) ! i))"
  shows "k < length (route_decisions i rs) \<Longrightarrow>
    d_candidates (route_decisions i rs ! k) \<noteq> [] \<and>
    d_selected_index (route_decisions i rs ! k) =
      int (unat (e_rr e ! i + of_nat k) mod length (d_candidates (route_decisions i rs ! k)))"
  using assms
proof (induction calls e arbitrary: rs k e' rule: run_decides.induct)
  case (1 e)
  then show ?case by (simp add: route_decisions_def)
next
  case (2 disc now req calls e)
  from "2.prems" obtain r e1 rs' where dec: "decide disc now req e = Some (r, e1)"
    and run: "run_decides calls e1 = Some (rs', e')" and rs: "rs = r # rs'"
    by (auto split: option.splits)
  note same = decide_frame [OF dec]
  then have cfg: "e_cfg e1 = e_cfg e" by (simp add: same_engine_def)
  note step = decide_round_robin_step [OF "2.prems"(3,4,5) dec]
  note IH = "2.IH" [OF dec refl _ run engine_ok_same [OF same "2.prems"(3)], unfolded cfg, OF _ "2.prems"(4,5)]
  show ?case
  proof (cases "for_route i r")
    case False
    with step IH [of k] "2.prems"(1) show ?thesis by (simp add: route_decisions_def rs)
  next
    case True
    show ?thesis
    proof (cases k)
      case 0
      with True step show ?thesis by (simp add: route_decisions_def rs)
    next
      case (Suc l)
      with True step IH [of l] "2.prems"(1) show ?thesis
        by (simp add: route_decisions_def rs add.assoc)
    qed
  qed
qed

text \<open>
  While the counter does not wrap and the number of candidates stays \<open>n\<close>, of \<open>m\<close> decisions of the
  route every candidate index gets \<open>m div n\<close> or one more.
\<close>

definition picked :: "nat \<Rightarrow> decision list \<Rightarrow> nat" where
  "picked j ds = length (filter (\<lambda>d. d_selected_index d = int j) ds)"

lemma length_filter_nth: "length (filter P xs) = length (filter (\<lambda>k. P (xs ! k)) [0..<length xs])"
  by (subst (1) map_nth [symmetric], simp only: filter_map length_map o_def)

lemma picked_residues:
  assumes "run_decides calls e = Some (rs, e')" "engine_ok e" "i < length (rc_routes (e_cfg e))"
    and "round_robin_pool (r_pool (rc_routes (e_cfg e) ! i))"
    and n: "\<forall>d \<in> set (route_decisions i rs). length (d_candidates d) = n"
    and wrap: "unat (e_rr e ! i) + length (route_decisions i rs) \<le> 2 ^ 64"
  shows "picked j (route_decisions i rs) = residue_count n j (unat (e_rr e ! i)) (length (route_decisions i rs))"
proof -
  let ?ds = "route_decisions i rs" and ?c = "e_rr e ! i"
  have "d_selected_index (?ds ! k) = int j \<longleftrightarrow> (unat ?c + k) mod n = j" if k: "k < length ?ds" for k
  proof -
    have "unat (?c + of_nat k) = unat ?c + k"
    proof -
      have "k < 2 ^ 64" using k wrap by simp
      then have "unat (of_nat k :: u64) = k" by (simp add: unat_of_nat take_bit_eq_mod)
      moreover have "unat ?c + k < 2 ^ 64" using k wrap by simp
      ultimately show ?thesis by (simp add: unat_word_ariths)
    qed
    with run_round_robin [OF assms(1-4) k] n k show ?thesis by auto
  qed
  then show ?thesis
    unfolding picked_def residue_count_def length_filter_nth [of _ ?ds]
    by (intro arg_cong [where f = length] filter_cong) simp_all
qed

end
