(* ===== verification/RoutingProperties.thy ===== *)
theory RoutingProperties
  imports RoutingSafety RoutingFair
begin

text \<open>
  The properties of the routing engine (\<^verbatim>\<open>internal/routing\<close>), each with a concrete instance: what
  a decision is, which route, settings and candidate it comes from, how the strategies share the
  load, and what a validated configuration can still do wrong.
\<close>

section \<open>A small deployment\<close>

definition ex_backend :: "string \<Rightarrow> int \<Rightarrow> int \<Rightarrow> backend" where
  "ex_backend h port w = \<lparr>b_host = h, b_port = port, b_weight = w, b_meta = Map.empty\<rparr>"

definition ex_pool :: "string \<Rightarrow> string \<Rightarrow> pool" where
  "ex_pool strategy key =
     \<lparr>p_strategy = strategy, p_key = key, p_sample = 0, p_sort = [], p_limit = 0, p_filters = [],
      p_fallback = [], p_backends = [ex_backend ''a'' 5520 3, ex_backend ''b'' 5521 1], p_discovery = None\<rparr>"

definition ex_route :: "string \<Rightarrow> pool \<Rightarrow> route" where
  "ex_route h p = \<lparr>r_match = \<lparr>m_hostname = h, m_hostnames = []\<rparr>, r_pool = p\<rparr>"

definition ex_config :: routing_config where
  "ex_config = \<lparr>rc_default = Some (ex_pool ''least_loaded'' ''port''),
     rc_routes = [ex_route ''Play.Example.com'' (ex_pool ''round_robin'' []),
                  ex_route ''*.example.com'' (ex_pool ''p2c'' ''weight'')]\<rparr>"

definition ex_engine :: engine where
  "ex_engine = new_static_engine ex_config (\<lambda>q. snd (prod_decode q))"

definition ex_request :: "string \<Rightarrow> request" where
  "ex_request h = \<lparr>req_sni = h, req_uuid = ''u1'', req_username = ''bob'', req_language = ''en-US''\<rparr>"

lemmas ex_defs = ex_backend_def ex_pool_def ex_route_def ex_config_def ex_engine_def ex_request_def
  new_static_engine_def

lemma ex_pool_simps [simp]:
  "p_strategy (ex_pool s k) = s" "p_key (ex_pool s k) = k" "p_sample (ex_pool s k) = 0"
  "p_sort (ex_pool s k) = []" "p_limit (ex_pool s k) = 0" "p_filters (ex_pool s k) = []"
  "p_fallback (ex_pool s k) = []" "p_discovery (ex_pool s k) = None"
  "p_backends (ex_pool s k) = [ex_backend ''a'' 5520 3, ex_backend ''b'' 5521 1]"
  by (simp_all add: ex_pool_def)

lemma ex_valid: "validate_routing ex_config = None"
  by (simp add: ex_defs validate_routing_def validate_pool_def strategies_def keyed_strategy_def
      validate_backend_def validate_target_def backend_target_def string_eval)

lemma ex_engine_simps [simp]: "e_cfg ex_engine = ex_config" "fair ex_engine" "engine_ok ex_engine"
  "e_rr ex_engine = [0, 0]"
proof -
  show "e_cfg ex_engine = ex_config" "engine_ok ex_engine" "e_rr ex_engine = [0, 0]"
    by (simp_all add: ex_engine_def new_static_engine_def ex_config_def engine_ok_def numeral_2_eq_2)
  show "fair ex_engine" by (rule fair_prod_decode) (simp add: ex_engine_def new_static_engine_def)
qed

lemma ex_first_route:
  "first_route 0 (canonical_host ''play.example.com'') (rc_routes ex_config) = Some (0, ex_route ''Play.Example.com'' (ex_pool ''round_robin'' []))"
  by (simp add: ex_config_def route_matches_def match_patterns_def ex_route_def hostname_matches_def
      canonical_host_def string_eval)

lemma ex_configs: "pool_configs (ex_pool s k) = [selection_config_from_pool (ex_pool s k)]"
  by (simp add: pool_configs_def ex_pool_def)

lemma ex_decide_play:
  "decide None 0 (ex_request ''play.example.com'') ex_engine = Some (Inr
    \<lparr>d_matched = True, d_route_index = 0, d_strategy = ''round_robin'',
     d_candidates = [ex_backend ''a'' 5520 3, ex_backend ''b'' 5521 1],
     d_selected_index = 0, d_backend = ex_backend ''a'' 5520 3\<rparr>,
    bump_counter (RouteCounter 0) ex_engine)"
  by (simp add: decide_def ex_first_route ex_request_def decide_pool_def resolve_candidates_def
      ex_route_def select_candidates_def ex_configs select_with_config_def selection_config_from_pool_def
      Let_def apply_filters_eq apply_sort_def limit_candidates_def select_index_def select_round_robin_def
      backend_at_def)


section \<open>Decisions\<close>

text \<open>C5: Every decision is well formed, whatever the configuration: unless nothing applies, it has
  candidates, its index is in range, and its backend is the candidate at that index; it is matched
  exactly when it names a route.\<close>

theorem decision_well_formed:
  assumes "decide disc now req e = Some (Inr d, e')"
  shows "d = no_decision \<or>
    (d_candidates d \<noteq> [] \<and> 0 \<le> d_selected_index d \<and> d_selected_index d < int (length (d_candidates d)) \<and>
     d_backend d = d_candidates d ! nat (d_selected_index d) \<and>
     (d_matched d \<longleftrightarrow> 0 \<le> d_route_index d) \<and> - 1 \<le> d_route_index d)"
proof (cases "routed (e_cfg e) req")
  case None
  with assms show ?thesis by (simp add: decide_routed)
next
  case (Some cp)
  with assms show ?thesis using decide_pool_decision_ok
    by (auto simp: decide_routed decision_ok_def split: prod.splits)
qed

theorem decision_well_formed_witness:
  "\<exists>d. fst (the (decide None 0 (ex_request ''play.example.com'') ex_engine)) = Inr d \<and>
     d_backend d = d_candidates d ! nat (d_selected_index d)"
  using decision_well_formed [OF ex_decide_play]
  by (intro exI [of _ "projr (fst (the (decide None 0 (ex_request ''play.example.com'') ex_engine)))"])
    (simp add: ex_decide_play no_decision_def)

text \<open>C17: The first route with a pattern that matches the canonical host name decides: a decision is
  matched exactly when some route matches, and then it names the first such route and its candidates
  are among those that route's pool resolves to.\<close>

theorem decision_first_route:
  assumes "decide disc now req e = Some (Inr d, e')"
  defines "sni \<equiv> canonical_host (req_sni req)" and "routes \<equiv> rc_routes (e_cfg e)"
  shows "(d_matched d \<longleftrightarrow> (\<exists>r \<in> set routes. \<exists>p \<in> set (match_patterns (r_match r)). hostname_matches p sni)) \<and>
    (d_matched d \<longrightarrow> (\<exists>i < length routes. \<exists>bs. d_route_index d = int i \<and>
       route_matches sni (routes ! i) \<and> (\<forall>j < i. \<not> route_matches sni (routes ! j)) \<and>
       resolve_candidates disc (r_pool (routes ! i)) = Inr bs \<and> set (d_candidates d) \<subseteq> set bs))"
proof (cases "first_route 0 sni routes")
  case None
  then have "\<not> d_matched d" using assms
    by (auto simp: decide_def no_decision_def split: option.splits elim!: decide_pool_ok)
  with None show ?thesis by (simp add: first_route_None route_matches_def list_ex_iff)
next
  case (Some ir)
  then obtain i r where ir: "first_route 0 sni routes = Some (i, r)" by (cases ir) auto
  with assms have "decide_pool disc now req (r_pool r) (RouteCounter i) True (int i) e = Some (Inr d, e')"
    by (simp add: decide_def)
  then show ?thesis
  proof (rule decide_pool_ok)
    fix bs c assume *: "resolve_candidates disc (r_pool r) = Inr bs" "d_candidates d = offered now req c bs"
      "d_matched d = True" "d_route_index d = int i"
    have "set (d_candidates d) \<subseteq> set bs"
      using *(2) set_offered [of now req c bs] by (auto simp: apply_filters_eq)
    with * ir show ?thesis
      by (fastforce simp: first_route_spec route_matches_def list_ex_iff)
  qed
qed

theorem decision_first_route_witness:
  "\<exists>i < length (rc_routes (e_cfg ex_engine)).
     route_matches (canonical_host (req_sni (ex_request ''play.example.com''))) (rc_routes (e_cfg ex_engine) ! i)"
  using decision_first_route [OF ex_decide_play] by auto

text \<open>C18: Fallbacks are alternatives, not retries: with some candidates at hand, the settings that
  decide are the first, of the pool's own and then its fallbacks', whose filters keep a candidate;
  if none does, the answer is \<open>ErrNoBackends\<close> and no counter or random draw is used.\<close>

theorem fallbacks_first_offer:
  "select_candidates now req p bs rr e =
     (case find (\<lambda>c. apply_filters now req bs (sc_filters c) \<noteq> []) (pool_configs p) of
        None \<Rightarrow> Some (Inl ErrNoBackends, e)
      | Some c \<Rightarrow> select_with_config now req c bs rr e)"
  using select_candidates_deciding [of now req p bs rr e]
  by (simp add: deciding_config_def offered_eq_Nil)

text \<open>C25: What the settings in force offer to the strategy: a prefix, not longer than a positive
  limit, of the filtered candidates in a stable sorted order; nothing is invented or duplicated.\<close>

theorem candidates_filtered_sorted_limited:
  assumes "select_with_config now req c bs rr e = Some (Inr (cands, i), e')"
  defines "kept \<equiv> filter (\<lambda>b. \<forall>f \<in> set (sc_filters c). filter_matches now req b f) bs"
  shows "\<exists>ranked. mset ranked = mset kept \<and> cands \<noteq> [] \<and>
     cands = (if 0 < sc_limit c then take (nat (sc_limit c)) ranked else ranked) \<and>
     (list_all (no_nan (sc_sort c)) kept \<longrightarrow>
        sorted_wrt (\<lambda>a b. \<not> sort_less (sc_sort c) b a) ranked \<and>
        (\<forall>a \<in> set kept. filter (\<lambda>x. \<not> sort_less (sc_sort c) a x \<and> \<not> sort_less (sc_sort c) x a) ranked =
           filter (\<lambda>x. \<not> sort_less (sc_sort c) a x \<and> \<not> sort_less (sc_sort c) x a) kept))"
proof -
  let ?ranked = "apply_sort kept (sc_sort c)"
  have off: "offered now req c bs = limit_candidates (sc_limit c) ?ranked"
    by (simp add: offered_def kept_def apply_filters_eq)
  have ne: "offered now req c bs \<noteq> []" using assms(1) select_with_config_Nil by fastforce
  with assms(1) have cands: "cands = limit_candidates (sc_limit c) ?ranked"
    by (auto simp: select_with_config_offered off split: option.splits prod.splits sum.splits)
  have "limit_candidates (sc_limit c) ?ranked =
      (if 0 < sc_limit c then take (nat (sc_limit c)) ?ranked else ?ranked)"
    by (auto simp: limit_candidates_def)
  with cands ne off show ?thesis using apply_sort_ordered apply_sort_stable
    by (intro exI [of _ ?ranked]) (auto simp: list_all_iff)
qed

definition ex_limited :: selection_config where
  "ex_limited = \<lparr>sc_strategy = ''round_robin'', sc_key = [], sc_sample = 0, sc_sort = [],
     sc_limit = 1, sc_filters = []\<rparr>"

theorem candidates_filtered_sorted_limited_witness:
  "\<exists>ranked. mset ranked = mset [ex_backend ''a'' 1 1, ex_backend ''b'' 2 1] \<and>
     [ex_backend ''a'' 1 1] = take 1 ranked"
proof -
  have "select_with_config 0 (ex_request []) ex_limited [ex_backend ''a'' 1 1, ex_backend ''b'' 2 1]
      DefaultCounter ex_engine = Some (Inr ([ex_backend ''a'' 1 1], 0), bump_counter DefaultCounter ex_engine)"
    by (simp add: select_with_config_def ex_limited_def apply_filters_eq apply_sort_def Let_def
        limit_candidates_def select_index_def select_round_robin_def)
  from candidates_filtered_sorted_limited [OF this] show ?thesis by (auto simp: ex_limited_def)
qed

section \<open>Strategies\<close>

text \<open>C19: Round robin is fair under any interleaving of calls: as long as the route's counter does not
  wrap and its pool offers \<open>n\<close> candidates, of the \<open>m\<close> decisions of the route every index below \<open>n\<close>
  gets \<open>m div n\<close> or \<open>m div n + 1\<close>.\<close>

theorem round_robin_fair:
  assumes "run_decides calls e = Some (rs, e')" "engine_ok e" "i < length (rc_routes (e_cfg e))"
    and "\<forall>c \<in> set (pool_configs (r_pool (rc_routes (e_cfg e) ! i))). sc_strategy c = ''round_robin''"
    and "\<forall>d \<in> set (route_decisions i rs). length (d_candidates d) = n"
    and "unat (e_rr e ! i) + length (route_decisions i rs) \<le> 2 ^ 64" "j < n"
  shows "length (route_decisions i rs) div n \<le> picked j (route_decisions i rs) \<and>
    picked j (route_decisions i rs) \<le> length (route_decisions i rs) div n + 1"
  using picked_residues [OF assms(1-3) _ assms(5,6)] assms(4) residue_count_bounds [OF assms(7)]
  by (simp add: round_robin_pool_def)

theorem round_robin_fair_witness:
  "\<exists>rs e'. run_decides [(None, 0, ex_request ''play.example.com'')] ex_engine = Some (rs, e') \<and>
     picked 1 (route_decisions 0 rs) \<le> 1"
proof -
  obtain d e' where d: "decide None 0 (ex_request ''play.example.com'') ex_engine = Some (Inr d, e')"
    "d_matched d" "d_route_index d = 0" "length (d_candidates d) = 2"
    by (simp add: ex_decide_play)
  then have run: "run_decides [(None, 0, ex_request ''play.example.com'')] ex_engine = Some ([Inr d], e')" by simp
  have ds: "route_decisions 0 [Inr d] = [d]" using d by (simp add: route_decisions_def for_route_def)
  have "picked 1 (route_decisions 0 [Inr d]) \<le> length (route_decisions 0 [Inr d]) div 2 + 1"
    using round_robin_fair [OF run, of 0 2 1] d
    by (simp add: ds ex_config_def ex_route_def ex_configs selection_config_from_pool_def)
  with run ds show ?thesis by auto
qed

text \<open>C24: Weighted selection is proportional: if the weights do not overflow, exactly as many of the
  equally likely draws below the total weight select a candidate as its weight says, a weight that is
  not positive counting as one.\<close>

theorem weighted_proportional:
  assumes "sum_list (map eff_weight bs) < 2 ^ 63" "i < length bs"
  shows "card {r \<in> {0 ..< total_weight bs}. weighted_index r bs = int i} = nat (eff_weight (bs ! i))"
  using assms weighted_draws by (simp add: weights_fit_def)

theorem weighted_proportional_witness:
  "card {r \<in> {0 ..< total_weight [ex_backend ''a'' 1 3, ex_backend ''b'' 2 0]}.
     weighted_index r [ex_backend ''a'' 1 3, ex_backend ''b'' 2 0] = int 0} = 3"
  using weighted_proportional [of "[ex_backend ''a'' 1 3, ex_backend ''b'' 2 0]" 0]
  by (simp add: eff_weight_def ex_backend_def)

text \<open>Least loaded picks, deterministically, the first candidate whose value of the key is least; a
  candidate without a number counts as infinitely loaded.\<close>

theorem least_loaded_first_minimum:
  assumes "bs \<noteq> []" "select_least_loaded key bs e = Some (Inr i, e')"
  shows "e' = e \<and> (\<exists>j < length bs. i = int j \<and>
    (\<forall>k < length bs. \<not> f64_lt (load_of (trim_space key) (bs ! k)) (load_of (trim_space key) (bs ! j))) \<and>
    (\<forall>k < j. load_of (trim_space key) (bs ! k) \<noteq> NaN \<longrightarrow>
       f64_lt (load_of (trim_space key) (bs ! j)) (load_of (trim_space key) (bs ! k))))"
  using select_least_loaded_spec [OF assms] by (auto simp: least_among_def)

theorem least_loaded_first_minimum_witness:
  "\<exists>j < 2. \<forall>k < 2. \<not> f64_lt (load_of ''weight'' ([ex_backend ''a'' 1 3, ex_backend ''b'' 2 1] ! k))
     (load_of ''weight'' ([ex_backend ''a'' 1 3, ex_backend ''b'' 2 1] ! j))"
proof -
  have t: "trim_space ''weight'' = ''weight''" by (simp add: string_eval)
  obtain i where "select_least_loaded ''weight'' [ex_backend ''a'' 1 3, ex_backend ''b'' 2 1] ex_engine =
      Some (Inr i, ex_engine)" by (simp add: select_least_loaded_def t Let_def)
  from least_loaded_first_minimum [OF _ this] show ?thesis by (auto simp: t numeral_2_eq_2)
qed

text \<open>C20: Power of \<open>k\<close> choices picks a candidate of least load in a sample of the configured number of
  different candidates (two if not positive, all if there are fewer); when no candidate of the sample
  has a load below infinity the index is 0.\<close>

theorem p2c_least_of_sample:
  assumes "bs \<noteq> []" "select_p2c key n bs e = Some (Inr i, e')"
  shows "\<exists>S \<subseteq> {..<length bs}. int (card S) = min (if n \<le> 0 then 2 else n) (int (length bs)) \<and>
    (if \<forall>c \<in> S. \<not> f64_lt (load_of (trim_space key) (bs ! c)) PosInf then i = 0
     else nat i \<in> S \<and> 0 \<le> i \<and>
       (\<forall>c \<in> S. \<not> f64_lt (load_of (trim_space key) (bs ! c)) (load_of (trim_space key) (bs ! nat i))))"
proof -
  from select_p2c_spec [OF assms] obtain j S where "i = int j" "S \<subseteq> {..<length bs}"
    "int (card S) = sample_size n bs"
    "if \<forall>c \<in> S. \<not> f64_lt (loads (trim_space key) bs c) PosInf then j = 0
     else j \<in> S \<and> least_among (trim_space key) bs S j" by blast
  then show ?thesis
    by (intro exI [of _ S]) (auto simp: sample_size_def least_among_def split: if_splits)
qed

theorem p2c_least_of_sample_witness:
  "\<exists>i e'. select_p2c ''weight'' 1 [ex_backend ''a'' 1 3] ex_engine = Some (Inr i, e') \<and> i = 0"
proof -
  have t: "trim_space ''weight'' = ''weight''" by (simp add: string_eval)
  have "fair_draws 1 ex_engine" using ex_engine_simps(2) by (simp add: fair_def)
  then obtain i e' where r: "select_p2c ''weight'' 1 [ex_backend ''a'' 1 3] ex_engine = Some (Inr i, e')"
    using p2c_loop_ends [of 1 "[ex_backend ''a'' 1 3]" ex_engine "''weight''" "[]" PosInf "- 1"]
    by (auto simp: select_p2c_def Let_def t sample_size_def)
  from p2c_least_of_sample [OF _ r] have "i = 0" by (fastforce split: if_splits)
  with r show ?thesis by blast
qed


section \<open>Errors, termination, safety\<close>

text \<open>C21: \<open>Decide\<close> always ends, the rejection loop of p2c included, if the random generator does not
  for ever avoid an index.\<close>

theorem decide_terminates:
  assumes "\<forall>n. \<forall>i < n. \<forall>p. \<exists>q \<ge> p. e_rng e q mod n = i"
  shows "\<exists>r e'. decide disc now req e = Some (r, e')"
  using assms by (intro decide_ends) (simp add: fair_def fair_draws_def)

theorem decide_terminates_witness: "\<exists>r e'. decide None 0 (ex_request ''x.example.com'') ex_engine = Some (r, e')"
  using ex_engine_simps(2) by (intro decide_terminates) (simp add: fair_def fair_draws_def)






text \<open>A decision of a validated configuration for a pool without discovery names a configured
  backend, with a host and a port from 1 to 65535.\<close>

theorem validated_backend_address:
  assumes "validate_routing (e_cfg e) = None" "routed (e_cfg e) req = Some (c, p)" "p_discovery p = None"
    and "decide disc now req e = Some (Inr d, e')"
  shows "d_backend d \<in> set (p_backends p) \<and> b_host (d_backend d) \<noteq> [] \<and>
    0 < b_port (d_backend d) \<and> b_port (d_backend d) \<le> 65535"
  using assms by (rule decide_valid_backend)

theorem validated_backend_address_witness:
  "ex_backend ''a'' 5520 3 \<in> set (p_backends (ex_pool ''round_robin'' []))"
proof -
  have "routed (e_cfg ex_engine) (ex_request ''play.example.com'') = Some (RouteCounter 0, ex_pool ''round_robin'' [])"
    using ex_first_route by (simp add: routed_def ex_request_def ex_route_def)
  from validated_backend_address [OF _ this _ ex_decide_play] show ?thesis by (simp add: ex_valid)
qed

text \<open>C23: A whitelist is enforced end to end: if all settings of the pool, its fallbacks included, have
  the whitelist filter, then no candidate of a decision enables its whitelist without listing the
  client's non-empty identity.\<close>

theorem whitelist_enforced:
  assumes "routed (e_cfg e) req = Some (c, p)" "decide disc now req e = Some (Inr d, e')"
    and "\<forall>sc \<in> set (pool_configs p). f \<in> set (sc_filters sc)"
    and "normalize_strategy (f_type f) = ''whitelist''"
    and "b \<in> set (d_candidates d)"
    and "truthy (to_lower (trim_space (meta_get (b_meta b) (trim_space (f_enabled_key f)))))"
  shows "whitelist_subject req f \<noteq> [] \<and>
    list_contains (meta_get (b_meta b) (trim_space (f_list_key f))) (whitelist_subject req f)"
proof -
  from assms(1,2) have "decide_pool disc now req p c (c \<noteq> DefaultCounter) (counter_index c) e = Some (Inr d, e')"
    by (simp add: decide_routed)
  then have "filter_matches now req b f"
  proof (rule decide_pool_ok)
    fix bs sc assume "deciding_config now req p bs = Some sc" "d_candidates d = offered now req sc bs"
    with assms(3,5) set_offered [of now req sc bs] deciding_config_some(1) show ?thesis
      by (auto simp: apply_filters_eq)
  qed
  with whitelist_enabled [OF assms(4,6)] show ?thesis by blast
qed

definition ex_whitelist :: filter_cfg where
  "ex_whitelist = \<lparr>f_type = ''whitelist'', f_subject = ''username'', f_left = [], f_op = [], f_right = [],
     f_enabled_key = ''on'', f_list_key = ''list'', f_key = []\<rparr>"

definition ex_private :: backend where
  "ex_private = \<lparr>b_host = ''p'', b_port = 1, b_weight = 1, b_meta = [''on'' \<mapsto> ''true'', ''list'' \<mapsto> ''bob'']\<rparr>"

definition ex_private_config :: routing_config where
  "ex_private_config = \<lparr>rc_default = Some ((ex_pool ''round_robin'' [])
     \<lparr>p_filters := [ex_whitelist], p_backends := [ex_private]\<rparr>), rc_routes = []\<rparr>"


lemma normalize_username [simp]: "normalize_strategy ''username'' = ''username''"
  by (rule normalize_keyword) (simp add: keyword_char_def plain_char_def)

lemma ex_private_matches: "filter_matches 0 (ex_request []) ex_private ex_whitelist"
  by (simp add: filter_matches_def whitelist_matches_def ex_whitelist_def ex_private_def ex_request_def
      meta_get_def truthy_def list_contains_def Let_def string_eval)

theorem whitelist_enforced_witness: "list_contains ''bob'' ''bob''"
proof -
  let ?e = "new_static_engine ex_private_config (\<lambda>_. 0)"
  let ?p = "(ex_pool ''round_robin'' []) \<lparr>p_filters := [ex_whitelist], p_backends := [ex_private]\<rparr>"
  have r: "routed (e_cfg ?e) (ex_request []) = Some (DefaultCounter, ?p)"
    by (simp add: routed_def new_static_engine_def ex_private_config_def)
  obtain d e' where d: "decide None 0 (ex_request []) ?e = Some (Inr d, e')" "d_candidates d = [ex_private]"
    by (simp add: decide_def new_static_engine_def ex_private_config_def decide_pool_def resolve_candidates_def
        select_candidates_def pool_configs_def selection_config_from_pool_def select_with_config_def
        apply_filters_def ex_private_matches Let_def limit_candidates_def apply_sort_def select_index_def
        select_round_robin_def)
  from whitelist_enforced [OF r d(1), of ex_whitelist ex_private] d(2) show ?thesis
    by (simp add: pool_configs_def selection_config_from_pool_def ex_whitelist_def ex_private_def meta_get_def
        truthy_def whitelist_subject_def ex_request_def string_eval)
qed

section \<open>Candidates and host names\<close>



text \<open>C32: A pattern of literal characters and stars matches a host name exactly when the canonical
  pattern, with every star standing for any run of characters without a slash, is the host name.\<close>

theorem hostname_pattern_meaning:
  assumes "literal_pattern (canonical_host p)"
  shows "hostname_matches p h \<longleftrightarrow> canonical_host p \<noteq> [] \<and> h \<noteq> [] \<and> glob (canonical_host p) h"
  using assms by (rule hostname_matches_glob)

theorem hostname_pattern_meaning_witness:
  "hostname_matches ''*.Example.com'' ''eu.example.com'' \<and> \<not> hostname_matches ''*.Example.com'' ''example.com''"
  using hostname_pattern_meaning [of "''*.Example.com''" "''eu.example.com''"]
    hostname_pattern_meaning [of "''*.Example.com''" "''example.com''"]
  by (simp add: canonical_host_def literal_char_def string_eval)

end
