(* ===== verification/GoBinary.thy ===== *)
theory GoBinary
  imports HyPrelude "HOL-Library.Monad_Syntax"
begin

text \<open>
  Byte slices and package \<^verbatim>\<open>encoding/binary\<close>. Reading a slice out of range panics in Go: \<open>byte_at\<close>
  and \<open>slice\<close> return \<open>None\<close> there, so that a function of the model is \<open>None\<close> where the code
  panics. (Go lets a slice expression reach into the capacity beyond the length; the model panics.)
  Indices are Go's \<open>int\<close>; the sums formed by the code stay far below \<open>2 ^ 63\<close>.
\<close>

section \<open>Slices\<close>

definition byte_at :: "bytes \<Rightarrow> int \<Rightarrow> byte option" where
  "byte_at b i = (if 0 \<le> i \<and> i < int (length b) then Some (b ! nat i) else None)"

definition slice :: "bytes \<Rightarrow> int \<Rightarrow> int \<Rightarrow> bytes option" where
  "slice b lo hi =
     (if 0 \<le> lo \<and> lo \<le> hi \<and> hi \<le> int (length b) then Some (take (nat (hi - lo)) (drop (nat lo) b)) else None)"

lemma byte_at_some: "0 \<le> i \<Longrightarrow> i < int (length b) \<Longrightarrow> byte_at b i = Some (b ! nat i)"
  by (simp add: byte_at_def)

lemma slice_some: "0 \<le> lo \<Longrightarrow> lo \<le> hi \<Longrightarrow> hi \<le> int (length b) \<Longrightarrow>
    slice b lo hi = Some (take (nat (hi - lo)) (drop (nat lo) b))"
  by (simp add: slice_def)

lemma slice_length: "slice b lo hi = Some s \<Longrightarrow> int (length s) = hi - lo"
  by (auto simp: slice_def split: if_splits)

text \<open>A slice that lies inside one part of a concatenation.\<close>

lemma slice_mid: "slice (a @ s @ c) (int (length a)) (int (length a + length s)) = Some s"
  by (simp add: slice_def)

lemma byte_at_mid: "byte_at (a @ x # c) (int (length a)) = Some x"
  by (simp add: byte_at_def)

section \<open>Byte order\<close>

fun le_bytes :: "nat \<Rightarrow> nat \<Rightarrow> bytes" where
  "le_bytes 0 n = []"
| "le_bytes (Suc k) n = of_nat n # le_bytes k (n div 256)"

fun le_value :: "bytes \<Rightarrow> nat" where
  "le_value [] = 0"
| "le_value (b # bs) = unat b + 256 * le_value bs"

lemma length_le_bytes [simp]: "length (le_bytes k n) = k"
  by (induction k arbitrary: n) simp_all

lemma unat_of_nat_byte: "unat (of_nat n :: byte) = n mod 256"
  by (simp add: unat_of_nat)

lemma le_value_bytes: "le_value (le_bytes k n) = n mod 256 ^ k"
proof (induction k arbitrary: n)
  case (Suc k)
  have "n mod 256 ^ Suc k = n mod 256 + 256 * (n div 256 mod 256 ^ k)"
    by (simp add: mod_mult2_eq)
  with Suc show ?case by (simp add: unat_of_nat_byte)
qed simp

lemma unat_byte_less: "unat (b :: byte) < 256"
  using unsigned_less [of b] by simp

lemma le_bytes_value: "le_bytes (length bs) (le_value bs) = bs"
proof (induction bs)
  case (Cons b bs)
  have "(unat b + 256 * le_value bs) div 256 = le_value bs" using unat_byte_less [of b] by simp
  moreover have "(of_nat (unat b + 256 * le_value bs) :: byte) = b"
  proof -
    have "(unat b + 256 * le_value bs) mod 256 = unat b" using unat_byte_less [of b] by simp
    then have "unat (of_nat (unat b + 256 * le_value bs) :: byte) = unat b" by (simp only: unat_of_nat_byte)
    then show ?thesis by (rule word_unat_eq_iff [THEN iffD2])
  qed
  ultimately show ?case using Cons by (simp del: of_nat_add of_nat_mult)
qed simp

lemma le_value_less: "le_value bs < 256 ^ length bs"
proof -
  have "le_value bs = le_value bs mod 256 ^ length bs"
    using le_value_bytes [of "length bs" "le_value bs"] by (simp only: le_bytes_value)
  then show ?thesis by (metis mod_less_divisor zero_less_numeral zero_less_power)
qed

text \<open>\<open>PutUint16\<close>, \<open>PutUint32\<close> little endian, \<open>PutUint64\<close> big endian, and the readers.\<close>

definition put_u16 :: "u16 \<Rightarrow> bytes" where
  "put_u16 w = le_bytes 2 (unat w)"

definition put_u32 :: "u32 \<Rightarrow> bytes" where
  "put_u32 w = le_bytes 4 (unat w)"

definition put_u64_be :: "u64 \<Rightarrow> bytes" where
  "put_u64_be w = rev (le_bytes 8 (unat w))"

definition get_u16 :: "bytes \<Rightarrow> u16" where
  "get_u16 b = of_nat (le_value b)"

definition get_u32 :: "bytes \<Rightarrow> u32" where
  "get_u32 b = of_nat (le_value b)"

definition get_u64_be :: "bytes \<Rightarrow> u64" where
  "get_u64_be b = of_nat (le_value (rev b))"

lemma put_length [simp]: "length (put_u16 v) = 2" "length (put_u32 w) = 4" "length (put_u64_be x) = 8"
  by (simp_all add: put_u16_def put_u32_def put_u64_be_def)

lemma get_put_u16 [simp]: "get_u16 (put_u16 w) = w"
proof -
  have "unat w < 256 ^ 2" using unsigned_less [of w] by simp
  then show ?thesis by (simp add: get_u16_def put_u16_def le_value_bytes)
qed

lemma get_put_u32 [simp]: "get_u32 (put_u32 w) = w"
proof -
  have "unat w < 256 ^ 4" using unsigned_less [of w] by simp
  then show ?thesis by (simp add: get_u32_def put_u32_def le_value_bytes)
qed

lemma get_u16_eq: "length b = 2 \<Longrightarrow> unat (get_u16 b) = le_value b"
  using le_value_less [of b] by (simp add: get_u16_def unat_of_nat)

lemma get_u32_eq: "length b = 4 \<Longrightarrow> unat (get_u32 b) = le_value b"
  using le_value_less [of b] by (simp add: get_u32_def unat_of_nat)

lemma put_get_u64_be: "length b = 8 \<Longrightarrow> put_u64_be (get_u64_be b) = b"
proof -
  assume len: "length b = 8"
  have "unat (get_u64_be b) = le_value (rev b)"
    using le_value_less [of "rev b"] len by (simp add: get_u64_be_def unat_of_nat)
  then show ?thesis using le_bytes_value [of "rev b"] len by (simp add: put_u64_be_def)
qed

lemma put_get_u32: "length b = 4 \<Longrightarrow> put_u32 (get_u32 b) = b"
  using le_bytes_value [of b] by (simp add: put_u32_def get_u32_eq)

text \<open>\<open>int(int32(...))\<close> of a little-endian word.\<close>

definition get_i32 :: "bytes \<Rightarrow> int" where
  "get_i32 b = sint (get_u32 b)"

lemma get_i32_range: "- (2 ^ 31) \<le> get_i32 b \<and> get_i32 b < 2 ^ 31"
  using sint_greater_eq [of "get_u32 b"] sint_less [of "get_u32 b"] by (simp add: get_i32_def)

lemma get_i32_put: "- (2 ^ 31) \<le> i \<Longrightarrow> i < 2 ^ 31 \<Longrightarrow> get_i32 (put_u32 (of_int i)) = i"
  by (simp add: get_i32_def signed_of_int signed_take_bit_int_eq_self)

end
