(* ===== verification/HytaleCodec.thy ===== *)
theory HytaleCodec
  imports GoBinary
begin

text \<open>
  \<^verbatim>\<open>internal/server/hytale_codec.go\<close>: the packets of the Hytale protocol that the router writes
  (frames, Disconnect, ClientReferral) and the Connect packet it reads. A function that can panic
  returns an option, \<open>None\<close> where a slice expression is out of range; the property that the
  decoders never do is \<open>decode_connect_total\<close>.
\<close>

section \<open>Errors and constants\<close>

datatype codec_error = HostEmptyE | HostTooLong | DataTooLong | StringTooLong | NegativeVarInt | ReferralTooSmall

definition max_hytale_payload_len :: int where
  "max_hytale_payload_len = 1677721600"

definition max_debug_buffered_payload :: int where
  "max_debug_buffered_payload = 16 * 1024 * 1024"

section \<open>Variable-length integers\<close>

text \<open>The loop of \<open>writeVarInt\<close>; the mask has the bits 7 to 31.\<close>

function write_var_int_loop :: "nat \<Rightarrow> bytes" where
  "write_var_int_loop n =
     (if n AND 0xFFFFFF80 \<noteq> 0 then of_nat (n AND 0x7F OR 0x80) # write_var_int_loop (drop_bit 7 n)
      else [of_nat n])"
  by pat_completeness auto

lemma varint_mask: "(n AND 0xFFFFFF80 :: nat) = push_bit 7 (drop_bit 7 (take_bit 32 n))"
proof -
  have m: "(0xFFFFFF80 :: nat) = push_bit 7 (mask 25)"
    by (simp add: mask_eq_exp_minus_1 push_bit_eq_mult)
  show ?thesis unfolding m
    by (rule bit_eqI) (auto simp: bit_simps)
qed

termination write_var_int_loop
proof (relation "measure id")
  fix n :: nat assume "n AND 0xFFFFFF80 \<noteq> 0"
  then have "n \<noteq> 0" by (metis zero_and_eq)
  then show "(drop_bit 7 n, n) \<in> measure id" by (simp add: drop_bit_eq_div)
qed simp

declare write_var_int_loop.simps [simp del]

definition write_var_int :: "bytes \<Rightarrow> int \<Rightarrow> codec_error + bytes" where
  "write_var_int w value =
     (if value < 0 then Inl NegativeVarInt else Inr (w @ write_var_int_loop (nat value)))"

fun read_var_int_loop :: "nat \<Rightarrow> bytes \<Rightarrow> int \<Rightarrow> int \<Rightarrow> int \<Rightarrow> nat \<Rightarrow> (int \<times> int \<times> bool) option" where
  "read_var_int_loop 0 b pos sz val shift = Some (0, 0, False)"
| "read_var_int_loop (Suc k) b pos sz val shift =
     (if int (length b) \<le> pos + sz then Some (0, 0, False)
      else do {
        c \<leftarrow> byte_at b (pos + sz);
        let val' = val OR push_bit shift (uint (c AND 0x7F));
        if c AND 0x80 = 0 then Some (val', sz + 1, True)
        else read_var_int_loop k b pos (sz + 1) val' (shift + 7)
      })"

definition read_var_int :: "bytes \<Rightarrow> int \<Rightarrow> (int \<times> int \<times> bool) option" where
  "read_var_int b pos =
     (if pos < 0 \<or> int (length b) \<le> pos then Some (0, 0, False) else read_var_int_loop 5 b pos 0 0 0)"

section \<open>Strings and host addresses\<close>

definition write_var_string :: "bytes \<Rightarrow> string \<Rightarrow> int \<Rightarrow> codec_error + bytes" where
  "write_var_string w s max_len =
     (let b = bytes_of_string s in
      if max_len < int (length b) then Inl StringTooLong
      else (case write_var_int w (int (length b)) of Inl e \<Rightarrow> Inl e | Inr w' \<Rightarrow> Inr (w' @ b)))"

definition read_var_string :: "bytes \<Rightarrow> int \<Rightarrow> int \<Rightarrow> (string \<times> int \<times> bool) option" where
  "read_var_string b pos max_len = do {
     (l, lsz, ok) \<leftarrow> read_var_int b pos;
     if \<not> ok \<or> l < 0 \<or> max_len < l then Some ([], 0, False)
     else let start = pos + lsz; stop = start + l in
       if start < 0 \<or> int (length b) < stop then Some ([], 0, False)
       else do { s \<leftarrow> slice b start stop; Some (string_of_bytes s, lsz + l, True) }
   }"

record host_address =
  ha_host :: string
  ha_port :: u16

definition write_host_address :: "bytes \<Rightarrow> string \<Rightarrow> u16 \<Rightarrow> codec_error + bytes" where
  "write_host_address w host port = write_var_string (w @ put_u16 port) host 256"

definition decode_host_address :: "bytes \<Rightarrow> int \<Rightarrow> (host_address \<times> int \<times> bool) option" where
  "decode_host_address b pos =
     (if pos < 0 \<or> int (length b) < pos + 2 then Some (\<lparr>ha_host = [], ha_port = 0\<rparr>, 0, False)
      else do {
        p \<leftarrow> slice b pos (pos + 2);
        (host, sz, ok) \<leftarrow> read_var_string b (pos + 2) 256;
        if \<not> ok then Some (\<lparr>ha_host = [], ha_port = 0\<rparr>, 0, False)
        else Some (\<lparr>ha_host = host, ha_port = get_u16 p\<rparr>, 2 + sz, True)
      })"

section \<open>Packets the router writes\<close>

definition frame :: "u32 \<Rightarrow> bytes \<Rightarrow> bytes" where
  "frame packet_id payload = put_u32 (of_nat (length payload)) @ put_u32 packet_id @ payload"

definition encode_disconnect_payload :: "string \<Rightarrow> codec_error + bytes" where
  "encode_disconnect_payload reason =
     (if reason = [] then Inr [0, 0] else write_var_string [0x01, 0] reason 4096000)"

definition set_int32_le :: "bytes \<Rightarrow> nat \<Rightarrow> int \<Rightarrow> bytes" where
  "set_int32_le b pos v = take pos b @ put_u32 (of_int v) @ drop (pos + 4) b"

text \<open>A nil \<open>data\<close> is \<open>None\<close>. The two parts of the payload that may be absent, in turn.\<close>

definition referral_host_part :: "bytes \<Rightarrow> byte \<Rightarrow> string \<Rightarrow> u16 \<Rightarrow> codec_error + bytes" where
  "referral_host_part payload null_bits host port =
     (if null_bits AND 0x01 \<noteq> 0
      then write_host_address (set_int32_le payload 1 (int (length payload) - 9)) host port
      else Inr (set_int32_le payload 1 (- 1)))"

definition referral_data_part :: "bytes \<Rightarrow> byte \<Rightarrow> bytes option \<Rightarrow> codec_error + bytes" where
  "referral_data_part payload null_bits data =
     (if null_bits AND 0x02 \<noteq> 0
      then (let d = (case data of None \<Rightarrow> [] | Some d \<Rightarrow> d) in
        (case write_var_int (set_int32_le payload 5 (int (length payload) - 9)) (int (length d)) of
           Inl e \<Rightarrow> Inl e
         | Inr payload' \<Rightarrow> Inr (payload' @ d)))
      else Inr (set_int32_le payload 5 (- 1)))"

definition encode_client_referral_payload :: "string \<Rightarrow> u16 \<Rightarrow> bytes option \<Rightarrow> codec_error + bytes" where
  "encode_client_referral_payload host port data =
     (if host = [] then Inl HostEmptyE
      else if 256 < length (bytes_of_string host) then Inl HostTooLong
      else if 4096 < (case data of None \<Rightarrow> 0 | Some d \<Rightarrow> length d) then Inl DataTooLong
      else
        let null_bits = (if host \<noteq> [] then 0x01 else 0) OR (if data \<noteq> None then 0x02 else 0) :: byte;
            payload = [null_bits] @ [0, 0, 0, 0] @ [0, 0, 0, 0]
        in (case referral_host_part payload null_bits host port of
              Inl e \<Rightarrow> Inl e
            | Inr payload1 \<Rightarrow>
              (case referral_data_part payload1 null_bits data of
                 Inl e \<Rightarrow> Inl e
               | Inr payload2 \<Rightarrow> if length payload2 < 9 then Inl ReferralTooSmall else Inr payload2)))"


text \<open>
  The loop of \<open>writeFramedPacket\<close> over an \<open>io.Writer\<close>: what a call of \<open>Write\<close> returns (the number of
  bytes taken, whether it failed, the new state of the writer) is an argument. \<open>None\<close>: the writer
  takes nothing for ever, or claims more than it was given. The flag tells success.
\<close>

type_synonym 'w writer = "'w \<Rightarrow> bytes \<Rightarrow> nat \<times> bool \<times> 'w"

partial_function (option) write_all :: "'w writer \<Rightarrow> bytes \<Rightarrow> 'w \<Rightarrow> (bool \<times> 'w) option" where
  "write_all wr buf w =
     (if buf = [] then Some (True, w)
      else (case wr w buf of (n, failed, w') \<Rightarrow>
        if failed then Some (False, w')
        else if length buf < n then None
        else write_all wr (drop n buf) w'))"

declare write_all.simps [code]

definition write_framed_packet :: "'w writer \<Rightarrow> u32 \<Rightarrow> bytes \<Rightarrow> 'w \<Rightarrow> (bool \<times> 'w) option" where
  "write_framed_packet wr packet_id payload w = write_all wr (frame packet_id payload) w"

section \<open>The Connect packet\<close>

record connect_info =
  ci_hash :: string
  ci_crc :: int
  ci_build :: int
  ci_version :: string
  ci_client_type :: byte
  ci_uuid :: string
  ci_language :: string
  ci_identity :: bool
  ci_username :: string
  ci_referral_len :: int
  ci_referral_source :: "host_address option"

definition empty_connect_info :: connect_info where
  "empty_connect_info = \<lparr>ci_hash = [], ci_crc = 0, ci_build = 0, ci_version = [], ci_client_type = 0,
     ci_uuid = [], ci_language = [], ci_identity = False, ci_username = [], ci_referral_len = 0,
     ci_referral_source = None\<rparr>"

definition is_hex_byte :: "byte \<Rightarrow> bool" where
  "is_hex_byte c \<longleftrightarrow> (48 \<le> c \<and> c \<le> 57) \<or> (97 \<le> c \<and> c \<le> 102) \<or> (65 \<le> c \<and> c \<le> 70)"

definition looks_like_hex_fixed_ascii :: "bytes \<Rightarrow> int \<Rightarrow> int \<Rightarrow> bool option" where
  "looks_like_hex_fixed_ascii b start len =
     (if start < 0 \<or> len \<le> 0 \<or> int (length b) < start + len then Some False
      else do { s \<leftarrow> slice b start (start + len); Some (list_all (\<lambda>c. c = 0 \<or> is_hex_byte c) s) })"

definition read_fixed_ascii :: "bytes \<Rightarrow> int \<Rightarrow> int \<Rightarrow> string option" where
  "read_fixed_ascii b start len =
     (if start < 0 \<or> len < 0 \<or> int (length b) < start + len then Some []
      else do { s \<leftarrow> slice b start (start + len); Some (string_of_bytes (takeWhile (\<lambda>c. c \<noteq> 0) s)) })"

text \<open>\<open>formatUUID\<close>: the verb \<^verbatim>\<open>%02x\<close> for each byte.\<close>

definition hex_digit :: "nat \<Rightarrow> char" where
  "hex_digit d = char_of (if d < 10 then 48 + d else 87 + d)"

definition hex_byte :: "byte \<Rightarrow> string" where
  "hex_byte b = [hex_digit (unat b div 16), hex_digit (unat b mod 16)]"

definition format_uuid :: "u64 \<Rightarrow> u64 \<Rightarrow> string" where
  "format_uuid msb lsb =
     (let b = put_u64_be msb @ put_u64_be lsb; hex = (\<lambda>i j. concat (map hex_byte (take (j - i) (drop i b)))) in
      hex 0 4 @ ''-'' @ hex 4 6 @ ''-'' @ hex 6 8 @ ''-'' @ hex 8 10 @ ''-'' @ hex 10 16)"

text \<open>The pieces both versions of the decoder share.\<close>

definition read_i32 :: "bytes \<Rightarrow> int \<Rightarrow> int option" where
  "read_i32 b pos = do { s \<leftarrow> slice b pos (pos + 4); Some (get_i32 s) }"

definition read_uuid :: "bytes \<Rightarrow> int \<Rightarrow> string option" where
  "read_uuid b pos = do {
     m \<leftarrow> slice b pos (pos + 8);
     l \<leftarrow> slice b (pos + 8) (pos + 16);
     Some (format_uuid (get_u64_be m) (get_u64_be l)) }"

definition read_referral_len :: "bytes \<Rightarrow> int \<Rightarrow> int option" where
  "read_referral_len b pos = do {
     (l, lsz, ok) \<leftarrow> read_var_int b pos;
     Some (if ok \<and> 0 \<le> l \<and> l \<le> 4096 \<and> 0 \<le> pos + lsz \<and> pos + lsz + l \<le> int (length b) then l else 0) }"

definition read_referral_source :: "bytes \<Rightarrow> int \<Rightarrow> host_address option option" where
  "read_referral_source b pos = do {
     (ha, _, ok) \<leftarrow> decode_host_address b pos;
     Some (if ok then Some ha else None) }"

definition decode_connect_v1 :: "bytes \<Rightarrow> (connect_info \<times> bool) option" where
  "decode_connect_v1 payload =
     (if length payload < 102 then Some (empty_connect_info, False)
      else do {
        null_bits \<leftarrow> byte_at payload 0;
        hash \<leftarrow> read_fixed_ascii payload 1 64;
        client_type \<leftarrow> byte_at payload 65;
        uuid \<leftarrow> read_uuid payload 66;
        language_off \<leftarrow> read_i32 payload 82;
        identity_off \<leftarrow> read_i32 payload 86;
        username_off \<leftarrow> read_i32 payload 90;
        ref_data_off \<leftarrow> read_i32 payload 94;
        ref_source_off \<leftarrow> read_i32 payload 98;
        language \<leftarrow> (if null_bits AND 0x01 \<noteq> 0 \<and> 0 \<le> language_off
          then do { (s, _, ok) \<leftarrow> read_var_string payload (102 + language_off) 128; Some (if ok then s else []) }
          else Some []);
        identity \<leftarrow> (if null_bits AND 0x02 \<noteq> 0 \<and> 0 \<le> identity_off
          then do { (_, _, ok) \<leftarrow> read_var_string payload (102 + identity_off) 8192; Some ok }
          else Some False);
        username \<leftarrow> (if 0 \<le> username_off
          then do { (s, _, ok) \<leftarrow> read_var_string payload (102 + username_off) 16; Some (if ok then s else []) }
          else Some []);
        ref_len \<leftarrow> (if null_bits AND 0x04 \<noteq> 0 \<and> 0 \<le> ref_data_off
          then read_referral_len payload (102 + ref_data_off) else Some 0);
        ref_source \<leftarrow> (if null_bits AND 0x08 \<noteq> 0 \<and> 0 \<le> ref_source_off
          then read_referral_source payload (102 + ref_source_off) else Some None);
        Some (empty_connect_info\<lparr>ci_hash := hash, ci_client_type := client_type, ci_uuid := uuid,
          ci_language := language, ci_identity := identity, ci_username := username,
          ci_referral_len := ref_len, ci_referral_source := ref_source\<rparr>, True)
      })"

definition decode_connect_v2 :: "bytes \<Rightarrow> (connect_info \<times> bool) option" where
  "decode_connect_v2 payload =
     (if length payload < 66 then Some (empty_connect_info, False)
      else do {
        null_bits \<leftarrow> byte_at payload 0;
        crc \<leftarrow> read_i32 payload 1;
        build \<leftarrow> read_i32 payload 5;
        version \<leftarrow> read_fixed_ascii payload 9 20;
        client_type \<leftarrow> byte_at payload 29;
        uuid \<leftarrow> read_uuid payload 30;
        username_off \<leftarrow> read_i32 payload 46;
        identity_off \<leftarrow> read_i32 payload 50;
        language_off \<leftarrow> read_i32 payload 54;
        ref_data_off \<leftarrow> read_i32 payload 58;
        ref_source_off \<leftarrow> read_i32 payload 62;
        if username_off < 0 then Some (empty_connect_info, False)
        else do {
          (username, _, username_ok) \<leftarrow> read_var_string payload (66 + username_off) 16;
          if \<not> username_ok then Some (empty_connect_info, False)
          else do {
            identity \<leftarrow> (if null_bits AND 0x01 \<noteq> 0 \<and> 0 \<le> identity_off
              then do { (_, _, ok) \<leftarrow> read_var_string payload (66 + identity_off) 8192; Some ok }
              else Some False);
            if language_off < 0 then Some (empty_connect_info, False)
            else do {
              (language, _, language_ok) \<leftarrow> read_var_string payload (66 + language_off) 16;
              if \<not> language_ok then Some (empty_connect_info, False)
              else do {
                ref_len \<leftarrow> (if null_bits AND 0x02 \<noteq> 0 \<and> 0 \<le> ref_data_off
                  then read_referral_len payload (66 + ref_data_off) else Some 0);
                ref_source \<leftarrow> (if null_bits AND 0x04 \<noteq> 0 \<and> 0 \<le> ref_source_off
                  then read_referral_source payload (66 + ref_source_off) else Some None);
                Some (\<lparr>ci_hash = version, ci_crc = crc, ci_build = build, ci_version = version,
                  ci_client_type = client_type, ci_uuid = uuid, ci_language = language,
                  ci_identity = identity, ci_username = username, ci_referral_len = ref_len,
                  ci_referral_source = ref_source\<rparr>, True)
              }
            }
          }
        }
      })"

definition decode_connect :: "bytes \<Rightarrow> (connect_info \<times> bool) option" where
  "decode_connect payload = do {
     hex \<leftarrow> (if 102 \<le> length payload then looks_like_hex_fixed_ascii payload 1 64 else Some False);
     if hex then decode_connect_v1 payload
     else do {
       (info, ok) \<leftarrow> decode_connect_v2 payload;
       if ok then Some (info, True) else decode_connect_v1 payload
     }
   }"

definition min_int :: "int \<Rightarrow> int \<Rightarrow> int" where
  "min_int a b = (if a < b then a else b)"

definition packet_name :: "int \<Rightarrow> string" where
  "packet_name pid =
     (if pid = 0 then ''Connect'' else if pid = 1 then ''Disconnect'' else if pid = 2 then ''Ping''
      else if pid = 3 then ''Pong'' else if pid = 14 then ''ConnectAccept''
      else if pid = 18 then ''ClientReferral'' else ''unknown'')"

end
