(* ===== verification/HytaleCodecProps.thy ===== *)
theory HytaleCodecProps
  imports HytaleCodec
begin

text \<open>
  Correctness of the packet codec (\<^verbatim>\<open>internal/server/hytale_codec.go\<close>): what the writers produce,
  that the readers invert it, and that no input makes a reader panic.
\<close>

section \<open>Variable-length integers\<close>

lemma var_int_continues: "n < 2 ^ 32 \<Longrightarrow> n AND 0xFFFFFF80 \<noteq> 0 \<longleftrightarrow> 128 \<le> (n :: nat)"
proof -
  assume "n < 2 ^ 32"
  then have "take_bit 32 n = n" by (simp add: take_bit_nat_eq_self_iff)
  then show ?thesis unfolding varint_mask by (auto simp: push_bit_eq_mult drop_bit_eq_div)
qed

lemma byte_high_bit: "(w :: byte) AND 0x80 = 0 \<longleftrightarrow> \<not> bit w 7"
  using and_exp_eq_0_iff_not_bit [of w 7] by simp

lemma byte_low_bits: "uint ((of_nat n :: byte) AND 0x7F) = int (n mod 128)"
proof -
  have "(of_nat n :: byte) AND 0x7F = take_bit 7 (of_nat n)"
    by (simp add: take_bit_eq_mask mask_eq_exp_minus_1)
  moreover have "unat (take_bit 7 (of_nat n :: byte)) = n mod 128"
    by (simp only: unsigned_take_bit_eq unat_of_nat_byte) (simp add: take_bit_eq_mod mod_mod_cancel)
  ultimately show ?thesis by (metis uint_nat)
qed

lemma var_int_last:
  assumes "n < 128"
  shows "(of_nat n :: byte) AND 0x80 = 0" and "uint ((of_nat n :: byte) AND 0x7F) = int n"
proof -
  have "\<not> bit n 7" using assms by (simp add: bit_iff_odd)
  then show "(of_nat n :: byte) AND 0x80 = 0" by (simp add: byte_high_bit bit_simps)
  show "uint ((of_nat n :: byte) AND 0x7F) = int n" using assms by (simp add: byte_low_bits)
qed

lemma var_int_byte:
  "(of_nat (n AND 0x7F OR 0x80) :: byte) AND 0x80 \<noteq> 0"
  "uint ((of_nat (n AND 0x7F OR 0x80) :: byte) AND 0x7F) = int (n mod 128)"
proof -
  have "bit (0x80 :: nat) 7" by (simp add: bit_iff_odd)
  then show "(of_nat (n AND 0x7F OR 0x80) :: byte) AND 0x80 \<noteq> 0" by (simp add: byte_high_bit bit_simps)
  have "take_bit 7 (n AND 0x7F OR 0x80) = take_bit 7 n"
  proof -
    have "n AND 0x7F = take_bit 7 n" by (simp add: take_bit_eq_mask mask_eq_exp_minus_1)
    moreover have "take_bit 7 (0x80 :: nat) = 0" by (simp add: take_bit_eq_mod)
    ultimately show ?thesis by (simp only: take_bit_or take_bit_take_bit) simp
  qed
  then show "uint ((of_nat (n AND 0x7F OR 0x80) :: byte) AND 0x7F) = int (n mod 128)"
    by (simp only: byte_low_bits) (simp add: take_bit_eq_mod)
qed

lemma or_push_bit: "0 \<le> v \<Longrightarrow> v < 2 ^ s \<Longrightarrow> v OR push_bit s x = v + 2 ^ s * (x :: int)"
proof -
  assume "0 \<le> v" "v < 2 ^ s"
  then have "take_bit s v = v" by (simp add: take_bit_int_eq_self)
  then have "v OR push_bit s x = concat_bit s v x" by (simp add: concat_bit_def)
  with \<open>take_bit s v = v\<close> show ?thesis by (simp add: concat_bit_eq push_bit_eq_mult mult.commute)
qed

lemma read_write_loop:
  "n < 2 ^ 32 \<Longrightarrow> length (write_var_int_loop n) \<le> k \<Longrightarrow> int (length pre) = pos + sz \<Longrightarrow> 0 \<le> v \<Longrightarrow> v < 2 ^ s \<Longrightarrow>
   read_var_int_loop k (pre @ write_var_int_loop n @ rest) pos sz v s =
     Some (v + 2 ^ s * int n, sz + int (length (write_var_int_loop n)), True)"
proof (induction n arbitrary: k pre sz v s rule: write_var_int_loop.induct)
  case (1 n)
  from "1.prems" have sz: "pos + sz = int (length pre)" by simp
  have ne: "write_var_int_loop n \<noteq> []" by (subst write_var_int_loop.simps) simp
  with "1.prems" obtain j where k: "k = Suc j" by (cases k) simp_all
  show ?case
  proof (cases "128 \<le> n")
    case False
    then have w: "write_var_int_loop n = [of_nat n]"
      using var_int_continues [OF "1.prems"(1)] by (subst write_var_int_loop.simps) simp
    from False show ?thesis
      by (simp add: k w sz byte_at_mid var_int_last or_push_bit "1.prems"(4,5))
  next
    case True
    then have c: "n AND 0xFFFFFF80 \<noteq> 0" using var_int_continues [OF "1.prems"(1)] by simp
    let ?b = "of_nat (n AND 0x7F OR 0x80) :: byte"
    have w: "write_var_int_loop n = ?b # write_var_int_loop (drop_bit 7 n)"
      using c by (subst write_var_int_loop.simps) simp
    have d: "drop_bit 7 n = n div 128" by (simp add: drop_bit_eq_div)
    have small: "drop_bit 7 n < 2 ^ 32" using "1.prems"(1) unfolding d by simp
    let ?v = "v + 2 ^ s * int (n mod 128)"
    have v: "0 \<le> ?v" using "1.prems" by simp
    have v2: "?v < 2 ^ (s + 7)"
    proof -
      have "?v < 2 ^ s + 2 ^ s * 127"
        using "1.prems"(5) by (intro add_less_le_mono mult_left_mono) simp_all
      then show ?thesis by (simp add: power_add)
    qed
    have IH: "read_var_int_loop j ((pre @ [?b]) @ write_var_int_loop (drop_bit 7 n) @ rest) pos (sz + 1) ?v (s + 7) =
        Some (?v + 2 ^ (s + 7) * int (drop_bit 7 n), sz + 1 + int (length (write_var_int_loop (drop_bit 7 n))), True)"
      using "1.prems" by (intro "1.IH" [OF c small _ _ v v2]) (simp_all add: w k)
    have "int n = int (n mod 128) + 128 * int (n div 128)" by (simp add: zmod_int zdiv_int)
    then have "?v + 2 ^ (s + 7) * int (drop_bit 7 n) = v + 2 ^ s * int n"
      by (simp add: d power_add algebra_simps)
    with IH show ?thesis
      by (simp add: k w sz byte_at_mid var_int_byte or_push_bit "1.prems"(4,5))
  qed
qed

lemma write_loop_length: "n < 128 ^ Suc k \<Longrightarrow> n < 2 ^ 32 \<Longrightarrow> length (write_var_int_loop n) \<le> Suc k"
proof (induction k arbitrary: n)
  case 0
  then show ?case using var_int_continues [of n] by (subst write_var_int_loop.simps) simp
next
  case (Suc k)
  have "drop_bit 7 n < 128 ^ Suc k" "drop_bit 7 n < 2 ^ 32"
    using Suc.prems by (simp_all add: drop_bit_eq_div less_mult_imp_div_less)
  from Suc.IH [OF this] show ?case by (subst write_var_int_loop.simps) simp
qed

text \<open>What is written is read back, wherever it stands, for every value of 32 bits.\<close>

lemma read_var_int_write:
  assumes "n < 2 ^ 32"
  shows "read_var_int (pre @ write_var_int_loop n @ rest) (int (length pre)) =
    Some (int n, int (length (write_var_int_loop n)), True)"
proof -
  have len: "length (write_var_int_loop n) \<le> 5" using write_loop_length [of n 4] assms by simp
  have "write_var_int_loop n \<noteq> []" by (subst write_var_int_loop.simps) simp
  then have "0 < length (write_var_int_loop n)" by simp
  then have "\<not> int (length (write_var_int_loop n)) + int (length rest) \<le> 0" by linarith
  then show ?thesis using read_write_loop [OF assms len, of pre "int (length pre)" 0 0 0 rest]
    by (simp add: read_var_int_def)
qed

lemma read_var_string_write:
  assumes "length s \<le> 2 ^ 31" "int (length s) \<le> limit"
  shows "read_var_string (pre @ (write_var_int_loop (length s) @ bytes_of_string s) @ rest) (int (length pre)) limit =
    Some (s, int (length (write_var_int_loop (length s)) + length s), True)"
proof -
  have small: "length s < 2 ^ 32" using assms(1) by simp
  let ?v = "write_var_int_loop (length s)"
  have r: "read_var_int (pre @ (?v @ bytes_of_string s) @ rest) (int (length pre)) =
      Some (int (length s), int (length ?v), True)"
    using read_var_int_write [OF small, of pre "bytes_of_string s @ rest"] by simp
  have "slice (pre @ (?v @ bytes_of_string s) @ rest) (int (length pre) + int (length ?v))
      (int (length pre) + int (length ?v) + int (length s)) = Some (bytes_of_string s)"
    using slice_mid [of "pre @ ?v" "bytes_of_string s" rest] by simp
  then show ?thesis using assms(2) by (simp add: read_var_string_def r [unfolded append_assoc] Let_def)
qed


lemma write_host_address_eq:
  "length host \<le> 256 \<Longrightarrow> write_host_address w host port =
     Inr (w @ put_u16 port @ write_var_int_loop (length host) @ bytes_of_string host)"
  by (simp add: write_host_address_def write_var_string_def write_var_int_def Let_def)

lemma decode_host_address_write:
  assumes "length host \<le> 256"
  shows "decode_host_address (pre @ (put_u16 port @ write_var_int_loop (length host) @ bytes_of_string host) @ rest)
      (int (length pre)) =
    Some (\<lparr>ha_host = host, ha_port = port\<rparr>, int (2 + length (write_var_int_loop (length host)) + length host), True)"
proof -
  let ?w = "write_var_int_loop (length host) @ bytes_of_string host"
  have "read_var_string ((pre @ put_u16 port) @ ?w @ rest) (int (length (pre @ put_u16 port))) 256 =
      Some (host, int (length (write_var_int_loop (length host)) + length host), True)"
    using assms by (intro read_var_string_write) simp_all
  moreover have "slice (pre @ (put_u16 port @ ?w) @ rest) (int (length pre)) (int (length pre) + 2) = Some (put_u16 port)"
    using slice_mid [of pre "put_u16 port" "?w @ rest"] by (simp add: add.commute)
  ultimately show ?thesis by (simp add: decode_host_address_def add.commute)
qed

section \<open>The ClientReferral packet\<close>

definition host_part :: "string \<Rightarrow> u16 \<Rightarrow> bytes" where
  "host_part host port = put_u16 port @ write_var_int_loop (length host) @ bytes_of_string host"

lemma set_int32_le_mid: "length p = pos \<Longrightarrow> length o4 = 4 \<Longrightarrow> set_int32_le (p @ o4 @ q) pos v = p @ put_u32 (of_int v) @ q"
  by (simp add: set_int32_le_def)

text \<open>The layout of the payload: the null bits, two offsets, the host address, the data.\<close>

lemma client_referral_layout:
  assumes "host \<noteq> []" "length host \<le> 256"
  shows "encode_client_referral_payload host port None =
      Inr ([1] @ put_u32 0 @ put_u32 (of_int (- 1)) @ host_part host port)"
    and "length d \<le> 4096 \<Longrightarrow> encode_client_referral_payload host port (Some d) =
      Inr ([3] @ put_u32 0 @ put_u32 (of_int (int (length (host_part host port)))) @
           host_part host port @ write_var_int_loop (length d) @ d)"
proof -
  have step1: "set_int32_le (b # [0, 0, 0, 0] @ q) 1 v = b # put_u32 (of_int v) @ q" for b v q
    using set_int32_le_mid [of "[b]" 1 "[0, 0, 0, 0]" q v] by simp
  have step2: "set_int32_le (b # put_u32 0 @ [0, 0, 0, 0] @ q) 5 v = b # put_u32 0 @ put_u32 (of_int v) @ q" for b v q
    using set_int32_le_mid [of "b # put_u32 0" 5 "[0, 0, 0, 0]" q v] by simp
  note step1' = step1 [of _ "[0, 0, 0, 0]", simplified] and step2' = step2 [simplified]
  show "encode_client_referral_payload host port None =
      Inr ([1] @ put_u32 0 @ put_u32 (of_int (- 1)) @ host_part host port)"
    using assms by (simp add: encode_client_referral_payload_def Let_def referral_host_part_def
        referral_data_part_def step1' step2' write_host_address_eq host_part_def)
  show "encode_client_referral_payload host port (Some d) =
      Inr ([3] @ put_u32 0 @ put_u32 (of_int (int (length (host_part host port)))) @
           host_part host port @ write_var_int_loop (length d) @ d)" if "length d \<le> 4096"
    using assms that by (simp add: encode_client_referral_payload_def Let_def referral_host_part_def
        referral_data_part_def step1' step2' write_host_address_eq host_part_def write_var_int_def)
qed

lemma client_referral_errors:
  "encode_client_referral_payload host port data =
     (if host = [] then Inl HostEmptyE
      else if 256 < length host then Inl HostTooLong
      else if \<exists>d. data = Some d \<and> 4096 < length d then Inl DataTooLong
      else Inr (projr (encode_client_referral_payload host port data)))"
proof (cases "host = [] \<or> 256 < length host \<or> (\<exists>d. data = Some d \<and> 4096 < length d)")
  case True
  then show ?thesis by (cases data) (auto simp: encode_client_referral_payload_def)
next
  case False
  then show ?thesis using client_referral_layout [of host]
    by (cases data) (auto simp: not_less)
qed

lemma host_part_length: "length host \<le> 256 \<Longrightarrow> length (host_part host port) \<le> 260"
proof -
  assume h: "length host \<le> 256"
  have "length (write_var_int_loop (length host)) \<le> Suc 1"
    using h by (intro write_loop_length) simp_all
  with h show ?thesis by (simp add: host_part_def)
qed

section \<open>Readers never panic\<close>

lemma ex_not [simp]: "Ex Not"
  by (rule exI [of _ False]) simp

lemma read_var_int_loop_total: "0 \<le> pos + sz \<Longrightarrow> \<exists>r. read_var_int_loop k b pos sz v s = Some r"
proof (induction k arbitrary: sz v s)
  case (Suc k)
  then show ?case by (auto simp: byte_at_def Let_def)
qed simp

lemma read_var_int_total: "\<exists>v n ok. read_var_int b pos = Some (v, n, ok)"
proof -
  have "\<exists>r. read_var_int b pos = Some r"
    using read_var_int_loop_total [of pos 0 5 b 0 0] by (simp add: read_var_int_def)
  then show ?thesis by auto
qed

text \<open>What a successful read says: the bytes read lie inside the buffer.\<close>

lemma read_var_int_loop_ok:
  "read_var_int_loop k b pos sz v s = Some (r, n, True) \<Longrightarrow> 0 \<le> v \<Longrightarrow>
   0 \<le> r \<and> sz < n \<and> n \<le> sz + int k \<and> pos + n \<le> int (length b)"
proof (induction k arbitrary: sz v s)
  case (Suc k)
  from Suc.prems obtain c where b: "byte_at b (pos + sz) = Some c" "pos + sz < int (length b)"
    by (auto simp: bind_eq_Some_conv split: if_splits)
  let ?v = "v OR push_bit s (uint (c AND 0x7F))"
  have v: "0 \<le> ?v" using Suc.prems(2) by (simp add: push_bit_eq_mult)
  show ?case
  proof (cases "c AND 0x80 = 0")
    case True
    with Suc.prems(1) b v show ?thesis by (auto simp: Let_def)
  next
    case False
    with Suc.prems(1) b have "read_var_int_loop k b pos (sz + 1) ?v (s + 7) = Some (r, n, True)"
      by (simp add: Let_def)
    from Suc.IH [OF this v] show ?thesis by simp
  qed
qed simp

lemma read_var_int_ok:
  "read_var_int b pos = Some (r, n, True) \<Longrightarrow> 0 \<le> r \<and> 0 < n \<and> n \<le> 5 \<and> 0 \<le> pos \<and> pos + n \<le> int (length b)"
  using read_var_int_loop_ok [of 5 b pos 0 0 0 r n] by (auto simp: read_var_int_def split: if_splits)

lemma read_var_string_total: "\<exists>s n ok. read_var_string b pos m = Some (s, n, ok)"
proof -
  obtain v n ok where r: "read_var_int b pos = Some (v, n, ok)" using read_var_int_total by blast
  show ?thesis
  proof (cases "\<not> ok \<or> v < 0 \<or> m < v \<or> pos + n < 0 \<or> int (length b) < pos + n + v")
    case True
    with r show ?thesis by (auto simp: read_var_string_def Let_def)
  next
    case False
    then have "slice b (pos + n) (pos + n + v) \<noteq> None" by (simp add: slice_def)
    with False r show ?thesis by (auto simp: read_var_string_def Let_def)
  qed
qed

text \<open>A string that is read is a part of the buffer of at most \<open>m\<close> bytes.\<close>

lemma read_var_string_ok:
  assumes "read_var_string b pos m = Some (s, n, True)"
  shows "int (length s) \<le> m \<and> 0 \<le> pos \<and> pos + n \<le> int (length b) \<and>
    (\<exists>i. bytes_of_string s = take (length s) (drop i b))"
proof -
  obtain v k ok where r: "read_var_int b pos = Some (v, k, ok)" using read_var_int_total by blast
  with assms have ok: "ok" "0 \<le> v" "v \<le> m" "pos + k + v \<le> int (length b)" "n = k + v"
    and sl: "slice b (pos + k) (pos + k + v) = Some (bytes_of_string s)"
    by (auto simp: read_var_string_def Let_def bind_eq_Some_conv split: if_splits)
  from r ok(1) have "read_var_int b pos = Some (v, k, True)" by simp
  from read_var_int_ok [OF this] have "0 \<le> pos" by blast
  moreover have "int (length s) = v" using slice_length [OF sl] by simp
  ultimately show ?thesis using ok sl
    by (auto simp: slice_def split: if_splits intro!: exI [of _ "nat (pos + k)"])
qed

lemma decode_host_address_total: "\<exists>h n ok. decode_host_address b pos = Some (h, n, ok)"
proof -
  obtain s n ok where "read_var_string b (pos + 2) 256 = Some (s, n, ok)" using read_var_string_total by blast
  then show ?thesis by (auto simp: decode_host_address_def slice_def)
qed

lemma read_i32_total: "0 \<le> pos \<Longrightarrow> pos + 4 \<le> int (length b) \<Longrightarrow>
    \<exists>i. read_i32 b pos = Some i \<and> - (2 ^ 31) \<le> i \<and> i < 2 ^ 31"
  using get_i32_range by (simp add: read_i32_def slice_some)

lemma read_uuid_total: "0 \<le> pos \<Longrightarrow> pos + 16 \<le> int (length b) \<Longrightarrow> \<exists>u. read_uuid b pos = Some u"
  by (simp add: read_uuid_def slice_some)

lemma read_fixed_ascii_total: "\<exists>s. read_fixed_ascii b pos n = Some s"
  by (auto simp: read_fixed_ascii_def slice_some)

lemma looks_like_hex_total: "\<exists>r. looks_like_hex_fixed_ascii b pos n = Some r"
  by (auto simp: looks_like_hex_fixed_ascii_def slice_some)

lemma read_referral_len_total: "\<exists>l. read_referral_len b pos = Some l"
  using read_var_int_total [of b pos] by (auto simp: read_referral_len_def)

lemma read_referral_source_total: "\<exists>h. read_referral_source b pos = Some h"
  using decode_host_address_total [of b pos] by (auto simp: read_referral_source_def)

text \<open>
  \<open>yields Q m\<close>: the steps \<open>m\<close> do not panic and their result satisfies \<open>Q\<close>. One rule for each kind
  of step the decoders take.
\<close>

definition yields :: "('a \<Rightarrow> bool) \<Rightarrow> 'a option \<Rightarrow> bool" where
  "yields Q m \<longleftrightarrow> (\<exists>x. m = Some x \<and> Q x)"

lemma yields_Some: "Q x \<Longrightarrow> yields Q (Some x)"
  by (simp add: yields_def)

lemma yields_if: "(c \<Longrightarrow> yields Q a) \<Longrightarrow> (\<not> c \<Longrightarrow> yields Q b) \<Longrightarrow> yields Q (if c then a else b)"
  by simp

lemma yields_bind_Some: "yields Q (f x) \<Longrightarrow> yields Q (Option.bind (Some x) f)"
  by simp

lemma yields_bind_if:
  "(c \<Longrightarrow> yields Q (Option.bind a f)) \<Longrightarrow> (\<not> c \<Longrightarrow> yields Q (Option.bind b f)) \<Longrightarrow>
   yields Q (Option.bind (if c then a else b) f)"
  by simp

lemma yields_byte:
  "0 \<le> pos \<and> pos < int (length b) \<Longrightarrow> (\<And>x. yields Q (f x)) \<Longrightarrow> yields Q (Option.bind (byte_at b pos) f)"
  by (simp add: byte_at_some)

lemma yields_i32:
  "0 \<le> pos \<and> pos + 4 \<le> int (length b) \<Longrightarrow> (\<And>x. yields Q (f x)) \<Longrightarrow> yields Q (Option.bind (read_i32 b pos) f)"
  using read_i32_total [of pos b] by auto

lemma yields_fixed: "(\<And>x. yields Q (f x)) \<Longrightarrow> yields Q (Option.bind (read_fixed_ascii b pos n) f)"
  using read_fixed_ascii_total [of b pos n] by auto

lemma format_uuid_length [simp]: "length (format_uuid m l) = 36"
  by (simp add: format_uuid_def Let_def length_concat hex_byte_def o_def sum_list_triv)

lemma yields_uuid:
  "0 \<le> pos \<and> pos + 16 \<le> int (length b) \<Longrightarrow> (\<And>x. length x = 36 \<Longrightarrow> yields Q (f x)) \<Longrightarrow>
   yields Q (Option.bind (read_uuid b pos) f)"
  by (simp add: read_uuid_def slice_some)

lemma yields_string:
  assumes "\<And>s n ok. ok \<longrightarrow> int (length s) \<le> m \<Longrightarrow> yields Q (f s n ok)"
  shows "yields Q (Option.bind (read_var_string b pos m) (\<lambda>(s, n, ok). f s n ok))"
proof -
  obtain s n ok where r: "read_var_string b pos m = Some (s, n, ok)" using read_var_string_total by blast
  then have "ok \<longrightarrow> int (length s) \<le> m" using read_var_string_ok by auto
  with assms r show ?thesis by simp
qed

lemma yields_string_then:
  assumes "\<And>s n ok. ok \<longrightarrow> int (length s) \<le> m \<Longrightarrow> yields Q (Option.bind (g s n ok) f)"
  shows "yields Q (Option.bind (Option.bind (read_var_string b pos m) (\<lambda>(s, n, ok). g s n ok)) f)"
  using yields_string [of m Q "\<lambda>s n ok. Option.bind (g s n ok) f" b pos] assms
  by (simp add: case_prod_unfold)

lemma yields_referral_len:
  "(\<And>l. 0 \<le> l \<and> l \<le> 4096 \<Longrightarrow> yields Q (f l)) \<Longrightarrow> yields Q (Option.bind (read_referral_len b pos) f)"
  using read_var_int_total [of b pos] by (auto simp: read_referral_len_def)

text \<open>A host address that is read has a host of at most 256 bytes.\<close>

definition host_ok :: "host_address option \<Rightarrow> bool" where
  "host_ok h = (case h of None \<Rightarrow> True | Some ha \<Rightarrow> length (ha_host ha) \<le> 256)"

lemma yields_referral_source:
  assumes "\<And>h. host_ok h \<Longrightarrow> yields Q (f h)"
  shows "yields Q (Option.bind (read_referral_source b pos) f)"
proof -
  obtain s n ok where r: "read_var_string b (pos + 2) 256 = Some (s, n, ok)" using read_var_string_total by blast
  then have "ok \<longrightarrow> length s \<le> 256" using read_var_string_ok [of b "pos + 2" 256 s n] by auto
  with assms r show ?thesis
    by (auto simp: read_referral_source_def decode_host_address_def slice_def host_ok_def)
qed

lemmas yields_steps = yields_bind_Some yields_bind_if yields_byte yields_i32 yields_fixed yields_uuid
  yields_string_then yields_string yields_referral_len yields_referral_source yields_if yields_Some

text \<open>The bounds of every decoded Connect packet.\<close>

definition connect_info_ok :: "connect_info \<times> bool \<Rightarrow> bool" where
  "connect_info_ok r =
     (let i = fst r in snd r \<longrightarrow> length (ci_username i) \<le> 16 \<and> length (ci_language i) \<le> 128 \<and> length (ci_uuid i) = 36 \<and>
        0 \<le> ci_referral_len i \<and> ci_referral_len i \<le> 4096 \<and> host_ok (ci_referral_source i))"

lemma decode_connect_v1_yields: "yields connect_info_ok (decode_connect_v1 b)"
proof (cases "length b < 102")
  case False
  then have len: "102 \<le> int (length b)" "b \<noteq> []" by auto
  with False show ?thesis unfolding decode_connect_v1_def if_False
    by (simp only: if_False) (intro yields_steps; simp add: connect_info_ok_def empty_connect_info_def host_ok_def)
qed (simp add: decode_connect_v1_def yields_def connect_info_ok_def)

lemma decode_connect_v2_yields: "yields connect_info_ok (decode_connect_v2 b)"
proof (cases "length b < 66")
  case False
  then have len: "66 \<le> int (length b)" "b \<noteq> []" by auto
  with False show ?thesis unfolding decode_connect_v2_def
    by (simp only: if_False) (intro yields_steps; simp add: connect_info_ok_def empty_connect_info_def host_ok_def)
qed (simp add: decode_connect_v2_def yields_def connect_info_ok_def)

lemma decode_connect_yields: "yields connect_info_ok (decode_connect b)"
proof -
  obtain i1 k1 where 1: "decode_connect_v1 b = Some (i1, k1)" "connect_info_ok (i1, k1)"
    using decode_connect_v1_yields [of b] by (auto simp: yields_def)
  obtain i2 k2 where 2: "decode_connect_v2 b = Some (i2, k2)" "connect_info_ok (i2, k2)"
    using decode_connect_v2_yields [of b] by (auto simp: yields_def)
  obtain h where "looks_like_hex_fixed_ascii b 1 64 = Some h" using looks_like_hex_total by blast
  with 1 2 show ?thesis by (cases k2; cases h) (auto simp: decode_connect_def yields_def)
qed


section \<open>Writing a frame\<close>

text \<open>
  The contract of \<open>io.Writer\<close>: it takes at most what it is given, reports an error when it takes
  less, and appends what it takes to the stream.
\<close>

definition writer_contract :: "'w writer \<Rightarrow> ('w \<Rightarrow> bytes) \<Rightarrow> bool" where
  "writer_contract wr written \<longleftrightarrow>
     (\<forall>w buf n failed w'. wr w buf = (n, failed, w') \<longrightarrow>
        n \<le> length buf \<and> (n < length buf \<longrightarrow> failed) \<and> written w' = written w @ take n buf)"

lemma write_all_contract:
  assumes c: "writer_contract wr written"
  shows "\<exists>ok w'. write_all wr buf w = Some (ok, w') \<and>
    (if ok then written w' = written w @ buf else \<exists>k. written w' = written w @ take k buf)"
proof (cases "buf = []")
  case True
  then have "write_all wr buf w = Some (True, w)" by (simp add: write_all.simps)
  with True show ?thesis by (intro exI [of _ True]) simp
next
  case False
  obtain n failed w' where wr: "wr w buf = (n, failed, w')" by (cases "wr w buf") auto
  with c have n: "n \<le> length buf" "n < length buf \<longrightarrow> failed" "written w' = written w @ take n buf"
    unfolding writer_contract_def by blast+
  show ?thesis
  proof (cases failed)
    case True
    with False wr n show ?thesis by (subst write_all.simps) auto
  next
    case f: False
    with n have "n = length buf" by simp
    moreover have "write_all wr [] w' = Some (True, w')" by (simp add: write_all.simps)
    ultimately show ?thesis using False wr n f by (intro exI [of _ True]) (subst write_all.simps, simp)
  qed
qed

text \<open>A writer in memory: \<open>bytes.Buffer\<close>, which never fails.\<close>

definition buffer_write :: "bytes writer" where
  "buffer_write w buf = (length buf, False, w @ buf)"

lemma buffer_contract: "writer_contract buffer_write id"
  by (simp add: writer_contract_def buffer_write_def)

lemma frame_header:
  "length (frame pid payload) = 8 + length payload"
  "take 4 (frame pid payload) = put_u32 (of_nat (length payload))"
  "take 4 (drop 4 (frame pid payload)) = put_u32 pid"
  "drop 8 (frame pid payload) = payload"
  by (simp_all add: frame_def)

section \<open>The layout of a Connect packet\<close>

text \<open>
  The second layout of the packet with the two mandatory strings and none of the optional parts:
  checksum, build number, client version padded to 20 bytes, client type, UUID, and the offsets of
  user name, identity token, language, referral data and referral source.
\<close>

definition connect_v2_layout ::
  "u32 \<Rightarrow> u32 \<Rightarrow> bytes \<Rightarrow> byte \<Rightarrow> bytes \<Rightarrow> string \<Rightarrow> string \<Rightarrow> bytes"
where
  "connect_v2_layout crc build version client_type uuid username language =
     [0] @ put_u32 crc @ put_u32 build @ version @ [client_type] @ uuid @
     put_u32 0 @ put_u32 (of_int (- 1)) @
     put_u32 (of_int (int (length (write_var_int_loop (length username)) + length username))) @
     put_u32 (of_int (- 1)) @ put_u32 (of_int (- 1)) @
     (write_var_int_loop (length username) @ bytes_of_string username) @
     (write_var_int_loop (length language) @ bytes_of_string language)"


text \<open>Reading a field whose position is known.\<close>

lemma read_i32_mid: "int (length pre) = pos \<Longrightarrow> read_i32 (pre @ put_u32 w @ rest) pos = Some (sint w)"
  using slice_mid [of pre "put_u32 w" rest] by (auto simp: read_i32_def get_i32_def)

lemma byte_mid: "int (length pre) = pos \<Longrightarrow> byte_at (pre @ x # rest) pos = Some x"
  using byte_at_mid by auto

lemma read_fixed_mid:
  "int (length pre) = pos \<Longrightarrow> int (length s) = n \<Longrightarrow>
   read_fixed_ascii (pre @ s @ rest) pos n = Some (string_of_bytes (takeWhile (\<lambda>c. c \<noteq> 0) s))"
  using slice_mid [of pre s rest] by (auto simp: read_fixed_ascii_def)

lemma read_uuid_halves:
  assumes "int (length pre) = pos" "length a = 8" "length b = 8"
  shows "read_uuid (pre @ (a @ b) @ rest) pos = Some (format_uuid (get_u64_be a) (get_u64_be b))"
proof -
  have "slice (pre @ a @ b @ rest) pos (pos + 8) = Some a"
    using slice_mid [of pre a "b @ rest"] assms by auto
  moreover have "slice (pre @ a @ b @ rest) (pos + 8) (pos + 16) = Some b"
    using slice_mid [of "pre @ a" b rest] assms by (auto simp: add.commute)
  ultimately show ?thesis by (simp add: read_uuid_def)
qed

lemma read_uuid_mid:
  "int (length pre) = pos \<Longrightarrow> length u = 16 \<Longrightarrow>
   read_uuid (pre @ u @ rest) pos = Some (format_uuid (get_u64_be (take 8 u)) (get_u64_be (drop 8 u)))"
  using read_uuid_halves [of pre pos "take 8 u" "drop 8 u" rest] by simp

lemma read_string_mid:
  "int (length pre) = pos \<Longrightarrow> length s \<le> 16 \<Longrightarrow>
   read_var_string (pre @ (write_var_int_loop (length s) @ bytes_of_string s) @ rest) pos 16 =
     Some (s, int (length (write_var_int_loop (length s)) + length s), True)"
  using read_var_string_write [of s 16 pre rest] by simp

lemma decode_connect_v2_layout:
  assumes len: "length version = 20" "length uuid = 16" "length username \<le> 16" "length language \<le> 16"
  shows "decode_connect_v2 (connect_v2_layout crc build version client_type uuid username language) =
    Some (\<lparr>ci_hash = string_of_bytes (takeWhile (\<lambda>c. c \<noteq> 0) version), ci_crc = sint crc, ci_build = sint build,
      ci_version = string_of_bytes (takeWhile (\<lambda>c. c \<noteq> 0) version), ci_client_type = client_type,
      ci_uuid = format_uuid (get_u64_be (take 8 uuid)) (get_u64_be (drop 8 uuid)),
      ci_language = language, ci_identity = False, ci_username = username, ci_referral_len = 0,
      ci_referral_source = None\<rparr>, True)"
proof -
  define us where "us = write_var_int_loop (length username) @ bytes_of_string username"
  define la where "la = write_var_int_loop (length language) @ bytes_of_string language"
  define h1 where "h1 = [0] @ put_u32 crc @ put_u32 build"
  define h2 where "h2 = h1 @ version @ [client_type] @ uuid"
  define offs where "offs = put_u32 0 @ put_u32 (of_int (- 1)) @ put_u32 (of_int (int (length us))) @
    put_u32 (of_int (- 1)) @ put_u32 (of_int (- 1))"
  let ?L = "connect_v2_layout crc build version client_type uuid username language"
  have L: "?L = h2 @ offs @ us @ la"
    by (simp add: connect_v2_layout_def us_def la_def h1_def h2_def offs_def)
  have lens: "length h1 = 9" "length h2 = 46" "length offs = 20" using len by (simp_all add: h1_def h2_def offs_def)
  have us_small: "length us \<le> 21"
    using len(3) write_loop_length [of "length username" 4] by (simp add: us_def)
  have f: "byte_at ?L 0 = Some 0" "read_i32 ?L 1 = Some (sint crc)" "read_i32 ?L 5 = Some (sint build)"
    using byte_mid [of "[]"] read_i32_mid [of "[0]"] read_i32_mid [of "[0] @ put_u32 crc"]
    by (simp_all add: L h1_def h2_def)
  have v: "read_fixed_ascii ?L 9 20 = Some (string_of_bytes (takeWhile (\<lambda>c. c \<noteq> 0) version))"
    "byte_at ?L 29 = Some client_type"
    "read_uuid ?L 30 = Some (format_uuid (get_u64_be (take 8 uuid)) (get_u64_be (drop 8 uuid)))"
    using read_fixed_mid [of h1 9 version 20] byte_mid [of "h1 @ version" 29] len lens
      read_uuid_mid [of "h1 @ version @ [client_type]" 30 uuid] by (simp_all add: L h2_def)
  have o: "read_i32 ?L 46 = Some 0" "read_i32 ?L 50 = Some (- 1)" "read_i32 ?L 54 = Some (int (length us))"
    "read_i32 ?L 58 = Some (- 1)" "read_i32 ?L 62 = Some (- 1)"
  proof -
    have i: "sint (of_int (int (length us)) :: u32) = int (length us)"
      using us_small by (simp only: signed_of_int) (simp add: signed_take_bit_int_eq_self)
    show "read_i32 ?L 46 = Some 0" "read_i32 ?L 50 = Some (- 1)" "read_i32 ?L 54 = Some (int (length us))"
      "read_i32 ?L 58 = Some (- 1)" "read_i32 ?L 62 = Some (- 1)"
      using read_i32_mid [of h2 46 0] read_i32_mid [of "h2 @ put_u32 0" 50 "- 1"]
        read_i32_mid [of "h2 @ put_u32 0 @ put_u32 (- 1)" 54 "of_int (int (length us))"]
        read_i32_mid [of "h2 @ put_u32 0 @ put_u32 (- 1) @ put_u32 (of_int (int (length us)))" 58 "- 1"]
        read_i32_mid [of "h2 @ put_u32 0 @ put_u32 (- 1) @ put_u32 (of_int (int (length us))) @ put_u32 (- 1)" 62 "- 1"]
        lens i by (simp_all add: L offs_def)
  qed
  have s: "read_var_string ?L 66 16 = Some (username, int (length us), True)"
    "read_var_string ?L (66 + int (length us)) 16 = Some (language, int (length la), True)"
    using read_string_mid [of "h2 @ offs" 66 username la] read_string_mid [of "h2 @ offs @ us" _ language "[]"] len lens
    by (simp_all add: L us_def la_def)
  have "\<not> length ?L < 66" using lens by (simp add: L)
  then show ?thesis by (simp add: decode_connect_v2_def f v o s)
qed

end
