(* ===== verification/CodecProperties.thy ===== *)
theory CodecProperties
  imports HytaleCodecProps
begin

text \<open>
  The properties of the packet codec (\<^verbatim>\<open>internal/server/hytale_codec.go\<close>).
\<close>

text \<open>C34: No Connect payload makes the decoder panic, and whatever it accepts is bounded: a user name of
  at most 16 bytes, a language of at most 128, a UUID text of 36, referral data of at most 4096, a
  referral host of at most 256.\<close>

theorem decode_connect_safe:
  "\<exists>info ok. decode_connect payload = Some (info, ok) \<and>
    (ok \<longrightarrow> length (ci_username info) \<le> 16 \<and> length (ci_language info) \<le> 128 \<and> length (ci_uuid info) = 36 \<and>
      0 \<le> ci_referral_len info \<and> ci_referral_len info \<le> 4096 \<and>
      (case ci_referral_source info of None \<Rightarrow> True | Some ha \<Rightarrow> length (ha_host ha) \<le> 256))"
proof -
  obtain r where "decode_connect payload = Some r" "connect_info_ok r"
    using decode_connect_yields [of payload] by (auto simp: yields_def)
  then show ?thesis by (cases r) (simp add: connect_info_ok_def Let_def host_ok_def)
qed

definition ex_connect :: bytes where
  "ex_connect = connect_v2_layout 7 8 (replicate 20 0) 1 (replicate 16 0) ''bob'' ''en''"

theorem decode_connect_safe_witness: "\<exists>info ok. decode_connect ex_connect = Some (info, ok)"
  using decode_connect_safe [of ex_connect] by blast

text \<open>C35: The decoder inverts the layout of a Connect packet: for every checksum, build number, padded
  version, client type, UUID, and user name and language of at most 16 bytes, decoding the packet
  gives these fields back.\<close>

theorem connect_round_trip:
  assumes "length version = 20" "length uuid = 16" "length username \<le> 16" "length language \<le> 16"
  shows "decode_connect (connect_v2_layout crc build version client_type uuid username language) =
    Some (\<lparr>ci_hash = string_of_bytes (takeWhile (\<lambda>c. c \<noteq> 0) version), ci_crc = sint crc, ci_build = sint build,
      ci_version = string_of_bytes (takeWhile (\<lambda>c. c \<noteq> 0) version), ci_client_type = client_type,
      ci_uuid = format_uuid (get_u64_be (take 8 uuid)) (get_u64_be (drop 8 uuid)),
      ci_language = language, ci_identity = False, ci_username = username, ci_referral_len = 0,
      ci_referral_source = None\<rparr>, True)"
proof -
  have "length (write_var_int_loop (length s)) \<le> 1" if "length s \<le> 16" for s :: string
    using write_loop_length [of "length s" 0] that by simp
  from this [OF assms(3)] this [OF assms(4)] assms
  have "length (connect_v2_layout crc build version client_type uuid username language) < 102"
    by (simp add: connect_v2_layout_def)
  then show ?thesis by (simp add: decode_connect_def decode_connect_v2_layout [OF assms])
qed

theorem connect_round_trip_witness: "ci_username (fst (the (decode_connect ex_connect))) = ''bob''"
  unfolding ex_connect_def by (subst connect_round_trip) simp_all

text \<open>Variable-length integers round trip for every 32-bit value, wherever they stand in a buffer.\<close>

theorem var_int_round_trip:
  assumes "0 \<le> n" "n < 2 ^ 32" "write_var_int w n = Inr out"
  shows "read_var_int (out @ rest) (int (length w)) = Some (n, int (length out - length w), True)"
proof -
  from assms have out: "out = w @ write_var_int_loop (nat n)" by (simp add: write_var_int_def)
  have "nat n < 2 ^ 32" using assms by (simp add: nat_less_iff)
  from read_var_int_write [OF this, of w rest] assms(1) show ?thesis by (simp add: out)
qed

theorem var_int_round_trip_witness: "read_var_int ([9, 0xAC, 0x02] @ [5]) 1 = Some (300, 2, True)"
proof -
  have "write_var_int_loop 300 = [0xAC, 0x02]"
    by (simp add: write_var_int_loop.simps [of 300] write_var_int_loop.simps [of 2] drop_bit_eq_div)
  then have "write_var_int [9] 300 = Inr [9, 0xAC, 0x02]" by (simp add: write_var_int_def)
  from var_int_round_trip [OF _ _ this, of "[5]"] show ?thesis by simp
qed

text \<open>A ClientReferral payload is read back: it is rejected exactly for an empty or long host or long
  data, and otherwise the host and port stand at the first offset, and the data, if any, as a length
  and its bytes at the second, which is -1 without data.\<close>

theorem client_referral_round_trip:
  "case encode_client_referral_payload host port data of
     Inl _ \<Rightarrow> host = [] \<or> 256 < length host \<or> (\<exists>d. data = Some d \<and> 4096 < length d)
   | Inr payload \<Rightarrow>
       (\<exists>n. decode_host_address payload (9 + get_i32 (take 4 (drop 1 payload))) =
          Some (\<lparr>ha_host = host, ha_port = port\<rparr>, n, True)) \<and>
       (case data of
          None \<Rightarrow> get_i32 (take 4 (drop 5 payload)) = - 1
        | Some d \<Rightarrow> (\<exists>n. let pos = 9 + get_i32 (take 4 (drop 5 payload)) in
            read_var_int payload pos = Some (int (length d), n, True) \<and>
            slice payload (pos + n) (pos + n + int (length d)) = Some d))"
proof (cases "host = [] \<or> 256 < length host \<or> (\<exists>d. data = Some d \<and> 4096 < length d)")
  case True
  then show ?thesis using client_referral_errors [of host port data] by (auto split: if_splits)
next
  case False
  then have h: "host \<noteq> []" "length host \<le> 256" by auto
  let ?h = "host_part host port"
  have addr: "decode_host_address (pre @ ?h @ rest) (int (length pre)) =
      Some (\<lparr>ha_host = host, ha_port = port\<rparr>, int (2 + length (write_var_int_loop (length host)) + length host), True)"
    for pre rest unfolding host_part_def using decode_host_address_write [OF h(2)] by simp
  have zero: "get_i32 (put_u32 0) = 0" using get_i32_put [of 0] by simp
  show ?thesis
  proof (cases data)
    case None
    have "encode_client_referral_payload host port data = Inr ([1] @ put_u32 0 @ put_u32 (of_int (- 1)) @ ?h)"
      using client_referral_layout(1) [OF h] None by simp
    then show ?thesis using addr [of "[1] @ put_u32 0 @ put_u32 (of_int (- 1))" "[]"] zero get_i32_put [of "- 1"]
      by (simp add: None)
  next
    case (Some d)
    with False have d: "length d \<le> 4096" by auto
    let ?o = "put_u32 (of_int (int (length ?h)))" and ?v = "write_var_int_loop (length d)"
    have e: "encode_client_referral_payload host port data = Inr ([3] @ put_u32 0 @ ?o @ ?h @ ?v @ d)"
      using client_referral_layout(2) [OF h d] Some by simp
    have o: "get_i32 ?o = int (length ?h)"
      using host_part_length [OF h(2), of port] by (intro get_i32_put) simp_all
    have pos: "int (length ([3] @ put_u32 0 @ ?o @ ?h)) = 9 + int (length ?h)" by simp
    have small: "length d < 2 ^ 32" using d by simp
    have r: "read_var_int (([3] @ put_u32 0 @ ?o @ ?h) @ ?v @ d) (9 + int (length ?h)) =
        Some (int (length d), int (length ?v), True)"
      using read_var_int_write [OF small, of "[3] @ put_u32 0 @ ?o @ ?h" d] unfolding pos .
    have s: "slice (([3] @ put_u32 0 @ ?o @ ?h @ ?v) @ d @ []) (9 + int (length ?h) + int (length ?v))
        (9 + int (length ?h) + int (length ?v) + int (length d)) = Some d"
      using slice_mid [of "[3] @ put_u32 0 @ ?o @ ?h @ ?v" d "[]"] by (simp add: add.assoc)
    show ?thesis using addr [of "[3] @ put_u32 0 @ ?o" "?v @ d"] r s
      by (auto simp: Some e [unfolded Some, simplified] zero o [simplified] Let_def)
  qed
qed

text \<open>Writing a packet to a writer that keeps the contract of \<open>io.Writer\<close> always ends; on success
  exactly one frame (payload length and packet id in little-endian order, then the payload) has been
  appended to the stream, on failure a prefix of it.\<close>

theorem framed_packet_written:
  assumes "\<forall>w buf n failed w'. wr w buf = (n, failed, w') \<longrightarrow>
    n \<le> length buf \<and> (n < length buf \<longrightarrow> failed) \<and> written w' = written w @ take n buf"
  shows "\<exists>ok w'. write_framed_packet wr packet_id payload w = Some (ok, w') \<and>
    (let f = put_u32 (of_nat (length payload)) @ put_u32 packet_id @ payload in
     if ok then written w' = written w @ f else \<exists>k. written w' = written w @ take k f)"
proof -
  have "writer_contract wr written" using assms unfolding writer_contract_def .
  from write_all_contract [OF this, of "frame packet_id payload" w] show ?thesis
    unfolding write_framed_packet_def frame_def Let_def .
qed

theorem framed_packet_written_witness:
  "\<exists>ok w'. write_framed_packet buffer_write 1 [0, 0] [] = Some (ok, w')"
  using framed_packet_written [of buffer_write id 1 "[0, 0]" "[]"] buffer_contract
  unfolding writer_contract_def by blast

end
