(* ===== verification/GoCrypto.thy ===== *)
theory GoCrypto
  imports GoStrings GoBinary
begin

text \<open>
  The parts of Go's \<^verbatim>\<open>crypto/sha256\<close>, \<^verbatim>\<open>crypto/hmac\<close>, \<^verbatim>\<open>encoding/base64\<close> and \<^verbatim>\<open>encoding/hex\<close>
  that package \<^verbatim>\<open>referral\<close> calls.
\<close>

section \<open>Base 64 and hexadecimal\<close>

definition b64_value :: "char \<Rightarrow> nat option" where
  "b64_value c =
     (let n = code c in
      if 65 \<le> n \<and> n \<le> 90 then Some (n - 65)
      else if 97 \<le> n \<and> n \<le> 122 then Some (n - 71)
      else if 48 \<le> n \<and> n \<le> 57 then Some (n + 4)
      else if n = 43 then Some 62
      else if n = 47 then Some 63
      else None)"

fun b64_quanta :: "string \<Rightarrow> bytes option" where
  "b64_quanta [] = Some []"
| "b64_quanta (a # b # c # d # s) =
     (case (b64_value a, b64_value b) of
        (Some x, Some y) \<Rightarrow>
          if c = CHR ''='' then (if d = CHR ''='' \<and> s = [] then Some [of_nat (4 * x + y div 16)] else None)
          else (case b64_value c of
              None \<Rightarrow> None
            | Some z \<Rightarrow>
                if d = CHR ''='' then
                  (if s = [] then Some [of_nat (4 * x + y div 16), of_nat (16 * (y mod 16) + z div 4)] else None)
                else (case (b64_value d, b64_quanta s) of
                    (Some u, Some bs) \<Rightarrow>
                      Some ([of_nat (4 * x + y div 16), of_nat (16 * (y mod 16) + z div 4), of_nat (64 * (z mod 4) + u)] @ bs)
                  | _ \<Rightarrow> None))
      | _ \<Rightarrow> None)"
| "b64_quanta s = None"

text \<open>\<open>base64.StdEncoding.DecodeString\<close>; line breaks are skipped.\<close>

definition base64_decode :: "string \<Rightarrow> bytes option" where
  "base64_decode s = b64_quanta (filter (\<lambda>c. code c \<noteq> 10 \<and> code c \<noteq> 13) s)"

definition hex_digit_value :: "char \<Rightarrow> nat option" where
  "hex_digit_value c =
     (let n = code c in
      if 48 \<le> n \<and> n \<le> 57 then Some (n - 48)
      else if 97 \<le> n \<and> n \<le> 102 then Some (n - 87)
      else if 65 \<le> n \<and> n \<le> 70 then Some (n - 55)
      else None)"

fun hex_decode :: "string \<Rightarrow> bytes option" where
  "hex_decode [] = Some []"
| "hex_decode [c] = None"
| "hex_decode (a # b # s) =
     (case (hex_digit_value a, hex_digit_value b, hex_decode s) of
        (Some x, Some y, Some bs) \<Rightarrow> Some (of_nat (16 * x + y) # bs)
      | _ \<Rightarrow> None)"

section \<open>SHA-256\<close>

definition word_be :: "bytes \<Rightarrow> u32" where
  "word_be b = of_nat (le_value (rev b))"

fun words_be :: "nat \<Rightarrow> bytes \<Rightarrow> u32 list" where
  "words_be 0 b = []"
| "words_be (Suc k) b = word_be (take 4 b) # words_be k (drop 4 b)"

text \<open>Tables of words, written as the hexadecimal text of the standard.\<close>

definition word_table :: "nat \<Rightarrow> string \<Rightarrow> u32 list" where
  "word_table n s = (case hex_decode s of None \<Rightarrow> replicate n 0 | Some b \<Rightarrow> words_be n b)"

definition sha256_k :: "u32 list" where
  "sha256_k = word_table 64
    (''428a2f9871374491b5c0fbcfe9b5dba53956c25b59f111f1923f82a4ab1c5ed5'' @
     ''d807aa9812835b01243185be550c7dc372be5d7480deb1fe9bdc06a7c19bf174'' @
     ''e49b69c1efbe47860fc19dc6240ca1cc2de92c6f4a7484aa5cb0a9dc76f988da'' @
     ''983e5152a831c66db00327c8bf597fc7c6e00bf3d5a7914706ca635114292967'' @
     ''27b70a852e1b21384d2c6dfc53380d13650a7354766a0abb81c2c92e92722c85'' @
     ''a2bfe8a1a81a664bc24b8b70c76c51a3d192e819d6990624f40e3585106aa070'' @
     ''19a4c1161e376c082748774c34b0bcb5391c0cb34ed8aa4a5b9cca4f682e6ff3'' @
     ''748f82ee78a5636f84c878148cc7020890befffaa4506cebbef9a3f7c67178f2'')"

definition sha256_init :: "u32 list" where
  "sha256_init = word_table 8 ''6a09e667bb67ae853c6ef372a54ff53a510e527f9b05688c1f83d9ab5be0cd19''"

definition sha256_pad :: "bytes \<Rightarrow> bytes" where
  "sha256_pad m =
     m @ [0x80] @ replicate ((119 - length m mod 64) mod 64) 0 @ put_u64_be (of_nat (8 * length m))"

text \<open>The message schedule; the list holds the words so far, the latest first.\<close>

definition schedule_next :: "u32 list \<Rightarrow> u32" where
  "schedule_next ws =
     (let a = ws ! 14; b = ws ! 1 in
      (word_rotr 17 b XOR word_rotr 19 b XOR drop_bit 10 b) + ws ! 6 +
      (word_rotr 7 a XOR word_rotr 18 a XOR drop_bit 3 a) + ws ! 15)"

fun schedule :: "nat \<Rightarrow> u32 list \<Rightarrow> u32 list" where
  "schedule 0 ws = ws"
| "schedule (Suc k) ws = schedule k (schedule_next ws # ws)"

fun sha256_round :: "u32 \<times> u32 \<Rightarrow> u32 list \<Rightarrow> u32 list" where
  "sha256_round (k, w) [a, b, c, d, e, f, g, h] =
     (let t1 = h + (word_rotr 6 e XOR word_rotr 11 e XOR word_rotr 25 e) + ((e AND f) XOR (NOT e AND g)) + k + w;
          t2 = (word_rotr 2 a XOR word_rotr 13 a XOR word_rotr 22 a) + ((a AND b) XOR (a AND c) XOR (b AND c))
      in [t1 + t2, a, b, c, d + t1, e, f, g])"
| "sha256_round kw st = st"

definition sha256_block :: "bytes \<Rightarrow> u32 list \<Rightarrow> u32 list" where
  "sha256_block b st =
     (let ws = rev (schedule 48 (rev (words_be 16 b))) in
      map2 (+) st (fold sha256_round (zip sha256_k ws) st))"

fun sha256_blocks :: "nat \<Rightarrow> bytes \<Rightarrow> u32 list \<Rightarrow> u32 list" where
  "sha256_blocks 0 b st = st"
| "sha256_blocks (Suc k) b st = sha256_blocks k (drop 64 b) (sha256_block (take 64 b) st)"

definition sha256 :: "bytes \<Rightarrow> bytes" where
  "sha256 m =
     (let p = sha256_pad m in
      concat (map (\<lambda>w. rev (put_u32 w)) (sha256_blocks (length p div 64) p sha256_init)))"

section \<open>HMAC\<close>

definition hmac_sha256 :: "bytes \<Rightarrow> bytes \<Rightarrow> bytes" where
  "hmac_sha256 key m =
     (let k0 = (if 64 < length key then sha256 key else key);
          k = k0 @ replicate (64 - length k0) 0
      in sha256 (map (\<lambda>b. b XOR 0x5c) k @ sha256 (map (\<lambda>b. b XOR 0x36) k @ m)))"

lemma words_be_length [simp]: "length (words_be n b) = n"
  by (induction n arbitrary: b) simp_all

lemma word_table_length [simp]: "length (word_table n s) = n"
  by (simp add: word_table_def split: option.split)

lemma sha256_round_length [simp]: "length (sha256_round kw st) = length st"
  by (cases "(kw, st)" rule: sha256_round.cases) (simp_all add: Let_def)

lemma fold_round_length [simp]: "length (fold sha256_round xs st) = length st"
  by (induction xs arbitrary: st) simp_all

lemma sha256_blocks_length: "length (sha256_blocks k b st) = length st"
  by (induction k arbitrary: b st) (simp_all add: sha256_block_def Let_def)

lemma sha256_length [simp]: "length (sha256 m) = 32"
proof -
  have "length (concat (map (\<lambda>w. rev (put_u32 w)) ws)) = 4 * length ws" for ws
    by (induction ws) simp_all
  then show ?thesis by (simp add: sha256_def Let_def sha256_blocks_length sha256_init_def word_table_length)
qed

lemma hmac_length [simp]: "length (hmac_sha256 k m) = 32"
  by (simp add: hmac_sha256_def Let_def)

end
