(* ===== verification/Referral.thy ===== *)
theory Referral
  imports GoCrypto
begin

text \<open>
  \<^verbatim>\<open>internal/referral/referral.go\<close>: the signed envelope that a referral carries to the backend
  (encoding, parsing, verification) and the secrets of its configuration. \<open>Parse\<close> slices its input:
  its model is \<open>None\<close> where a slice expression would panic.
\<close>

section \<open>Data\<close>

definition magic_v1 :: bytes where
  "magic_v1 = bytes_of_string ''HYRP''"

definition envelope_version_v1 :: byte where
  "envelope_version_v1 = 1"

definition flag_signed :: byte where
  "flag_signed = 0x01"

definition max_envelope_size :: int where
  "max_envelope_size = 4096"

definition hmac_size :: int where
  "hmac_size = 32"

definition v1_header_size :: int where
  "v1_header_size = 4 + 1 + 1 + 1 + 2"

record envelope =
  env_version :: byte
  env_flags :: byte
  env_key_id :: byte
  env_content :: bytes
  env_hmac :: bytes
  env_signed :: bool
  env_raw :: bytes
  env_raw_no_sig :: bytes

datatype referral_error =
    EmptySecret | BadBase64 | BadHex
  | ContentTooLarge | EnvelopeTooLarge
  | BufferTooSmall | InvalidMagic | UnsupportedVersion | InvalidLength
  | NotSigned | InvalidHmac | UnknownKeyId

section \<open>Secrets\<close>

definition decode_secret :: "string \<Rightarrow> referral_error + bytes" where
  "decode_secret s0 =
     (let s = trim_space s0 in
      if s = [] then Inl EmptySecret
      else if has_prefix (to_lower s) ''base64:'' then
        (case base64_decode (trim_space (drop (length ''base64:'') s)) of None \<Rightarrow> Inl BadBase64 | Some b \<Rightarrow> Inr b)
      else if has_prefix (to_lower s) ''hex:'' then
        (case hex_decode (trim_space (drop (length ''hex:'') s)) of None \<Rightarrow> Inl BadHex | Some b \<Rightarrow> Inr b)
      else Inr (bytes_of_string s))"

section \<open>Encoding\<close>

text \<open>The envelope without its signature.\<close>

definition envelope_v1_body :: "bytes \<Rightarrow> byte \<Rightarrow> byte \<Rightarrow> bytes" where
  "envelope_v1_body content flags key_id =
     magic_v1 @ [envelope_version_v1, flags, key_id] @ put_u16 (of_nat (length content)) @ content"

definition encode_v1 :: "bytes \<Rightarrow> byte \<Rightarrow> bytes \<Rightarrow> referral_error + bytes" where
  "encode_v1 content key_id secret =
     (if max_envelope_size < int (length content) then Inl ContentTooLarge
      else
        let flags = (if 0 < length secret then flag_signed else 0);
            sig_size = (if flags AND flag_signed \<noteq> 0 then hmac_size else 0);
            total = v1_header_size + int (length content) + sig_size
        in if max_envelope_size < total then Inl EnvelopeTooLarge
          else
            let body = envelope_v1_body content flags key_id in
            Inr (if flags AND flag_signed \<noteq> 0 then body @ hmac_sha256 secret body else body))"

section \<open>Parsing\<close>

definition parse_envelope :: "bytes \<Rightarrow> (referral_error + envelope) option" where
  "parse_envelope b =
     (if int (length b) < v1_header_size then Some (Inl BufferTooSmall)
      else do {
        magic \<leftarrow> slice b 0 4;
        if magic \<noteq> magic_v1 then Some (Inl InvalidMagic)
        else do {
          version \<leftarrow> byte_at b 4;
          if version \<noteq> envelope_version_v1 then Some (Inl UnsupportedVersion)
          else do {
            flags \<leftarrow> byte_at b 5;
            key_id \<leftarrow> byte_at b 6;
            len_bytes \<leftarrow> slice b 7 9;
            let content_len = int (unat (get_u16 len_bytes));
            let signed = (flags AND flag_signed \<noteq> 0);
            let need = v1_header_size + content_len + (if signed then hmac_size else 0);
            if content_len < 0 \<or> int (length b) < need then Some (Inl InvalidLength)
            else if max_envelope_size < need then Some (Inl EnvelopeTooLarge)
            else do {
              content \<leftarrow> slice b 9 (9 + content_len);
              mac \<leftarrow> (if signed then slice b (9 + content_len) (9 + content_len + hmac_size) else Some []);
              raw \<leftarrow> slice b 0 need;
              raw_no_sig \<leftarrow> (if signed then slice raw 0 (int (length raw) - hmac_size) else Some raw);
              Some (Inr \<lparr>env_version = envelope_version_v1, env_flags = flags, env_key_id = key_id,
                env_content = content, env_hmac = mac, env_signed = signed,
                env_raw = raw, env_raw_no_sig = raw_no_sig\<rparr>)
            }
          }
        }
      })"

section \<open>Verification\<close>

definition verify_hmac_sha256 :: "bytes \<Rightarrow> bytes \<Rightarrow> (referral_error + envelope) option" where
  "verify_hmac_sha256 b secret = do {
     r \<leftarrow> parse_envelope b;
     case r of
       Inl e \<Rightarrow> Some (Inl e)
     | Inr env \<Rightarrow>
         if \<not> env_signed env then Some (Inl NotSigned)
         else if hmac_sha256 secret (env_raw_no_sig env) \<noteq> env_hmac env then Some (Inl InvalidHmac)
         else Some (Inr env)
   }"

text \<open>The provider answers the secret of a key id, \<open>None\<close> if it knows none.\<close>

definition verify_with_secret_provider ::
  "bytes \<Rightarrow> (byte \<Rightarrow> bytes option) \<Rightarrow> (referral_error + envelope) option"
where
  "verify_with_secret_provider b secret_for = do {
     r \<leftarrow> parse_envelope b;
     case r of
       Inl e \<Rightarrow> Some (Inl e)
     | Inr env \<Rightarrow>
         if \<not> env_signed env then Some (Inl NotSigned)
         else (case secret_for (env_key_id env) of
             None \<Rightarrow> Some (Inl UnknownKeyId)
           | Some secret \<Rightarrow> verify_hmac_sha256 b secret)
   }"

section \<open>The shape of an envelope\<close>

lemmas envelope_consts = envelope_version_v1_def flag_signed_def max_envelope_size_def hmac_size_def v1_header_size_def

lemma magic_length [simp]: "length magic_v1 = 4"
  by (simp add: magic_v1_def)

lemma body_length [simp]: "length (envelope_v1_body c f k) = 9 + length c"
  by (simp add: envelope_v1_body_def)

lemma flag_one [simp]: "(1 :: byte) AND flag_signed \<noteq> 0" "flag_signed AND flag_signed \<noteq> 0" "(0 :: byte) AND flag_signed = 0"
  by (simp_all add: flag_signed_def)

text \<open>The encoder fails only for size, and otherwise appends the signature of the body.\<close>

lemma encode_v1_eq:
  "encode_v1 content key_id secret =
     (let flags = (if secret = [] then 0 else 1);
          body = envelope_v1_body content flags key_id;
          out = (if secret = [] then body else body @ hmac_sha256 secret body)
      in if 4096 < length content then Inl ContentTooLarge
         else if 4096 < length out then Inl EnvelopeTooLarge
         else Inr out)"
  by (auto simp: encode_v1_def Let_def envelope_consts)

text \<open>What a successful parse says of its input, and conversely.\<close>

definition envelope_of :: "bytes \<Rightarrow> byte \<Rightarrow> byte \<Rightarrow> bytes \<Rightarrow> envelope" where
  "envelope_of content flags key_id mac =
     \<lparr>env_version = 1, env_flags = flags, env_key_id = key_id, env_content = content, env_hmac = mac,
      env_signed = (flags AND flag_signed \<noteq> 0), env_raw = envelope_v1_body content flags key_id @ mac,
      env_raw_no_sig = envelope_v1_body content flags key_id\<rparr>"

definition mac_len_ok :: "byte \<Rightarrow> bytes \<Rightarrow> bool" where
  "mac_len_ok flags mac \<longleftrightarrow> length mac = (if flags AND flag_signed \<noteq> 0 then 32 else 0)"

lemma slice_prefix: "slice (a @ c) 0 (int (length a)) = Some a"
  using slice_mid [of "[]" a c] by simp

lemma parse_layout:
  assumes "mac_len_ok flags mac" "9 + length content + length mac \<le> 4096"
  shows "parse_envelope (envelope_v1_body content flags key_id @ mac @ rest) =
    Some (Inr (envelope_of content flags key_id mac))"
proof -
  let ?b = "envelope_v1_body content flags key_id @ mac @ rest"
  have b: "?b = magic_v1 @ [1, flags, key_id] @ put_u16 (of_nat (length content)) @ content @ mac @ rest"
    by (simp add: envelope_v1_body_def envelope_version_v1_def)
  have len: "unat (of_nat (length content) :: u16) = length content"
    using assms(2) by (simp add: unat_of_nat)
  then have len': "uint (of_nat (length content) :: u16) = int (length content)" by (metis uint_nat)
  have s: "slice ?b 0 4 = Some magic_v1" "byte_at ?b 4 = Some 1" "byte_at ?b 5 = Some flags" "byte_at ?b 6 = Some key_id"
    "slice ?b 7 9 = Some (put_u16 (of_nat (length content)))"
    using slice_prefix [of magic_v1] byte_at_mid [of magic_v1]
      byte_at_mid [of "magic_v1 @ [1]"] byte_at_mid [of "magic_v1 @ [1, flags]"]
      slice_mid [of "magic_v1 @ [1, flags, key_id]" "put_u16 (of_nat (length content))"]
    by (simp_all add: b)
  have content: "slice ?b 9 (9 + int (length content)) = Some content"
    using slice_mid [of "magic_v1 @ [1, flags, key_id] @ put_u16 (of_nat (length content))" content "mac @ rest"]
    by (simp add: b)
  have mac: "slice ?b (9 + int (length content)) (9 + int (length content) + int (length mac)) = Some mac"
    using slice_mid [of "envelope_v1_body content flags key_id" mac rest] by simp
  have raw: "slice ?b 0 (9 + int (length content) + int (length mac)) = Some (envelope_v1_body content flags key_id @ mac)"
    using slice_prefix [of "envelope_v1_body content flags key_id @ mac" rest] by simp
  have no_sig: "slice (envelope_v1_body content flags key_id @ mac) 0 (9 + int (length content)) =
      Some (envelope_v1_body content flags key_id)"
    using slice_prefix [of "envelope_v1_body content flags key_id" mac] by simp
  show ?thesis using assms s content mac raw no_sig
    by (simp add: parse_envelope_def Let_def envelope_consts len len' envelope_of_def mac_len_ok_def split: if_splits)
qed

lemma split_u16: "length b = 2 \<Longrightarrow> put_u16 (get_u16 b) = b"
  using le_bytes_value [of b] by (simp add: put_u16_def get_u16_eq)


lemma split_header:
  assumes "9 \<le> length b"
  shows "b = take 4 b @ [b ! 4, b ! 5, b ! 6] @ take 2 (drop 7 b) @ drop 9 b"
proof -
  from assms obtain b0 b1 b2 b3 b4 b5 b6 b7 b8 r where "b = b0 # b1 # b2 # b3 # b4 # b5 # b6 # b7 # b8 # r"
    by (auto simp: Suc_le_length_iff numeral_eq_Suc)
  then show ?thesis by simp
qed

text \<open>The guards of \<open>Parse\<close>, in order; no slice expression is out of range.\<close>

definition content_length :: "bytes \<Rightarrow> nat" where
  "content_length b = unat (get_u16 (take 2 (drop 7 b)))"

definition needed :: "bytes \<Rightarrow> nat" where
  "needed b = 9 + content_length b + (if b ! 5 AND flag_signed \<noteq> 0 then 32 else 0)"

lemma parsed_layout:
  assumes good: "9 \<le> length b" "take 4 b = magic_v1" "b ! 4 = 1" "needed b \<le> length b" "needed b \<le> 4096"
  defines "c \<equiv> take (content_length b) (drop 9 b)"
    and "m \<equiv> take (needed b - 9 - content_length b) (drop (9 + content_length b) b)"
  shows "b = envelope_v1_body c (b ! 5) (b ! 6) @ m @ drop (needed b) b"
    and "mac_len_ok (b ! 5) m" and "9 + length c + length m \<le> 4096"
proof -
  have len: "length c = content_length b" "length m = needed b - 9 - content_length b"
    using good by (simp_all add: needed_def c_def m_def)
  have "drop (needed b - 9 - content_length b) (drop (9 + content_length b) b) = drop (needed b) b"
    by (simp add: needed_def add.commute)
  then have "drop (9 + content_length b) b = m @ drop (needed b) b" unfolding m_def by (metis append_take_drop_id)
  then have "drop 9 b = c @ m @ drop (needed b) b" unfolding c_def by (metis append_take_drop_id drop_drop add.commute)
  moreover have "put_u16 (of_nat (length c)) = take 2 (drop 7 b)"
    using good(1) by (simp only: len content_length_def) (simp add: split_u16)
  ultimately show "b = envelope_v1_body c (b ! 5) (b ! 6) @ m @ drop (needed b) b"
    using split_header [OF good(1)] good(2,3) by (simp add: envelope_v1_body_def envelope_version_v1_def)
  show "mac_len_ok (b ! 5) m" by (simp only: mac_len_ok_def len) (simp add: needed_def)
  show "9 + length c + length m \<le> 4096" using good(5) by (simp only: len) (simp add: needed_def)
qed

lemma parse_envelope_cases:
  "parse_envelope b = Some
     (if length b < 9 then Inl BufferTooSmall
      else if take 4 b \<noteq> magic_v1 then Inl InvalidMagic
      else if b ! 4 \<noteq> 1 then Inl UnsupportedVersion
      else if length b < needed b then Inl InvalidLength
      else if 4096 < needed b then Inl EnvelopeTooLarge
      else Inr (envelope_of (take (content_length b) (drop 9 b)) (b ! 5) (b ! 6)
             (take (needed b - 9 - content_length b) (drop (9 + content_length b) b))))"
proof -
  consider (small) "length b < 9" | (magic) "9 \<le> length b" "take 4 b \<noteq> magic_v1"
    | (version) "9 \<le> length b" "take 4 b = magic_v1" "b ! 4 \<noteq> 1"
    | (long) "9 \<le> length b" "take 4 b = magic_v1" "b ! 4 = 1" "length b < needed b"
    | (big) "9 \<le> length b" "take 4 b = magic_v1" "b ! 4 = 1" "needed b \<le> length b" "4096 < needed b"
    | (good) "9 \<le> length b" "take 4 b = magic_v1" "b ! 4 = 1" "needed b \<le> length b" "needed b \<le> 4096"
    by linarith
  then show ?thesis
  proof cases
    case good
    note l = parsed_layout [OF good]
    from parse_layout [OF l(2,3), of "b ! 6" "drop (needed b) b"] l(1) have
      "parse_envelope b = Some (Inr (envelope_of (take (content_length b) (drop 9 b)) (b ! 5) (b ! 6)
        (take (needed b - 9 - content_length b) (drop (9 + content_length b) b))))" by simp
    with good show ?thesis by simp
  qed (auto simp del: of_nat_unat simp: parse_envelope_def envelope_consts slice_def byte_at_def Let_def needed_def content_length_def
       split: if_splits)
qed

lemma parse_envelope_layout:
  assumes "parse_envelope b = Some (Inr env)"
  shows "\<exists>c f k mac rest. b = envelope_v1_body c f k @ mac @ rest \<and> mac_len_ok f mac \<and> env = envelope_of c f k mac \<and>
    9 + length c + length mac \<le> 4096"
proof -
  from assms have good: "9 \<le> length b" "take 4 b = magic_v1" "b ! 4 = 1" "needed b \<le> length b" "needed b \<le> 4096"
    and env: "env = envelope_of (take (content_length b) (drop 9 b)) (b ! 5) (b ! 6)
      (take (needed b - 9 - content_length b) (drop (9 + content_length b) b))"
    by (auto simp: parse_envelope_cases split: if_splits)
  from parsed_layout [OF good] env show ?thesis by blast
qed

text \<open>A parsed envelope is a prefix of the input that lays out the parsed fields.\<close>

lemma parse_sound:
  assumes "parse_envelope b = Some (Inr env)"
  shows "\<exists>mac rest. b = envelope_v1_body (env_content env) (env_flags env) (env_key_id env) @ mac @ rest \<and>
    mac_len_ok (env_flags env) mac \<and> env = envelope_of (env_content env) (env_flags env) (env_key_id env) mac \<and>
    9 + length (env_content env) + length mac \<le> 4096"
proof -
  obtain c f k mac rest where "b = envelope_v1_body c f k @ mac @ rest" "mac_len_ok f mac" "env = envelope_of c f k mac"
    "9 + length c + length mac \<le> 4096"
    using parse_envelope_layout [OF assms] by blast
  then show ?thesis by (intro exI [of _ mac] exI [of _ rest]) (simp add: envelope_of_def)
qed

end
