(* ===== verification/ReferralProperties.thy ===== *)
theory ReferralProperties
  imports Referral
begin

text \<open>
  The properties of the referral envelope (\<^verbatim>\<open>internal/referral/referral.go\<close>): what is encoded is
  parsed and verified again, only envelopes with the right signature are accepted, and no input
  makes the parser panic.
\<close>

text \<open>An encoded envelope parses back to its content and key id, whatever follows it in the buffer;
  it is marked signed exactly when there was a secret, and its raw form is the encoding.\<close>

theorem envelope_round_trip:
  assumes "encode_v1 content key_id secret = Inr out"
  shows "\<exists>env. parse_envelope (out @ rest) = Some (Inr env) \<and> env_content env = content \<and>
    env_key_id env = key_id \<and> (env_signed env \<longleftrightarrow> secret \<noteq> []) \<and> env_raw env = out \<and> length out \<le> 4096"
proof -
  define body where "body = envelope_v1_body content (if secret = [] then 0 else 1) key_id"
  define mac where "mac = (if secret = [] then [] else hmac_sha256 secret body)"
  from assms have out: "out = body @ mac" and size: "length out \<le> 4096"
    by (auto simp: encode_v1_eq Let_def body_def mac_def split: if_splits)
  have ok: "mac_len_ok (if secret = [] then 0 else 1) mac"
    by (simp add: mac_len_ok_def mac_def flag_signed_def)
  have "9 + length content + length mac \<le> 4096" using size by (simp add: out body_def)
  from parse_layout [OF ok this, of key_id rest] size show ?thesis
    by (simp add: out body_def [symmetric] envelope_of_def)
qed

theorem envelope_round_trip_witness:
  "\<exists>env. parse_envelope (projr (encode_v1 [1, 2, 3] 7 []) @ [9]) = Some (Inr env) \<and> env_content env = [1, 2, 3]"
proof -
  have "encode_v1 [1, 2, 3] 7 [] = Inr (envelope_v1_body [1, 2, 3] 0 7)" by (simp add: encode_v1_eq Let_def)
  from envelope_round_trip [OF this, of "[9]"] this show ?thesis by auto
qed

text \<open>C33: The receiver that knows the secret of the key id accepts the envelope and reads the
  content.\<close>

theorem envelope_verifies:
  assumes "encode_v1 content key_id secret = Inr out" "secret \<noteq> []" "secret_for key_id = Some secret"
  shows "\<exists>env. verify_with_secret_provider (out @ rest) secret_for = Some (Inr env) \<and>
    env_content env = content \<and> env_key_id env = key_id"
proof -
  define body where "body = envelope_v1_body content 1 key_id"
  from assms(1,2) have out: "out = body @ hmac_sha256 secret body" and size: "length out \<le> 4096"
    by (auto simp: encode_v1_eq Let_def body_def split: if_splits)
  have "mac_len_ok 1 (hmac_sha256 secret body)" by (simp add: mac_len_ok_def)
  moreover have "9 + length content + length (hmac_sha256 secret body) \<le> 4096"
    using size by (simp add: out body_def)
  ultimately have "parse_envelope (out @ rest) = Some (Inr (envelope_of content 1 key_id (hmac_sha256 secret body)))"
    using parse_layout [of 1 "hmac_sha256 secret body" content key_id rest] by (simp add: out body_def)
  then show ?thesis using assms(3)
    by (simp add: verify_with_secret_provider_def verify_hmac_sha256_def envelope_of_def body_def)
qed

theorem envelope_verifies_witness:
  "\<exists>env. verify_with_secret_provider (projr (encode_v1 [1, 2, 3] 7 [5]))
     (\<lambda>k. if k = 7 then Some [5] else None) = Some (Inr env) \<and> env_content env = [1, 2, 3]"
proof -
  let ?body = "envelope_v1_body [1, 2, 3] 1 7"
  have e: "encode_v1 [1, 2, 3] 7 [5] = Inr (?body @ hmac_sha256 [5] ?body)" by (simp add: encode_v1_eq Let_def)
  from envelope_verifies [OF e, of "\<lambda>k. if k = 7 then Some [5] else None" "[]"] e show ?thesis by auto
qed

text \<open>C10: Only a correctly signed envelope is accepted: the input begins with an envelope whose
  signature is the HMAC, under the secret, of everything before it, and the result is read from that
  envelope.\<close>

theorem verification_sound:
  assumes "verify_hmac_sha256 b secret = Some (Inr env)"
  shows "\<exists>rest. let body = envelope_v1_body (env_content env) (env_flags env) (env_key_id env) in
    b = body @ hmac_sha256 secret body @ rest \<and> env_raw env = body @ hmac_sha256 secret body \<and>
    env_raw_no_sig env = body \<and> env_flags env AND 1 \<noteq> 0"
proof -
  obtain r where r: "parse_envelope b = Some r" by (simp add: parse_envelope_cases)
  with assms have p: "parse_envelope b = Some (Inr env)" and s: "env_signed env"
    and mac: "hmac_sha256 secret (env_raw_no_sig env) = env_hmac env"
    by (cases r; simp add: verify_hmac_sha256_def split: if_splits)+
  from parse_sound [OF p] obtain m rest where m:
    "b = envelope_v1_body (env_content env) (env_flags env) (env_key_id env) @ m @ rest"
    "env = envelope_of (env_content env) (env_flags env) (env_key_id env) m" by blast
  let ?body = "envelope_v1_body (env_content env) (env_flags env) (env_key_id env)"
  have "env_hmac env = m" by (subst m(2)) (simp add: envelope_of_def)
  moreover have "env_raw_no_sig env = ?body" by (subst m(2)) (simp add: envelope_of_def)
  moreover have "env_raw env = ?body @ m" by (subst m(2)) (simp add: envelope_of_def)
  moreover have "env_signed env = (env_flags env AND flag_signed \<noteq> 0)" by (subst m(2)) (simp add: envelope_of_def)
  ultimately show ?thesis using m(1) mac s by (simp add: Let_def flag_signed_def)
qed

theorem verification_sound_witness:
  "\<exists>env rest. verify_hmac_sha256 (projr (encode_v1 [1] 7 [5])) [5] = Some (Inr env) \<and>
     projr (encode_v1 [1] 7 [5]) = env_raw env @ rest"
proof -
  let ?body = "envelope_v1_body [1] 1 7" and ?mac = "hmac_sha256 [5] (envelope_v1_body [1] 1 7)"
  have e: "encode_v1 [1] 7 [5] = Inr (?body @ ?mac)" by (simp add: encode_v1_eq Let_def)
  have "parse_envelope (?body @ ?mac @ []) = Some (Inr (envelope_of [1] 1 7 ?mac))"
    by (rule parse_layout) (simp_all add: mac_len_ok_def)
  then have v: "verify_hmac_sha256 (?body @ ?mac) [5] = Some (Inr (envelope_of [1] 1 7 ?mac))"
    by (simp add: verify_hmac_sha256_def envelope_of_def)
  from verification_sound [OF this] obtain rest where "?body @ ?mac = env_raw (envelope_of [1] 1 7 ?mac) @ rest"
    unfolding Let_def by (metis append_assoc)
  with v e show ?thesis unfolding e sum.sel by blast
qed

text \<open>Parsing never panics, and its errors come in this order: a buffer shorter than the header, a
  wrong magic, a wrong version, a length beyond the buffer, a length beyond 4096 bytes.\<close>

theorem parse_errors:
  "\<exists>r. parse_envelope b = Some r \<and>
    (case r of
       Inr env \<Rightarrow> 9 \<le> length b \<and> take 4 b = magic_v1 \<and> b ! 4 = 1 \<and> needed b \<le> min (length b) 4096 \<and>
         env_raw env = take (needed b) b
     | Inl e \<Rightarrow>
         if length b < 9 then e = BufferTooSmall
         else if take 4 b \<noteq> magic_v1 then e = InvalidMagic
         else if b ! 4 \<noteq> 1 then e = UnsupportedVersion
         else if length b < needed b then e = InvalidLength
         else 4096 < needed b \<and> e = EnvelopeTooLarge)"
proof (cases "9 \<le> length b \<and> take 4 b = magic_v1 \<and> b ! 4 = 1 \<and> needed b \<le> length b \<and> needed b \<le> 4096")
  case False
  then show ?thesis by (auto simp: parse_envelope_cases)
next
  case True
  then have good: "9 \<le> length b" "take 4 b = magic_v1" "b ! 4 = 1" "needed b \<le> length b" "needed b \<le> 4096"
    by simp_all
  let ?c = "take (content_length b) (drop 9 b)"
  let ?m = "take (needed b - 9 - content_length b) (drop (9 + content_length b) b)"
  have p: "parse_envelope b = Some (Inr (envelope_of ?c (b ! 5) (b ! 6) ?m))"
    using good by (simp add: parse_envelope_cases)
  have raw: "env_raw (envelope_of ?c (b ! 5) (b ! 6) ?m) = envelope_v1_body ?c (b ! 5) (b ! 6) @ ?m"
    by (simp add: envelope_of_def)
  have "length (envelope_v1_body ?c (b ! 5) (b ! 6) @ ?m) = needed b"
    using good(4) by (simp add: needed_def)
  moreover have "b = (envelope_v1_body ?c (b ! 5) (b ! 6) @ ?m) @ drop (needed b) b"
    using parsed_layout(1) [OF good] by simp
  ultimately have "env_raw (envelope_of ?c (b ! 5) (b ! 6) ?m) = take (needed b) b"
    unfolding raw by (metis append_eq_conv_conj)
  with p good show ?thesis by simp
qed

end
