(* ===== verification/ConfigTypes.thy ===== *)
theory ConfigTypes
  imports RoutingTypes
begin

text \<open>
  The configuration records of \<^verbatim>\<open>internal/config/config.go\<close>. A pointer to a section is an option. The
  map of message locales is the list of its entries in the order in which Go iterates over it (their
  keys are different), \<open>None\<close> for a nil map.
\<close>

record tls_config =
  tls_cert :: string
  tls_key :: string
  tls_alpn :: "string list"

record quic_config =
  quic_idle :: string

record referral_config =
  ref_key_id :: byte
  ref_secret :: string

record disconnect_messages =
  dm_no_route :: string
  dm_no_backends :: string
  dm_routing_error :: string
  dm_discovery_error :: string

record messages_config =
  msg_disconnect :: disconnect_messages
  msg_locales :: "(string \<times> disconnect_messages) list option"

record plugin_config =
  pc_name :: string
  pc_type :: string
  pc_stage :: string
  pc_before :: "string list"
  pc_after :: "string list"
  pc_grpc :: "string option"
  pc_wasm :: "string option"

record k8s_selector =
  sel_labels :: string
  sel_annotations :: string

record k8s_port =
  kp_name :: string
  kp_number :: int
  kp_container :: int

record k8s_service_ref =
  ksr_name :: string
  ksr_namespace :: string

record k8s_resource =
  kr_kind :: string
  kr_service :: "k8s_service_ref option"
  kr_selector :: "k8s_selector option"
  kr_port :: k8s_port

record k8s_filters =
  kf_pod_ready :: bool
  kf_pod_phase :: "string list"
  kf_endpoint_ready :: bool

record k8s_metadata =
  km_labels :: "string list"
  km_annotations :: "string list"

record k8s_discovery =
  kd_kubeconfig :: string
  kd_namespaces :: "string list"
  kd_resources :: "k8s_resource list"
  kd_filters :: k8s_filters
  kd_metadata :: k8s_metadata

record agones_address =
  aa_source :: string
  aa_preference :: "string list"

record agones_discovery =
  ad_kubeconfig :: string
  ad_namespaces :: "string list"
  ad_mode :: string
  ad_min_interval :: string
  ad_state :: "string list"
  ad_selector :: "k8s_selector option"
  ad_metadata :: k8s_metadata
  ad_address :: "agones_address option"
  ad_port :: k8s_port

record discovery_provider =
  dp_name :: string
  dp_type :: string
  dp_kubernetes :: "k8s_discovery option"
  dp_agones :: "agones_discovery option"

record config =
  cfg_listen :: string
  cfg_tls :: tls_config
  cfg_quic :: quic_config
  cfg_routing :: routing_config
  cfg_referral :: "referral_config option"
  cfg_plugins :: "plugin_config list"
  cfg_discovery :: "discovery_provider list option"
  cfg_messages :: messages_config
  cfg_log_client_ip :: bool

end
