(* ===== verification/PluginOrder.thy ===== *)
theory PluginOrder
  imports ConfigTypes
begin

text \<open>
  \<^verbatim>\<open>internal/plugins/order.go\<close>: the order in which plugins run, by stage and, within a stage, by the
  before/after constraints. Plugins are named by their index in the configuration.
\<close>

section \<open>The constraint graph\<close>

text \<open>The index of a name in a stage; a later plugin of the same name hides an earlier one.\<close>

definition name_to_idx :: "plugin_config list \<Rightarrow> nat list \<Rightarrow> string \<rightharpoonup> nat" where
  "name_to_idx cfgs ids = map_of (rev (map (\<lambda>i. (pc_name (cfgs ! i), i)) ids))"

text \<open>The edges in the order in which the code adds them: the source runs before the target.\<close>

definition plugin_edges :: "plugin_config list \<Rightarrow> nat list \<Rightarrow> nat \<Rightarrow> (nat \<times> nat) list" where
  "plugin_edges cfgs ids i =
     (let look = name_to_idx cfgs ids in
      List.map_filter (\<lambda>dep. map_option (\<lambda>j. (j, i)) (look dep)) (pc_after (cfgs ! i)) @
      List.map_filter (\<lambda>dep. map_option (\<lambda>j. (i, j)) (look dep)) (pc_before (cfgs ! i)))"

definition constraint_edges :: "plugin_config list \<Rightarrow> nat list \<Rightarrow> (nat \<times> nat) list" where
  "constraint_edges cfgs ids = concat (map (plugin_edges cfgs ids) ids)"

text \<open>The two maps of the code: successors, and the number of predecessors.\<close>

record graph =
  g_edges :: "nat \<Rightarrow> nat list"
  g_indeg :: "nat \<Rightarrow> int"

definition add_edge :: "nat \<times> nat \<Rightarrow> graph \<Rightarrow> graph" where
  "add_edge e g =
     g\<lparr>g_edges := (g_edges g)(fst e := g_edges g (fst e) @ [snd e]),
       g_indeg := (g_indeg g)(snd e := g_indeg g (snd e) + 1)\<rparr>"

definition build_graph :: "(nat \<times> nat) list \<Rightarrow> graph" where
  "build_graph es = fold add_edge es \<lparr>g_edges = (\<lambda>_. []), g_indeg = (\<lambda>_. 0)\<rparr>"

definition take_away :: "nat \<Rightarrow> (nat \<Rightarrow> int) \<Rightarrow> (nat \<Rightarrow> int)" where
  "take_away t d = d(t := d t - 1)"

section \<open>The sort\<close>

text \<open>The loop: \<open>out\<close> is also the set of processed indices. \<open>None\<close> is the cycle error.\<close>

function topo_loop :: "nat list \<Rightarrow> (nat \<Rightarrow> nat list) \<Rightarrow> (nat \<Rightarrow> int) \<Rightarrow> nat list \<Rightarrow> nat list option" where
  "topo_loop ids edges indeg out =
     (if length out < length ids then
        (case find (\<lambda>i. i \<notin> set out \<and> indeg i = 0) ids of
           None \<Rightarrow> None
         | Some found \<Rightarrow> topo_loop ids edges (fold take_away (edges found) indeg) (out @ [found]))
      else Some out)"
  by pat_completeness auto

termination topo_loop
  by (relation "measure (\<lambda>(ids, edges, indeg, out). length ids - length out)") auto

declare topo_loop.simps [simp del]

definition topo_sort_by_constraints :: "plugin_config list \<Rightarrow> nat list \<Rightarrow> nat list option" where
  "topo_sort_by_constraints cfgs ids =
     (let g = build_graph (constraint_edges cfgs ids) in topo_loop ids (g_edges g) (g_indeg g) [])"

definition plugin_stage :: "plugin_config \<Rightarrow> string" where
  "plugin_stage p = (let s = to_lower (pc_stage p) in if s = [] then ''route'' else s)"

definition stage_ids :: "plugin_config list \<Rightarrow> string \<Rightarrow> nat list" where
  "stage_ids cfgs s = filter (\<lambda>i. plugin_stage (cfgs ! i) = s) [0..<length cfgs]"

fun sort_stages :: "plugin_config list \<Rightarrow> string list \<Rightarrow> string + nat list" where
  "sort_stages cfgs [] = Inr []"
| "sort_stages cfgs (s # ss) =
     (case topo_sort_by_constraints cfgs (stage_ids cfgs s) of
        None \<Rightarrow> Inl s
      | Some o1 \<Rightarrow> (case sort_stages cfgs ss of Inl e \<Rightarrow> Inl e | Inr o2 \<Rightarrow> Inr (o1 @ o2)))"

text \<open>
  \<open>OrderPluginConfigs\<close>. Stages other than the three known ones come last, in the order in which Go
  iterates over the map, which is the argument \<open>others\<close>. The error names the stage with a cycle.
\<close>

definition order_plugin_configs :: "string list \<Rightarrow> plugin_config list \<Rightarrow> string + plugin_config list" where
  "order_plugin_configs others cfgs =
     (case sort_stages cfgs ([''deny'', ''route'', ''mutate''] @ others) of
        Inl e \<Rightarrow> Inl e
      | Inr ids \<Rightarrow> Inr (map ((!) cfgs) ids))"

section \<open>What the graph is\<close>

lemma build_graph_edges:
  "g_edges (fold add_edge es g) a = g_edges g a @ map snd (filter (\<lambda>e. fst e = a) es)"
  "g_indeg (fold add_edge es g) b = g_indeg g b + int (length (filter (\<lambda>e. snd e = b) es))"
  by (induction es arbitrary: g) (auto simp: add_edge_def)

lemma fold_take_away: "fold take_away ts d b = d b - int (length (filter (\<lambda>t. t = b) ts))"
  by (induction ts arbitrary: d) (auto simp: take_away_def)

text \<open>
  During the loop the counter of an index is the number of its edges whose source is still to come.
\<close>

definition pending :: "(nat \<times> nat) list \<Rightarrow> nat set \<Rightarrow> nat \<Rightarrow> int" where
  "pending es D b = int (length (filter (\<lambda>e. snd e = b \<and> fst e \<notin> D) es))"

lemma pending_step:
  assumes "found \<notin> D"
  shows "fold take_away (map snd (filter (\<lambda>e. fst e = found) es)) (pending es D) = pending es (insert found D)"
proof
  fix b
  have "filter (\<lambda>e. snd e = b \<and> fst e \<notin> D) es = filter (\<lambda>e. snd e = b \<and> fst e \<notin> D) es" ..
  have "length (filter (\<lambda>e. snd e = b \<and> fst e \<notin> D) es) =
      length (filter (\<lambda>e. snd e = b \<and> fst e \<notin> insert found D) es) +
      length (filter (\<lambda>e. snd e = b \<and> fst e = found) es)"
    using assms by (induction es) auto
  moreover have "length (filter (\<lambda>t. t = b) (map snd (filter (\<lambda>e. fst e = found) es))) =
      length (filter (\<lambda>e. snd e = b \<and> fst e = found) es)"
    by (induction es) auto
  ultimately show "fold take_away (map snd (filter (\<lambda>e. fst e = found) es)) (pending es D) b = pending es (insert found D) b"
    by (simp add: fold_take_away pending_def)
qed

lemma pending_zero: "pending es D b = 0 \<longleftrightarrow> (\<forall>a. (a, b) \<in> set es \<longrightarrow> a \<in> D)"
  by (force simp: pending_def filter_empty_conv)

text \<open>The loop over an edge list.\<close>

definition topo_edges :: "nat list \<Rightarrow> (nat \<times> nat) list \<Rightarrow> nat list \<Rightarrow> nat list option" where
  "topo_edges ids es out = topo_loop ids (\<lambda>a. map snd (filter (\<lambda>e. fst e = a) es)) (pending es (set out)) out"

lemma topo_edges_simps:
  "topo_edges ids es out =
     (if length out < length ids then
        (case find (\<lambda>i. i \<notin> set out \<and> (\<forall>a. (a, i) \<in> set es \<longrightarrow> a \<in> set out)) ids of
           None \<Rightarrow> None
         | Some found \<Rightarrow> topo_edges ids es (out @ [found]))
      else Some out)"
proof -
  have "fold take_away (map snd (filter (\<lambda>e. fst e = f) es)) (pending es (set out)) = pending es (set (out @ [f]))"
    if "f \<notin> set out" for f
    using pending_step [OF that] by simp
  moreover have "f \<notin> set out" if "find (\<lambda>i. i \<notin> set out \<and> Q i) ids = Some f" for f Q
    using that by (auto simp: find_Some_iff)
  ultimately show ?thesis unfolding topo_edges_def
    by (subst topo_loop.simps) (simp add: pending_zero split: option.split)
qed

lemma topo_sort_edges: "topo_sort_by_constraints cfgs ids = topo_edges ids (constraint_edges cfgs ids) []"
proof -
  let ?es = "constraint_edges cfgs ids"
  have "g_edges (build_graph ?es) = (\<lambda>a. map snd (filter (\<lambda>e. fst e = a) ?es))"
    by (rule ext) (simp add: build_graph_def build_graph_edges)
  moreover have "g_indeg (build_graph ?es) = pending ?es {}"
    by (rule ext) (simp add: build_graph_def build_graph_edges pending_def)
  ultimately show ?thesis by (simp add: topo_sort_by_constraints_def topo_edges_def Let_def)
qed


section \<open>Correctness of the sort\<close>

text \<open>\<open>xs\<close> lists the source of every edge before its target.\<close>

definition obeys :: "(nat \<times> nat) list \<Rightarrow> nat list \<Rightarrow> bool" where
  "obeys es xs \<longleftrightarrow> (\<forall>i < length xs. \<forall>a. (a, xs ! i) \<in> set es \<longrightarrow> a \<in> set (take i xs))"

lemma obeys_Nil [simp]: "obeys es []"
  by (simp add: obeys_def)

lemma obeys_snoc: "obeys es xs \<Longrightarrow> (\<forall>a. (a, x) \<in> set es \<longrightarrow> a \<in> set xs) \<Longrightarrow> obeys es (xs @ [x])"
  by (auto simp: obeys_def nth_append less_Suc_eq)

lemma topo_edges_sound:
  "topo_edges ids es out = Some r \<Longrightarrow> distinct out \<Longrightarrow> set out \<subseteq> set ids \<Longrightarrow> obeys es out \<Longrightarrow>
   length out \<le> length ids \<Longrightarrow>
   distinct r \<and> set r \<subseteq> set ids \<and> obeys es r \<and> length r = length ids"
proof (induction "length ids - length out" arbitrary: out)
  case 0
  then show ?case by (subst (asm) topo_edges_simps) simp
next
  case (Suc n)
  from Suc.hyps(2) have len: "length out < length ids" by simp
  with Suc.prems(1) obtain f where f: "find (\<lambda>i. i \<notin> set out \<and> (\<forall>a. (a, i) \<in> set es \<longrightarrow> a \<in> set out)) ids = Some f"
    and r: "topo_edges ids es (out @ [f]) = Some r"
    by (subst (asm) topo_edges_simps) (auto split: option.splits)
  then have "f \<in> set ids" "f \<notin> set out" "\<forall>a. (a, f) \<in> set es \<longrightarrow> a \<in> set out"
    by (auto simp: find_Some_iff)
  with Suc.prems Suc.hyps(2) len show ?case
    by (intro Suc.hyps(1) [OF _ r]) (simp_all add: obeys_snoc)
qed

text \<open>A list that obeys the edges shows that there is no cycle among its members.\<close>

lemma obeys_acyclic:
  assumes r: "obeys es xs" and e: "snd ` set es \<subseteq> set xs" and d: "distinct xs"
  shows "acyclic (set es)"
proof -
  define pos where "pos a = (LEAST i. i < length xs \<and> xs ! i = a)" for a
  have pos: "pos (xs ! i) = i" if "i < length xs" for i
    using that d unfolding pos_def by (intro Least_equality) (auto simp: nth_eq_iff_index_eq)
  have edge: "pos a < pos b" if "(a, b) \<in> set es" for a b
  proof -
    have "b \<in> set xs" using that e by force
    then obtain i where i: "i < length xs" "b = xs ! i" by (auto simp: in_set_conv_nth)
    with that r have "a \<in> set (take i xs)" by (simp add: obeys_def)
    then obtain j where "j < i" "a = xs ! j" by (auto simp: in_set_conv_nth)
    with i show ?thesis by (simp add: pos)
  qed
  have "pos a < pos b" if "(a, b) \<in> (set es)\<^sup>+" for a b
    using that by induction (auto dest: edge)
  then show ?thesis by (auto simp: acyclic_def)
qed

text \<open>Without a cycle there is always a next index.\<close>

lemma acyclic_next:
  assumes ac: "acyclic (set es)" and e: "fst ` set es \<subseteq> set ids" and ex: "i \<in> set ids" "i \<notin> D"
  shows "\<exists>f \<in> set ids. f \<notin> D \<and> (\<forall>a. (a, f) \<in> set es \<longrightarrow> a \<in> D)"
proof -
  have "wf (set es)" using ac by (simp add: finite_acyclic_wf)
  moreover have "i \<in> {j \<in> set ids. j \<notin> D}" using ex by simp
  ultimately obtain f where f: "f \<in> {j \<in> set ids. j \<notin> D}" "\<And>a. (a, f) \<in> set es \<Longrightarrow> a \<notin> {j \<in> set ids. j \<notin> D}"
    by (rule wfE_min) blast
  with e show ?thesis by force
qed

lemma topo_edges_complete:
  assumes "acyclic (set es)" "fst ` set es \<subseteq> set ids" "distinct ids"
  shows "distinct out \<Longrightarrow> set out \<subseteq> set ids \<Longrightarrow> \<exists>r. topo_edges ids es out = Some r"
proof (induction "length ids - length out" arbitrary: out)
  case 0
  then show ?case by (subst topo_edges_simps) simp
next
  case (Suc n)
  from Suc.hyps(2) have len: "length out < length ids" by simp
  have "card (set out) < card (set ids)" using len Suc.prems(1) assms(3) by (simp add: distinct_card)
  then obtain i where "i \<in> set ids" "i \<notin> set out" by (metis List.finite_set card_mono leD subsetI)
  from acyclic_next [OF assms(1,2) this]
  have "find (\<lambda>i. i \<notin> set out \<and> (\<forall>a. (a, i) \<in> set es \<longrightarrow> a \<in> set out)) ids \<noteq> None"
    by (auto simp: find_None_iff)
  then obtain f where f: "find (\<lambda>i. i \<notin> set out \<and> (\<forall>a. (a, i) \<in> set es \<longrightarrow> a \<in> set out)) ids = Some f" by auto
  then have "f \<in> set ids" "f \<notin> set out" by (auto simp: find_Some_iff)
  with Suc.prems Suc.hyps(2) have "\<exists>r. topo_edges ids es (out @ [f]) = Some r"
    by (intro Suc.hyps(1)) auto
  with f len show ?case by (subst topo_edges_simps) simp
qed

text \<open>Edges join members of the stage, and they are the constraints.\<close>

lemma name_to_idx_mem: "name_to_idx cfgs ids n = Some j \<Longrightarrow> j \<in> set ids \<and> pc_name (cfgs ! j) = n"
  by (auto simp: name_to_idx_def dest!: map_of_SomeD)

lemma name_to_idx_unique:
  assumes "distinct (map (\<lambda>i. pc_name (cfgs ! i)) ids)" "j \<in> set ids"
  shows "name_to_idx cfgs ids (pc_name (cfgs ! j)) = Some j"
proof -
  have "distinct (map fst (rev (map (\<lambda>i. (pc_name (cfgs ! i), i)) ids)))"
    using assms(1) by (simp add: rev_map [symmetric] o_def)
  moreover have "(pc_name (cfgs ! j), j) \<in> set (rev (map (\<lambda>i. (pc_name (cfgs ! i), i)) ids))"
    using assms(2) by force
  ultimately show ?thesis by (simp add: name_to_idx_def)
qed

lemma set_map_filter: "set (List.map_filter f xs) = {y. \<exists>x \<in> set xs. f x = Some y}"
  by (induction xs) (auto simp: map_filter_simps split: option.splits)

lemma constraint_edges_iff:
  "(a, b) \<in> set (constraint_edges cfgs ids) \<longleftrightarrow>
     (b \<in> set ids \<and> (\<exists>n \<in> set (pc_after (cfgs ! b)). name_to_idx cfgs ids n = Some a)) \<or>
     (a \<in> set ids \<and> (\<exists>n \<in> set (pc_before (cfgs ! a)). name_to_idx cfgs ids n = Some b))"
  by (auto simp: constraint_edges_def plugin_edges_def Let_def set_map_filter)

lemma constraint_edges_ids: "fst ` set (constraint_edges cfgs ids) \<subseteq> set ids" "snd ` set (constraint_edges cfgs ids) \<subseteq> set ids"
  using name_to_idx_mem by (fastforce simp: constraint_edges_iff)+

lemma topo_sort_some:
  assumes "distinct ids" "topo_sort_by_constraints cfgs ids = Some r"
  shows "mset r = mset ids" "obeys (constraint_edges cfgs ids) r"
proof -
  from topo_edges_sound [of ids "constraint_edges cfgs ids" "[]" r] assms(2)
  have r: "distinct r" "set r \<subseteq> set ids" "obeys (constraint_edges cfgs ids) r" "length r = length ids"
    by (auto simp: topo_sort_edges)
  have "set r = set ids" using r assms(1) by (metis List.finite_set card_subset_eq distinct_card)
  with r(1) assms(1) show "mset r = mset ids" by (simp add: set_eq_iff_mset_eq_distinct)
  show "obeys (constraint_edges cfgs ids) r" by (rule r)
qed

lemma topo_sort_iff:
  assumes "distinct ids"
  shows "topo_sort_by_constraints cfgs ids \<noteq> None \<longleftrightarrow> acyclic (set (constraint_edges cfgs ids))"
proof
  assume "topo_sort_by_constraints cfgs ids \<noteq> None"
  then obtain r where r: "topo_sort_by_constraints cfgs ids = Some r" by auto
  note s = topo_sort_some [OF assms r]
  then have "set r = set ids" "distinct r" using assms by (metis mset_eq_setD, metis mset_eq_imp_distinct_iff)
  with s(2) constraint_edges_ids show "acyclic (set (constraint_edges cfgs ids))"
    by (intro obeys_acyclic [of _ r]) auto
next
  assume "acyclic (set (constraint_edges cfgs ids))"
  then show "topo_sort_by_constraints cfgs ids \<noteq> None"
    using topo_edges_complete [of "constraint_edges cfgs ids" ids "[]"] constraint_edges_ids assms
    by (auto simp: topo_sort_edges)
qed


section \<open>The order of all plugins\<close>

definition precedes :: "'a list \<Rightarrow> 'a \<Rightarrow> 'a \<Rightarrow> bool" where
  "precedes xs a b \<longleftrightarrow> (\<exists>us vs ws. xs = us @ a # vs @ b # ws)"

lemma precedes_append: "precedes xs a b \<Longrightarrow> precedes (xs @ ys) a b" "precedes xs a b \<Longrightarrow> precedes (ys @ xs) a b"
  unfolding precedes_def by (metis append_assoc append_Cons)+

lemma precedes_map: "precedes xs a b \<Longrightarrow> precedes (map f xs) (f a) (f b)"
  unfolding precedes_def by (elim exE) (auto intro!: exI)

lemma obeys_precedes:
  assumes "obeys es xs" "(a, b) \<in> set es" "b \<in> set xs"
  shows "precedes xs a b"
proof -
  obtain i where i: "i < length xs" "xs ! i = b" using assms(3) by (auto simp: in_set_conv_nth)
  with assms have "a \<in> set (take i xs)" by (auto simp: obeys_def)
  then obtain us vs where "take i xs = us @ a # vs" by (meson split_list)
  moreover have "xs = take i xs @ b # drop (Suc i) xs" using id_take_nth_drop [OF i(1)] i(2) by simp
  ultimately show ?thesis unfolding precedes_def by (metis append_assoc append_Cons)
qed

lemma stage_ids_distinct [simp]: "distinct (stage_ids cfgs s)"
  by (simp add: stage_ids_def)

lemma sort_stages_some:
  "sort_stages cfgs ss = Inr r \<Longrightarrow>
     mset r = mset (concat (map (stage_ids cfgs) ss)) \<and>
     (\<forall>s \<in> set ss. \<forall>a b. (a, b) \<in> set (constraint_edges cfgs (stage_ids cfgs s)) \<longrightarrow> precedes r a b)"
proof (induction ss arbitrary: r)
  case Nil
  then show ?case by simp
next
  case (Cons s ss)
  then obtain r1 r2 where r1: "topo_sort_by_constraints cfgs (stage_ids cfgs s) = Some r1"
    and r2: "sort_stages cfgs ss = Inr r2" and r: "r = r1 @ r2"
    by (auto split: option.splits sum.splits)
  note s = topo_sort_some [OF stage_ids_distinct r1]
  have "precedes r1 a b" if "(a, b) \<in> set (constraint_edges cfgs (stage_ids cfgs s))" for a b
  proof -
    have "b \<in> set (stage_ids cfgs s)" using that constraint_edges_ids(2) by force
    then have "b \<in> set r1" using s(1) by (metis mset_eq_setD)
    with s(2) that show ?thesis by (rule obeys_precedes)
  qed
  with Cons.IH [OF r2] s(1) show ?case by (auto simp: r precedes_append)
qed

lemma sort_stages_error:
  "sort_stages cfgs ss = Inl e \<Longrightarrow> e \<in> set ss \<and> \<not> acyclic (set (constraint_edges cfgs (stage_ids cfgs e)))"
proof (induction ss)
  case (Cons s ss)
  show ?case
  proof (cases "topo_sort_by_constraints cfgs (stage_ids cfgs s)")
    case None
    with topo_sort_iff [OF stage_ids_distinct, of cfgs cfgs s]
    have "\<not> acyclic (set (constraint_edges cfgs (stage_ids cfgs s)))" by blast
    with None Cons.prems show ?thesis by simp
  next
    case (Some r)
    with Cons show ?thesis by (auto split: sum.splits)
  qed
qed simp

lemma sort_stages_ok:
  "\<forall>s \<in> set ss. acyclic (set (constraint_edges cfgs (stage_ids cfgs s))) \<Longrightarrow> \<exists>r. sort_stages cfgs ss = Inr r"
  using sort_stages_error [of cfgs ss] by (cases "sort_stages cfgs ss") auto

text \<open>Stages in turn: the plugins of an earlier stage come first.\<close>

lemma sort_stages_sorted:
  assumes "sort_stages cfgs (ss @ ts) = Inr r"
  shows "\<exists>r1 r2. r = r1 @ r2 \<and> set r1 = (\<Union>s \<in> set ss. set (stage_ids cfgs s)) \<and> set r2 = (\<Union>s \<in> set ts. set (stage_ids cfgs s))"
  using assms
proof (induction ss arbitrary: r)
  case Nil
  then have "sort_stages cfgs ts = Inr r" by simp
  then have "mset r = mset (concat (map (stage_ids cfgs) ts))" by (rule sort_stages_some [THEN conjunct1])
  then have "set r = set (concat (map (stage_ids cfgs) ts))" by (rule mset_eq_setD)
  then show ?case by (intro exI [of _ "[]"] exI [of _ r]) auto
next
  case (Cons s ss)
  then obtain q1 q2 where q: "topo_sort_by_constraints cfgs (stage_ids cfgs s) = Some q1"
    "sort_stages cfgs (ss @ ts) = Inr q2" "r = q1 @ q2"
    by (auto split: option.splits sum.splits)
  have s: "set q1 = set (stage_ids cfgs s)"
    using topo_sort_some(1) [OF stage_ids_distinct q(1)] by (rule mset_eq_setD)
  from Cons.IH [OF q(2)] show ?case
  proof (elim exE conjE)
    fix r1 r2 assume "q2 = r1 @ r2" "set r1 = (\<Union>s \<in> set ss. set (stage_ids cfgs s))"
      "set r2 = (\<Union>s \<in> set ts. set (stage_ids cfgs s))"
    with s q(3) show ?thesis by (intro exI [of _ "q1 @ r1"] exI [of _ r2]) simp
  qed
qed

lemma stage_precedes:
  assumes "sort_stages cfgs (ss @ s # ts) = Inr r" "a < length cfgs" "b < length cfgs"
    "plugin_stage (cfgs ! a) = s" "plugin_stage (cfgs ! b) \<in> set ts" "s \<notin> set ts"
  shows "precedes r a b"
proof -
  from sort_stages_sorted [of cfgs "ss @ [s]" ts r] assms(1) obtain r1 r2 where
    r: "r = r1 @ r2" "set r1 = (\<Union>s \<in> set (ss @ [s]). set (stage_ids cfgs s))" "set r2 = (\<Union>s \<in> set ts. set (stage_ids cfgs s))"
    by auto
  have "a \<in> set r1" using assms(2,4) by (auto simp: r(2) stage_ids_def)
  moreover have "b \<in> set r2" using assms(3,5) by (auto simp: r(3) stage_ids_def)
  ultimately obtain u1 v1 u2 v2 where "r1 = u1 @ a # v1" "r2 = u2 @ b # v2" by (meson split_list)
  then have "r = u1 @ a # (v1 @ u2) @ b # v2" using r(1) by simp
  then show ?thesis unfolding precedes_def by blast
qed

text \<open>The stages of a validated configuration.\<close>

definition known_stages :: "string list" where
  "known_stages = [''deny'', ''route'', ''mutate'']"

lemma stages_cover:
  assumes "\<forall>p \<in> set cfgs. plugin_stage p \<in> set ss" "distinct ss"
  shows "mset (concat (map (stage_ids cfgs) ss)) = mset [0..<length cfgs]"
proof -
  have "distinct (concat (map (stage_ids cfgs) ss))"
    using assms(2) by (induction ss) (auto simp: stage_ids_def)
  moreover have "set (concat (map (stage_ids cfgs) ss)) = set [0..<length cfgs]"
    using assms(1) by (auto simp: stage_ids_def)
  ultimately show ?thesis by (metis distinct_upt set_eq_iff_mset_eq_distinct)
qed

lemma order_ids:
  assumes "\<forall>p \<in> set cfgs. plugin_stage p \<in> set known_stages" "order_plugin_configs [] cfgs = Inr out"
  obtains ids where "sort_stages cfgs known_stages = Inr ids" "out = map ((!) cfgs) ids" "mset ids = mset [0..<length cfgs]"
proof -
  from assms(2) obtain ids where ids: "sort_stages cfgs known_stages = Inr ids" "out = map ((!) cfgs) ids"
    by (auto simp: order_plugin_configs_def known_stages_def split: sum.splits)
  have "mset ids = mset [0..<length cfgs]"
    using sort_stages_some [OF ids(1)] stages_cover [OF assms(1)] by (simp add: known_stages_def)
  with ids that show ?thesis by blast
qed

lemma order_permutation:
  assumes "\<forall>p \<in> set cfgs. plugin_stage p \<in> set known_stages" "order_plugin_configs [] cfgs = Inr out"
  shows "mset out = mset cfgs"
proof -
  from order_ids [OF assms] obtain ids where "out = map ((!) cfgs) ids" "mset ids = mset [0..<length cfgs]" by blast
  then have "mset out = mset (map ((!) cfgs) [0..<length cfgs])" by (metis mset_map)
  then show ?thesis by (simp add: map_nth)
qed

end
