(* ===== verification/PluginManager.thy ===== *)
theory PluginManager
  imports ConfigTypes
begin

text \<open>
  \<^verbatim>\<open>internal/plugins/manager.go\<close>, \<^verbatim>\<open>types.go\<close>, \<^verbatim>\<open>load.go\<close> and \<^verbatim>\<open>noop.go\<close>: how the answers of the plugins
  change a routing decision. A plugin is foreign code: a name and what it answers to a request
  during the call (an error, a timeout included, or a response).
\<close>

section \<open>Data\<close>

record connect_event =
  ev_sni :: string
  ev_fingerprint :: string
  ev_hash :: string
  ev_client_type :: byte
  ev_uuid :: string
  ev_username :: string
  ev_language :: string
  ev_identity :: bool

record connect_request =
  rq_event :: connect_event
  rq_strategy :: string
  rq_candidates :: "backend list"
  rq_index :: int
  rq_backend :: backend
  rq_referral :: "bytes option"

record connect_response =
  rp_deny :: bool
  rp_reason :: string
  rp_candidates :: "backend list option"
  rp_index :: "int option"
  rp_backend :: "backend option"
  rp_referral :: "bytes option"

record plugin =
  pl_name :: string
  pl_on_connect :: "connect_request \<Rightarrow> string + connect_response"

record apply_result =
  ar_denied :: bool
  ar_reason :: string
  ar_strategy :: string
  ar_candidates :: "backend list"
  ar_index :: int
  ar_backend :: backend
  ar_referral :: "bytes option"

definition empty_response :: connect_response where
  "empty_response = \<lparr>rp_deny = False, rp_reason = [], rp_candidates = None, rp_index = None,
     rp_backend = None, rp_referral = None\<rparr>"

definition noop_plugin :: "string \<Rightarrow> plugin" where
  "noop_plugin name = \<lparr>pl_name = name, pl_on_connect = (\<lambda>_. Inr empty_response)\<rparr>"

section \<open>Applying the plugins\<close>

definition initial_result :: "decision \<Rightarrow> bytes option \<Rightarrow> apply_result" where
  "initial_result d content =
     \<lparr>ar_denied = False, ar_reason = [], ar_strategy = d_strategy d, ar_candidates = d_candidates d,
      ar_index = d_selected_index d, ar_backend = d_backend d, ar_referral = content\<rparr>"

definition plugin_request :: "connect_event \<Rightarrow> apply_result \<Rightarrow> connect_request" where
  "plugin_request ev res =
     \<lparr>rq_event = ev, rq_strategy = ar_strategy res, rq_candidates = ar_candidates res,
      rq_index = ar_index res, rq_backend = ar_backend res, rq_referral = ar_referral res\<rparr>"

text \<open>The index of the first candidate with the host and port of a backend.\<close>

fun same_address_index :: "backend \<Rightarrow> nat \<Rightarrow> backend list \<Rightarrow> nat option" where
  "same_address_index b i [] = None"
| "same_address_index b i (c # cs) =
     (if b_host c = b_host b \<and> b_port c = b_port b then Some i else same_address_index b (Suc i) cs)"

text \<open>The statements that take over a response, in order.\<close>

definition take_candidates :: "connect_response \<Rightarrow> apply_result \<Rightarrow> apply_result" where
  "take_candidates pr res =
     (case rp_candidates pr of None \<Rightarrow> res
      | Some cs \<Rightarrow> if 0 < length cs then res\<lparr>ar_candidates := cs\<rparr> else res)"

definition take_index :: "connect_response \<Rightarrow> apply_result \<Rightarrow> apply_result" where
  "take_index pr res =
     (case rp_index pr of None \<Rightarrow> res
      | Some i \<Rightarrow> if 0 \<le> i \<and> i < int (length (ar_candidates res))
          then res\<lparr>ar_index := i, ar_backend := ar_candidates res ! nat i\<rparr> else res)"

definition take_backend :: "connect_response \<Rightarrow> apply_result \<Rightarrow> apply_result" where
  "take_backend pr res =
     (case rp_backend pr of None \<Rightarrow> res
      | Some b \<Rightarrow>
          let res' = res\<lparr>ar_backend := b\<rparr> in
          (case same_address_index b 0 (ar_candidates res') of
             None \<Rightarrow> res' | Some i \<Rightarrow> res'\<lparr>ar_index := int i\<rparr>))"

definition default_backend :: "apply_result \<Rightarrow> apply_result" where
  "default_backend res =
     (if b_host (ar_backend res) = [] \<and> 0 < length (ar_candidates res)
      then res\<lparr>ar_index := 0, ar_backend := ar_candidates res ! 0\<rparr> else res)"

definition take_referral :: "connect_response \<Rightarrow> apply_result \<Rightarrow> apply_result" where
  "take_referral pr res = (case rp_referral pr of None \<Rightarrow> res | Some c \<Rightarrow> res\<lparr>ar_referral := Some c\<rparr>)"

definition take_response :: "connect_response \<Rightarrow> apply_result \<Rightarrow> apply_result" where
  "take_response pr res =
     take_referral pr (default_backend (take_backend pr (take_index pr (take_candidates pr res))))"

fun apply_plugins :: "connect_event \<Rightarrow> plugin list \<Rightarrow> apply_result \<Rightarrow> apply_result" where
  "apply_plugins ev [] res = res"
| "apply_plugins ev (p # ps) res =
     (case pl_on_connect p (plugin_request ev res) of
        Inl _ \<Rightarrow> apply_plugins ev ps res
      | Inr pr \<Rightarrow>
          if rp_deny pr then res\<lparr>ar_denied := True, ar_reason := rp_reason pr\<rparr>
          else apply_plugins ev ps (take_response pr res))"

text \<open>A nil manager changes nothing.\<close>

definition apply_on_connect :: "plugin list option \<Rightarrow> connect_event \<Rightarrow> decision \<Rightarrow> bytes option \<Rightarrow> apply_result" where
  "apply_on_connect m ev d content =
     (case m of None \<Rightarrow> initial_result d content
      | Some ps \<Rightarrow> apply_plugins ev ps (initial_result d content))"

section \<open>Loading\<close>

text \<open>The constructors of the two plugin types are foreign code.\<close>

datatype load_error = UnknownPluginType string | LoadFailed string

fun load_all ::
  "(plugin_config \<Rightarrow> string + plugin) \<Rightarrow> (plugin_config \<Rightarrow> string + plugin) \<Rightarrow> plugin_config list \<Rightarrow>
   load_error + plugin list"
where
  "load_all new_grpc new_wasm [] = Inr []"
| "load_all new_grpc new_wasm (c # cs) =
     (let t = to_lower (pc_type c) in
      if t = ''grpc'' \<or> t = ''wasm'' then
        (case (if t = ''grpc'' then new_grpc c else new_wasm c) of
           Inl e \<Rightarrow> Inl (LoadFailed e)
         | Inr p \<Rightarrow> (case load_all new_grpc new_wasm cs of Inl e \<Rightarrow> Inl e | Inr ps \<Rightarrow> Inr (p # ps)))
      else Inl (UnknownPluginType (pc_type c)))"

section \<open>Properties\<close>

lemma take_response_flags [simp]:
  "ar_denied (take_response pr res) = ar_denied res" "ar_reason (take_response pr res) = ar_reason res"
  "ar_strategy (take_response pr res) = ar_strategy res"
  by (simp_all add: take_response_def take_referral_def default_backend_def take_backend_def take_index_def
      take_candidates_def Let_def split: option.split)

text \<open>What a plugin does to a result that nobody has denied: \<open>None\<close> when it denies.\<close>

definition plugin_step :: "connect_event \<Rightarrow> plugin \<Rightarrow> apply_result \<Rightarrow> apply_result option" where
  "plugin_step ev p res =
     (case pl_on_connect p (plugin_request ev res) of
        Inl _ \<Rightarrow> Some res
      | Inr pr \<Rightarrow> if rp_deny pr then None else Some (take_response pr res))"

lemma apply_plugins_step:
  "plugin_step ev p res = Some res' \<Longrightarrow> apply_plugins ev (p # ps) res = apply_plugins ev ps res'"
  by (auto simp: plugin_step_def split: sum.splits if_splits)

lemma apply_plugins_deny:
  "plugin_step ev p res = None \<Longrightarrow> \<exists>reason. apply_plugins ev (p # ps) res = res\<lparr>ar_denied := True, ar_reason := reason\<rparr>"
  by (auto simp: plugin_step_def split: sum.splits if_splits)

lemma plugin_step_denied: "plugin_step ev p res = Some res' \<Longrightarrow> ar_denied res' = ar_denied res"
  by (auto simp: plugin_step_def split: sum.splits if_splits)

fun plugin_steps :: "connect_event \<Rightarrow> plugin list \<Rightarrow> apply_result \<Rightarrow> apply_result option" where
  "plugin_steps ev [] res = Some res"
| "plugin_steps ev (p # ps) res =
     (case plugin_step ev p res of None \<Rightarrow> None | Some res' \<Rightarrow> plugin_steps ev ps res')"

lemma apply_plugins_append:
  "plugin_steps ev ps res = Some res' \<Longrightarrow> apply_plugins ev (ps @ qs) res = apply_plugins ev qs res'"
  by (induction ps arbitrary: res) (auto simp: apply_plugins_step split: option.splits simp del: apply_plugins.simps(2))

lemma plugin_steps_denied: "plugin_steps ev ps res = Some res' \<Longrightarrow> ar_denied res' = ar_denied res"
  by (induction ps arbitrary: res) (auto simp: plugin_step_denied split: option.splits)

lemma not_denied_steps:
  "\<not> ar_denied (apply_plugins ev ps res) \<Longrightarrow> plugin_steps ev ps res = Some (apply_plugins ev ps res)"
proof (induction ps arbitrary: res)
  case (Cons p ps)
  show ?case
  proof (cases "plugin_step ev p res")
    case None
    with Cons.prems apply_plugins_deny [OF None, of ps] show ?thesis by auto
  next
    case (Some res')
    with Cons show ?thesis by (simp add: apply_plugins_step [OF Some] del: apply_plugins.simps(2))
  qed
qed simp

lemma denied_split:
  "ar_denied (apply_plugins ev ps res) \<Longrightarrow> \<not> ar_denied res \<Longrightarrow>
   \<exists>us p vs res' reason. ps = us @ p # vs \<and> plugin_steps ev us res = Some res' \<and> plugin_step ev p res' = None \<and>
     apply_plugins ev ps res = res'\<lparr>ar_denied := True, ar_reason := reason\<rparr>"
proof (induction ps arbitrary: res)
  case (Cons p ps)
  show ?case
  proof (cases "plugin_step ev p res")
    case None
    from apply_plugins_deny [OF None, of ps] obtain reason where
      "apply_plugins ev (p # ps) res = res\<lparr>ar_denied := True, ar_reason := reason\<rparr>" by blast
    with None show ?thesis by (intro exI [of _ "[]"] exI [of _ p] exI [of _ ps] exI [of _ res] exI [of _ reason]) simp
  next
    case (Some res')
    with Cons.prems plugin_step_denied [OF Some]
    obtain us q vs r reason where *: "ps = us @ q # vs" "plugin_steps ev us res' = Some r" "plugin_step ev q r = None"
      "apply_plugins ev ps res' = r\<lparr>ar_denied := True, ar_reason := reason\<rparr>"
      using Cons.IH [of res'] by (auto simp: apply_plugins_step [OF Some] simp del: apply_plugins.simps(2))
    show ?thesis using * Some
      by (intro exI [of _ "p # us"] exI [of _ q] exI [of _ vs] exI [of _ r] exI [of _ reason])
        (simp add: apply_plugins_step [OF Some] del: apply_plugins.simps(2))
  qed
qed simp

text \<open>The backend always has a host if the candidates all have one.\<close>

definition result_ok :: "apply_result \<Rightarrow> bool" where
  "result_ok r \<longleftrightarrow> ar_candidates r \<noteq> [] \<and> (\<forall>b \<in> set (ar_candidates r). b_host b \<noteq> []) \<and> b_host (ar_backend r) \<noteq> []"

definition response_ok :: "connect_response \<Rightarrow> bool" where
  "response_ok pr \<longleftrightarrow> (case rp_candidates pr of None \<Rightarrow> True | Some cs \<Rightarrow> \<forall>b \<in> set cs. b_host b \<noteq> [])"

definition hosts_ok :: "apply_result \<Rightarrow> bool" where
  "hosts_ok r \<longleftrightarrow> ar_candidates r \<noteq> [] \<and> (\<forall>b \<in> set (ar_candidates r). b_host b \<noteq> [])"

lemma hosts_ok_steps:
  "hosts_ok r \<Longrightarrow> response_ok pr \<Longrightarrow> hosts_ok (take_candidates pr r)"
  "hosts_ok r \<Longrightarrow> hosts_ok (take_index pr r)" "hosts_ok r \<Longrightarrow> hosts_ok (take_backend pr r)"
  by (auto simp: hosts_ok_def response_ok_def take_candidates_def take_index_def take_backend_def Let_def
      split: option.split)

lemma default_backend_ok: "hosts_ok r \<Longrightarrow> result_ok (default_backend r)"
  by (auto simp: hosts_ok_def result_ok_def default_backend_def)

lemma take_referral_ok: "result_ok r \<Longrightarrow> result_ok (take_referral pr r)"
  by (simp add: result_ok_def take_referral_def split: option.split)

lemma take_response_ok: "result_ok r \<Longrightarrow> response_ok pr \<Longrightarrow> result_ok (take_response pr r)"
  unfolding take_response_def
  by (intro take_referral_ok default_backend_ok hosts_ok_steps) (simp_all add: result_ok_def hosts_ok_def)

lemma plugin_steps_ok:
  assumes "\<forall>p \<in> set ps. \<forall>rq pr. pl_on_connect p rq = Inr pr \<longrightarrow> response_ok pr"
  shows "plugin_steps ev ps r = Some r' \<Longrightarrow> result_ok r \<Longrightarrow> result_ok r'"
  using assms
proof (induction ps arbitrary: r)
  case (Cons p ps)
  from Cons.prems(1) obtain r1 where r1: "plugin_step ev p r = Some r1" "plugin_steps ev ps r1 = Some r'"
    by (auto split: option.splits)
  then have "result_ok r1" using Cons.prems take_response_ok
    by (auto simp: plugin_step_def split: sum.splits if_splits)
  with Cons r1(2) show ?case by simp
qed simp

lemma noop_neutral:
  "b_host (ar_backend res) \<noteq> [] \<or> ar_candidates res = [] \<Longrightarrow> plugin_step ev (noop_plugin n) res = Some res"
  by (auto simp: plugin_step_def noop_plugin_def empty_response_def take_response_def take_referral_def
      default_backend_def take_backend_def take_index_def take_candidates_def)

lemma load_all_ok:
  "load_all g w cs = Inr ps \<Longrightarrow> length ps = length cs \<and>
     (\<forall>i < length cs. (to_lower (pc_type (cs ! i)) = ''grpc'' \<and> g (cs ! i) = Inr (ps ! i)) \<or>
        (to_lower (pc_type (cs ! i)) = ''wasm'' \<and> w (cs ! i) = Inr (ps ! i)))"
proof (induction cs arbitrary: ps)
  case (Cons c cs)
  from Cons.prems obtain p qs where "ps = p # qs" "load_all g w cs = Inr qs"
    "(to_lower (pc_type c) = ''grpc'' \<and> g c = Inr p) \<or> (to_lower (pc_type c) = ''wasm'' \<and> w c = Inr p)"
    by (auto simp: Let_def split: if_splits sum.splits)
  with Cons.IH show ?case by (auto simp: nth_Cons split: nat.splits)
qed simp

end
