(* ===== verification/PluginProperties.thy ===== *)
theory PluginProperties
  imports PluginOrder PluginManager
begin

text \<open>
  The properties of package \<^verbatim>\<open>internal/plugins\<close>: the order of the plugins, and how their answers
  combine.
\<close>

section \<open>Order\<close>

text \<open>C11: If the plugins can be ordered, the result lists each of them once, plugins of stage deny before
  those of stage route before those of stage mutate, and within a stage every plugin after those that
  its after list names and before those that its before list names.\<close>

theorem plugin_order_correct:
  assumes "\<forall>p \<in> set cfgs. plugin_stage p \<in> {''deny'', ''route'', ''mutate''}" "distinct (map pc_name cfgs)"
    and "order_plugin_configs [] cfgs = Inr out"
  shows "mset out = mset cfgs \<and>
    (\<forall>p \<in> set cfgs. \<forall>q \<in> set cfgs.
       (plugin_stage p = ''deny'' \<and> plugin_stage q \<noteq> ''deny'') \<or>
       (plugin_stage p = ''route'' \<and> plugin_stage q = ''mutate'') \<or>
       (plugin_stage p = plugin_stage q \<and> (pc_name p \<in> set (pc_after q) \<or> pc_name q \<in> set (pc_before p)))
       \<longrightarrow> precedes out p q)"
proof (intro conjI ballI impI)
  have stages: "\<forall>p \<in> set cfgs. plugin_stage p \<in> set known_stages" using assms(1) by (simp add: known_stages_def)
  then show "mset out = mset cfgs" using assms(3) by (rule order_permutation)
  from order_ids [OF stages assms(3)] obtain ids where
    ids: "sort_stages cfgs known_stages = Inr ids" "out = map ((!) cfgs) ids" by blast
  fix p q assume p: "p \<in> set cfgs" and q: "q \<in> set cfgs" and
    pq: "(plugin_stage p = ''deny'' \<and> plugin_stage q \<noteq> ''deny'') \<or>
       (plugin_stage p = ''route'' \<and> plugin_stage q = ''mutate'') \<or>
       (plugin_stage p = plugin_stage q \<and> (pc_name p \<in> set (pc_after q) \<or> pc_name q \<in> set (pc_before p)))"
  from p q obtain a b where a: "a < length cfgs" "cfgs ! a = p" and b: "b < length cfgs" "cfgs ! b = q"
    by (meson in_set_conv_nth)
  from pq consider (deny) "plugin_stage p = ''deny''" "plugin_stage q \<noteq> ''deny''"
    | (route) "plugin_stage p = ''route''" "plugin_stage q = ''mutate''"
    | (same) "plugin_stage p = plugin_stage q" "pc_name p \<in> set (pc_after q) \<or> pc_name q \<in> set (pc_before p)"
    by blast
  then have "precedes ids a b"
  proof cases
    case deny
    then have "plugin_stage q \<in> set [''route'', ''mutate'']" using stages q by (auto simp: known_stages_def)
    with ids(1) deny a b show ?thesis
      using stage_precedes [of cfgs "[]" "''deny''" "[''route'', ''mutate'']" ids a b] by (simp add: known_stages_def)
  next
    case route
    with ids(1) a b show ?thesis
      using stage_precedes [of cfgs "[''deny'']" "''route''" "[''mutate'']" ids a b] by (simp add: known_stages_def)
  next
    case same
    let ?S = "stage_ids cfgs (plugin_stage q)"
    have ab: "a \<in> set ?S" "b \<in> set ?S" using a b same(1) by (simp_all add: stage_ids_def)
    have "inj_on (\<lambda>i. pc_name (cfgs ! i)) {..<length cfgs}"
      using assms(2) by (auto simp: inj_on_def distinct_conv_nth)
    moreover have "set ?S \<subseteq> {..<length cfgs}" by (auto simp: stage_ids_def)
    ultimately have "distinct (map (\<lambda>i. pc_name (cfgs ! i)) ?S)"
      by (simp add: distinct_map) (metis inj_on_subset)
    from name_to_idx_unique [OF this ab(1)] name_to_idx_unique [OF this ab(2)] same ab a b
    have "(a, b) \<in> set (constraint_edges cfgs ?S)" by (auto simp: constraint_edges_iff)
    moreover have "plugin_stage q \<in> set known_stages" using stages q by blast
    ultimately show ?thesis using sort_stages_some [OF ids(1)] by blast
  qed
  then show "precedes out p q" using precedes_map [of ids a b "(!) cfgs"] a b by (simp add: ids(2))
qed

definition ex_plugin :: "string \<Rightarrow> string \<Rightarrow> string list \<Rightarrow> plugin_config" where
  "ex_plugin name stage after =
     \<lparr>pc_name = name, pc_type = ''grpc'', pc_stage = stage, pc_before = [], pc_after = after,
      pc_grpc = Some ''x'', pc_wasm = None\<rparr>"

definition ex_plugins :: "plugin_config list" where
  "ex_plugins = [ex_plugin ''a'' ''mutate'' [''b''], ex_plugin ''b'' ''mutate'' [], ex_plugin ''c'' ''Deny'' []]"

lemma ex_plugin_stages: "map plugin_stage ex_plugins = [''mutate'', ''mutate'', ''deny'']"
  by (simp add: ex_plugins_def ex_plugin_def plugin_stage_def string_eval)

lemma ex_plugins_acyclic:
  "\<forall>s \<in> set known_stages. acyclic (set (constraint_edges ex_plugins (stage_ids ex_plugins s)))"
proof
  fix s
  have e: "y < x" if "(x, y) \<in> set (constraint_edges ex_plugins (stage_ids ex_plugins s))" for x y
  proof -
    from that have xy: "x \<in> set (stage_ids ex_plugins s)" "y \<in> set (stage_ids ex_plugins s)"
      "pc_name (ex_plugins ! x) \<in> set (pc_after (ex_plugins ! y)) \<or> pc_name (ex_plugins ! y) \<in> set (pc_before (ex_plugins ! x))"
      by (auto simp: constraint_edges_iff dest: name_to_idx_mem)
    have "length ex_plugins = 3" by (simp add: ex_plugins_def)
    with xy(1,2) have "x < 3" "y < 3" by (auto simp: stage_ids_def)
    then have "x \<in> {0, 1, 2}" "y \<in> {0, 1, 2}" by auto
    with xy(3) show ?thesis by (auto simp: ex_plugins_def ex_plugin_def)
  qed
  have "y < x" if "(x, y) \<in> (set (constraint_edges ex_plugins (stage_ids ex_plugins s)))\<^sup>+" for x y :: nat
    using that by induction (auto dest: e)
  then show "acyclic (set (constraint_edges ex_plugins (stage_ids ex_plugins s)))" by (auto simp: acyclic_def)
qed

theorem plugin_order_correct_witness:
  "\<exists>out. order_plugin_configs [] ex_plugins = Inr out \<and>
     precedes out (ex_plugin ''b'' ''mutate'' []) (ex_plugin ''a'' ''mutate'' [''b''])"
proof -
  from sort_stages_ok [OF ex_plugins_acyclic] obtain ids where "sort_stages ex_plugins known_stages = Inr ids" by blast
  then have o: "order_plugin_configs [] ex_plugins = Inr (map ((!) ex_plugins) ids)"
    by (simp add: order_plugin_configs_def known_stages_def)
  have st: "plugin_stage (ex_plugin ''a'' ''mutate'' [''b'']) = ''mutate''" "plugin_stage (ex_plugin ''b'' ''mutate'' []) = ''mutate''"
    "plugin_stage (ex_plugin ''c'' ''Deny'' []) = ''deny''"
    by (simp_all add: ex_plugin_def plugin_stage_def string_eval)
  have "\<forall>p \<in> set ex_plugins. plugin_stage p \<in> {''deny'', ''route'', ''mutate''}" by (simp add: ex_plugins_def st)
  moreover have "distinct (map pc_name ex_plugins)" by (simp add: ex_plugins_def ex_plugin_def)
  ultimately show ?thesis
    using plugin_order_correct [of ex_plugins "map ((!) ex_plugins) ids"] o st
    by (simp add: ex_plugins_def) (simp add: ex_plugin_def)
qed

text \<open>C38: Ordering fails exactly when the constraints of some stage form a cycle, and the error names such
  a stage.\<close>

theorem plugin_order_fails_iff_cycle:
  "(case order_plugin_configs others cfgs of
      Inl s \<Rightarrow> s \<in> set ([''deny'', ''route'', ''mutate''] @ others) \<and> \<not> acyclic (set (constraint_edges cfgs (stage_ids cfgs s)))
    | Inr out \<Rightarrow> \<forall>s \<in> set ([''deny'', ''route'', ''mutate''] @ others). acyclic (set (constraint_edges cfgs (stage_ids cfgs s))))"
proof -
  have err: "sort_stages cfgs ss = Inl s \<Longrightarrow> s \<in> set ss \<and> \<not> acyclic (set (constraint_edges cfgs (stage_ids cfgs s)))" for ss s
    by (rule sort_stages_error)
  have ok: "sort_stages cfgs ss = Inr r \<Longrightarrow> \<forall>s \<in> set ss. acyclic (set (constraint_edges cfgs (stage_ids cfgs s)))" for ss r
    using topo_sort_iff [OF stage_ids_distinct]
    by (induction ss arbitrary: r) (force split: option.splits sum.splits)+
  show ?thesis using err [of "[''deny'', ''route'', ''mutate''] @ others"] ok [of "[''deny'', ''route'', ''mutate''] @ others"]
    unfolding order_plugin_configs_def by (simp only: split: sum.split) blast
qed

theorem plugin_order_fails_iff_cycle_witness: "\<exists>out. order_plugin_configs [] ex_plugins = Inr out"
  using plugin_order_fails_iff_cycle [of "[]" ex_plugins] ex_plugins_acyclic
  by (auto simp: known_stages_def split: sum.splits)


section \<open>Answers\<close>

text \<open>A denial is final: the result is denied exactly when some plugin denies when its turn comes, it
  keeps what the plugins before it decided, and it does not depend on the plugins after it.\<close>

theorem plugin_denial_final:
  "(ar_denied (apply_on_connect (Some ps) ev d content) \<longleftrightarrow> plugin_steps ev ps (initial_result d content) = None) \<and>
   (ar_denied (apply_on_connect (Some ps) ev d content) \<longrightarrow>
      (\<exists>us p vs res reason. ps = us @ p # vs \<and> plugin_steps ev us (initial_result d content) = Some res \<and>
         plugin_step ev p res = None \<and>
         (\<forall>ws. apply_on_connect (Some (us @ p # ws)) ev d content = res\<lparr>ar_denied := True, ar_reason := reason\<rparr>)))"
proof (cases "plugin_steps ev ps (initial_result d content)")
  case (Some res)
  then have "\<not> ar_denied res" using plugin_steps_denied [OF Some] by (simp add: initial_result_def)
  moreover have "apply_plugins ev ps (initial_result d content) = res"
    using apply_plugins_append [OF Some, of "[]"] by simp
  ultimately show ?thesis using Some by (simp add: apply_on_connect_def)
next
  case None
  then have den: "ar_denied (apply_plugins ev ps (initial_result d content))" using not_denied_steps by fastforce
  from denied_split [OF this] obtain us p vs res where
    *: "ps = us @ p # vs" "plugin_steps ev us (initial_result d content) = Some res" "plugin_step ev p res = None"
    by (auto simp: initial_result_def)
  obtain pr where pr: "pl_on_connect p (plugin_request ev res) = Inr pr" "rp_deny pr"
    using *(3) by (auto simp: plugin_step_def split: sum.splits if_splits)
  have "apply_plugins ev (us @ p # ws) (initial_result d content) =
      res\<lparr>ar_denied := True, ar_reason := rp_reason pr\<rparr>" for ws
    using apply_plugins_append [OF *(2), of "p # ws"] pr by simp
  with None den * show ?thesis unfolding apply_on_connect_def option.case by blast
qed

definition ex_event :: connect_event where
  "ex_event = \<lparr>ev_sni = [], ev_fingerprint = [], ev_hash = [], ev_client_type = 0, ev_uuid = [], ev_username = [],
     ev_language = [], ev_identity = False\<rparr>"

definition ex_denier :: plugin where
  "ex_denier = \<lparr>pl_name = ''ban'', pl_on_connect = (\<lambda>_. Inr (empty_response\<lparr>rp_deny := True, rp_reason := ''banned''\<rparr>))\<rparr>"

theorem plugin_denial_final_witness:
  "ar_denied (apply_on_connect (Some [noop_plugin ''n'', ex_denier]) ex_event no_decision None)"
  using plugin_denial_final [of "[noop_plugin ''n'', ex_denier]" ex_event no_decision None]
  by (simp add: plugin_step_def noop_plugin_def ex_denier_def empty_response_def)

text \<open>A plugin that fails is as if it were absent.\<close>

theorem failing_plugin_skipped:
  assumes "\<forall>rq. \<exists>e. pl_on_connect p rq = Inl e"
  shows "apply_on_connect (Some (ps @ p # qs)) ev d content = apply_on_connect (Some (ps @ qs)) ev d content"
proof -
  have "apply_plugins ev (p # qs) res = apply_plugins ev qs res" for res
  proof -
    obtain e where "pl_on_connect p (plugin_request ev res) = Inl e" using assms by blast
    then show ?thesis by simp
  qed
  then have "apply_plugins ev (ps @ p # qs) res = apply_plugins ev (ps @ qs) res" for res
    by (induction ps arbitrary: res) (auto split: sum.splits)
  then show ?thesis by (simp add: apply_on_connect_def)
qed

theorem failing_plugin_skipped_witness:
  "apply_on_connect (Some ([] @ \<lparr>pl_name = ''x'', pl_on_connect = (\<lambda>_. Inl ''timeout'')\<rparr> # [])) ex_event no_decision None =
   apply_on_connect (Some ([] @ [])) ex_event no_decision None"
  by (rule failing_plugin_skipped) simp

text \<open>Plugins cannot leave a connection without a target: if the decision has candidates, all with a
  host, and a backend with a host, and the plugins only offer candidates with a host, then a result that
  is not denied has a backend with a host.\<close>

theorem plugins_keep_backend:
  assumes "\<forall>p \<in> set ps. \<forall>rq pr. pl_on_connect p rq = Inr pr \<longrightarrow> response_ok pr"
    and "d_candidates d \<noteq> []" "\<forall>b \<in> set (d_candidates d). b_host b \<noteq> []" "b_host (d_backend d) \<noteq> []"
    and "\<not> ar_denied (apply_on_connect (Some ps) ev d content)"
  shows "b_host (ar_backend (apply_on_connect (Some ps) ev d content)) \<noteq> [] \<and>
    ar_candidates (apply_on_connect (Some ps) ev d content) \<noteq> []"
proof -
  have "result_ok (initial_result d content)" using assms(2-4) by (simp add: result_ok_def initial_result_def)
  moreover have "plugin_steps ev ps (initial_result d content) = Some (apply_on_connect (Some ps) ev d content)"
    using not_denied_steps assms(5) by (simp add: apply_on_connect_def)
  ultimately have "result_ok (apply_on_connect (Some ps) ev d content)"
    using plugin_steps_ok [OF assms(1)] by blast
  then show ?thesis by (simp add: result_ok_def)
qed

definition ex_target :: backend where
  "ex_target = \<lparr>b_host = ''h'', b_port = 1, b_weight = 1, b_meta = Map.empty\<rparr>"

definition ex_decision :: decision where
  "ex_decision = \<lparr>d_matched = True, d_route_index = 0, d_strategy = ''random'', d_candidates = [ex_target, ex_target],
     d_selected_index = 1, d_backend = ex_target\<rparr>"

theorem plugins_keep_backend_witness:
  "b_host (ar_backend (apply_on_connect (Some [noop_plugin ''n'']) ex_event ex_decision None)) \<noteq> []"
  using plugins_keep_backend [of "[noop_plugin ''n'']" ex_decision ex_event None]
  by (simp add: noop_plugin_def empty_response_def response_ok_def ex_decision_def ex_target_def apply_on_connect_def
      initial_result_def)

text \<open>The selected index is not kept in step: a plugin that replaces the candidates by fewer, without
  an index, leaves an index that is out of range.\<close>

theorem stale_selected_index:
  "\<exists>p. let res = apply_on_connect (Some [p]) ex_event ex_decision None in
     \<not> ar_denied res \<and> int (length (ar_candidates res)) \<le> ar_index res"
proof -
  let ?p = "\<lparr>pl_name = ''p'', pl_on_connect = (\<lambda>_. Inr (empty_response\<lparr>rp_candidates := Some [ex_target]\<rparr>))\<rparr>"
  have "let res = apply_on_connect (Some [?p]) ex_event ex_decision None in
     \<not> ar_denied res \<and> int (length (ar_candidates res)) \<le> ar_index res"
    by (simp add: apply_on_connect_def initial_result_def ex_decision_def empty_response_def take_response_def
        take_candidates_def take_index_def take_backend_def default_backend_def take_referral_def ex_target_def Let_def)
  then show ?thesis by blast
qed

end
