(* ===== verification/StreamFrames.thy ===== *)
theory StreamFrames
  imports HytaleCodecProps
begin

text \<open>
  The framing of a stream, \<open>dumpFrames\<close> in \<^verbatim>\<open>internal/server/streams.go\<close>: bytes arrive in pieces, are
  collected, and are cut into packets that a handler sees one by one. What the handler does is the
  subject of theory \<open>Streams\<close>; here it is an argument. It answers whether the function returns after
  this packet, and the new state; \<open>None\<close> where it does not come to an end.
\<close>

section \<open>Cutting frames\<close>

type_synonym 's handler = "int \<Rightarrow> bytes \<Rightarrow> 's \<Rightarrow> (bool \<times> 's) option"

datatype next_frame = NeedMore | InvalidFrame | NextFrame int bytes bytes

text \<open>The head of the inner loop: a frame is a packet id, a payload and the bytes after them.\<close>

definition cut_frame :: "bytes \<Rightarrow> next_frame" where
  "cut_frame pending =
     (if length pending < 8 then NeedMore
      else
        let payload_len = get_i32 (take 4 pending);
            packet_id = get_i32 (take 4 (drop 4 pending))
        in if payload_len < 0 \<or> max_hytale_payload_len < payload_len \<or> max_debug_buffered_payload < payload_len
           then InvalidFrame
           else
             let frame_len = 8 + nat payload_len in
             if length pending < frame_len then NeedMore
             else NextFrame packet_id (take (frame_len - 8) (drop 8 pending)) (drop frame_len pending))"

lemma cut_frame_shorter: "cut_frame pending = NextFrame i p rest \<Longrightarrow> length rest < length pending"
  by (auto simp: cut_frame_def Let_def split: if_splits)

text \<open>The inner loop; the flag tells that \<open>dumpFrames\<close> has returned.\<close>

function drain :: "'s handler \<Rightarrow> bytes \<Rightarrow> 's \<Rightarrow> (bool \<times> bytes \<times> 's) option" where
  "drain h pending s =
     (case cut_frame pending of
        NeedMore \<Rightarrow> Some (False, pending, s)
      | InvalidFrame \<Rightarrow> Some (True, pending, s)
      | NextFrame packet_id payload rest \<Rightarrow>
          (case h packet_id payload s of
             None \<Rightarrow> None
           | Some (stop, s') \<Rightarrow> if stop then Some (True, pending, s') else drain h rest s'))"
  by pat_completeness auto

termination drain
  by (relation "measure (\<lambda>(h, pending, s). length pending)") (auto simp: cut_frame_shorter)

declare drain.simps [simp del]

text \<open>
  The outer loop. What the calls of \<open>Read\<close> deliver is a list: the bytes of each call, and whether it
  also reports an error (of any kind: the end of the stream, a reset), after which the function
  returns. At the end of the list the stream is still open.
\<close>

fun read_loop :: "'s handler \<Rightarrow> (bytes \<times> bool) list \<Rightarrow> bytes \<Rightarrow> 's \<Rightarrow> (bool \<times> bytes \<times> 's) option" where
  "read_loop h [] pending s = Some (False, pending, s)"
| "read_loop h ((chunk, failed) # reads) pending s =
     (case (if 0 < length chunk then drain h (pending @ chunk) s else Some (False, pending, s)) of
        None \<Rightarrow> None
      | Some (stop, pending', s') \<Rightarrow>
          if stop then Some (True, pending', s')
          else if failed then Some (True, pending', s')
          else read_loop h reads pending' s')"

section \<open>Laws of the framing\<close>

lemma cut_frame_append:
  "cut_frame p = NextFrame i q r \<Longrightarrow> cut_frame (p @ x) = NextFrame i q (r @ x)"
  "cut_frame p = InvalidFrame \<Longrightarrow> cut_frame (p @ x) = InvalidFrame"
  by (auto simp: cut_frame_def Let_def split: if_splits)

text \<open>The equations of the inner loop, by what stands at the head of the buffer.\<close>

lemma drain_eqs:
  "cut_frame p = NeedMore \<Longrightarrow> drain h p s = Some (False, p, s)"
  "cut_frame p = InvalidFrame \<Longrightarrow> drain h p s = Some (True, p, s)"
  "cut_frame p = NextFrame i q r \<Longrightarrow> h i q s = None \<Longrightarrow> drain h p s = None"
  "cut_frame p = NextFrame i q r \<Longrightarrow> h i q s = Some (True, s') \<Longrightarrow> drain h p s = Some (True, p, s')"
  "cut_frame p = NextFrame i q r \<Longrightarrow> h i q s = Some (False, s') \<Longrightarrow> drain h p s = drain h r s'"
  by (simp_all add: drain.simps [of h p])

text \<open>An induction over the packets that the loop takes from the buffer.\<close>

lemma drain_induct [case_names more invalid stuck stop again]:
  assumes "\<And>p s. cut_frame p = NeedMore \<Longrightarrow> P p s"
    and "\<And>p s. cut_frame p = InvalidFrame \<Longrightarrow> P p s"
    and "\<And>p s i q r. cut_frame p = NextFrame i q r \<Longrightarrow> h i q s = None \<Longrightarrow> P p s"
    and "\<And>p s i q r s'. cut_frame p = NextFrame i q r \<Longrightarrow> h i q s = Some (True, s') \<Longrightarrow> P p s"
    and "\<And>p s i q r s'. cut_frame p = NextFrame i q r \<Longrightarrow> h i q s = Some (False, s') \<Longrightarrow> P r s' \<Longrightarrow> P p s"
  shows "P p s"
proof (induction "length p" arbitrary: p s rule: less_induct)
  case (less p s)
  show ?case
  proof (cases "cut_frame p")
    case (NextFrame i q r)
    show ?thesis
    proof (cases "h i q s")
      case None
      with NextFrame show ?thesis by (rule assms(3))
    next
      case (Some y)
      obtain stop s1 where y: "y = (stop, s1)" by (cases y)
      show ?thesis
      proof (cases stop)
        case True
        with NextFrame Some y show ?thesis by (intro assms(4)) simp_all
      next
        case False
        from less [OF cut_frame_shorter [OF NextFrame]] NextFrame Some y False show ?thesis
          by - (rule assms(5), simp_all)
      qed
    qed
  qed (simp_all add: assms(1,2))
qed

text \<open>More bytes at the end do not change what was done with the bytes before.\<close>

lemma drain_append:
  "drain h (p @ x) s =
     (case drain h p s of
        None \<Rightarrow> None
      | Some (stop, p', s') \<Rightarrow> if stop then Some (True, p' @ x, s') else drain h (p' @ x) s')"
  by (induction p s rule: drain_induct [where h = h]) (simp_all add: drain_eqs cut_frame_append)

text \<open>Between packets the buffer holds no complete frame.\<close>

lemma drain_rest: "drain h p s = Some (False, p', s') \<Longrightarrow> cut_frame p' = NeedMore"
  by (induction p s rule: drain_induct [where h = h]) (simp_all add: drain_eqs)

text \<open>How the bytes are cut into reads does not matter, but for the bytes left over at the end.\<close>

definition outcome_of :: "(bool \<times> bytes \<times> 's) option \<Rightarrow> (bool \<times> 's) option" where
  "outcome_of r = map_option (\<lambda>(stop, p, s). (stop, s)) r"

lemma read_loop_drain:
  assumes "cut_frame p = NeedMore"
  shows "outcome_of (read_loop h (map (\<lambda>c. (c, False)) cs) p s) = outcome_of (drain h (p @ concat cs) s)"
  using assms
proof (induction cs arbitrary: p s)
  case Nil
  then show ?case by (simp add: drain_eqs)
next
  case (Cons c cs)
  show ?case
  proof (cases "c = []")
    case True
    with Cons show ?thesis by simp
  next
    case False
    show ?thesis
    proof (cases "drain h (p @ c) s")
      case None
      with False show ?thesis
        using drain_append [of h "p @ c" "concat cs" s] by (simp add: outcome_of_def)
    next
      case (Some r)
      obtain stop p' s' where r: "r = (stop, p', s')" by (cases r)
      show ?thesis
      proof (cases stop)
        case True
        with False Some r show ?thesis
          using drain_append [of h "p @ c" "concat cs" s] by (simp add: outcome_of_def)
      next
        case go: False
        with Some r have d: "drain h (p @ c) s = Some (False, p', s')" by simp
        with Cons.IH [OF drain_rest [OF d], of s'] False show ?thesis
          using drain_append [of h "p @ c" "concat cs" s] by simp
      qed
    qed
  qed
qed

text \<open>A read that reports an error is the last one.\<close>

lemma read_loop_failed:
  "read_loop h reads p s = Some (stop, p', s') \<Longrightarrow> (chunk, True) \<in> set reads \<Longrightarrow> stop"
proof (induction reads arbitrary: p s)
  case (Cons r reads)
  obtain c failed where r: "r = (c, failed)" by (cases r)
  with Cons show ?case by (cases failed) (auto split: option.splits if_splits)
qed simp

section \<open>The packets on a stream\<close>

text \<open>What the handler does with a list of packets, the framing left out.\<close>

fun run_packets :: "'s handler \<Rightarrow> (u32 \<times> bytes) list \<Rightarrow> 's \<Rightarrow> (bool \<times> 's) option" where
  "run_packets h [] s = Some (False, s)"
| "run_packets h ((i, p) # ps) s =
     (case h (sint i) p s of
        None \<Rightarrow> None
      | Some (stop, s') \<Rightarrow> if stop then Some (True, s') else run_packets h ps s')"

definition frames :: "(u32 \<times> bytes) list \<Rightarrow> bytes" where
  "frames ps = concat (map (\<lambda>(i, p). frame i p) ps)"

definition payload_ok :: "bytes \<Rightarrow> bool" where
  "payload_ok p \<longleftrightarrow> int (length p) \<le> max_debug_buffered_payload"

lemma get_i32_word: "get_i32 (put_u32 w) = sint w"
  by (simp add: get_i32_def)

lemma cut_frame_frame:
  assumes "payload_ok p"
  shows "cut_frame (frame i p @ x) = NextFrame (sint i) p x"
proof -
  have len: "get_i32 (put_u32 (of_nat (length p))) = int (length p)"
    using assms get_i32_put [of "int (length p)"] by (simp add: payload_ok_def max_debug_buffered_payload_def)
  have parts: "take 4 (frame i p @ x) = put_u32 (of_nat (length p))"
    "take 4 (drop 4 (frame i p @ x)) = put_u32 i" "drop 8 (frame i p @ x) = p @ x"
    "drop (8 + length p) (frame i p @ x) = x" "length (frame i p @ x) = 8 + length p + length x"
    by (simp_all add: frame_def)
  have heads: "get_i32 (take 4 (frame i p @ x)) = int (length p)"
    "get_i32 (take 4 (drop 4 (frame i p @ x))) = sint i"
    by (simp_all only: parts(1,2) len, simp_all only: get_i32_word)
  show ?thesis unfolding cut_frame_def heads parts(5) Let_def
    using assms parts(3,4)
    by (simp add: payload_ok_def max_debug_buffered_payload_def max_hytale_payload_len_def
        del: take_append drop_append)
qed

text \<open>The byte loop is the packet loop on a buffer of well-formed frames.\<close>

lemma drain_frames:
  assumes "\<forall>(i, p) \<in> set ps. payload_ok p"
  shows "outcome_of (drain h (frames ps @ x) s) =
    (case run_packets h ps s of
       None \<Rightarrow> None
     | Some (stop, s') \<Rightarrow> if stop then Some (True, s') else outcome_of (drain h x s'))"
  using assms
proof (induction ps arbitrary: s)
  case Nil
  then show ?case by (simp add: frames_def)
next
  case (Cons ip ps)
  obtain i p where ip: "ip = (i, p)" by (cases ip)
  with Cons.prems have cut: "cut_frame (frames (ip # ps) @ x) = NextFrame (sint i) p (frames ps @ x)"
    using cut_frame_frame [of p i "frames ps @ x"] by (simp add: frames_def)
  show ?case
  proof (cases "h (sint i) p s")
    case None
    with cut ip show ?thesis by (simp add: drain_eqs outcome_of_def)
  next
    case (Some y)
    obtain stop s1 where y: "y = (stop, s1)" by (cases y)
    with Some cut ip Cons show ?thesis by (cases stop) (simp_all add: drain_eqs outcome_of_def)
  qed
qed

section \<open>Handlers that keep an invariant\<close>

text \<open>
  The interface of the byte loop to a handler: on a state that satisfies the invariant it comes to an
  end and keeps the invariant. The loops then do so too.
\<close>

locale frame_handler =
  fixes h :: "'s handler" and inv :: "'s \<Rightarrow> bool"
  assumes handles: "inv s \<Longrightarrow> \<exists>stop s'. h i p s = Some (stop, s') \<and> inv s'"
begin

lemma drain_ends: "inv s \<Longrightarrow> \<exists>stop p' s'. drain h p s = Some (stop, p', s') \<and> inv s'"
proof (induction p s rule: drain_induct [where h = h])
  case (stuck p s i q r)
  with handles [of s i q] show ?case by simp
next
  case (stop p s i q r s')
  with handles [of s i q] show ?case by (simp add: drain_eqs)
next
  case (again p s i q r s')
  with handles [of s i q] show ?case by (simp add: drain_eqs)
next
  case (invalid p s)
  then show ?case by (intro exI [of _ True]) (simp add: drain_eqs)
qed (simp add: drain_eqs)

lemma read_loop_ends: "inv s \<Longrightarrow> \<exists>stop p' s'. read_loop h reads p s = Some (stop, p', s') \<and> inv s'"
proof (induction reads arbitrary: p s)
  case (Cons r reads)
  obtain chunk failed where r: "r = (chunk, failed)" by (cases r)
  from drain_ends [OF Cons.prems, of "p @ chunk"] obtain stop p' s' where
    "drain h (p @ chunk) s = Some (stop, p', s')" "inv s'" by blast
  then show ?case using Cons.IH [of s' p'] Cons.IH [OF Cons.prems, of p] Cons.prems
    by (cases "chunk = []"; cases stop; cases failed) (auto simp: r intro: exI [of _ True])
qed simp

end

text \<open>
  A weaker interface for invariants of handlers that need not come to an end: whatever they return
  satisfies a relation that composes.
\<close>

locale frame_relation =
  fixes h :: "'s handler" and rel :: "'s \<Rightarrow> bool \<Rightarrow> 's \<Rightarrow> bool"
  assumes rel_refl: "rel s False s"
    and rel_stop: "rel s False s' \<Longrightarrow> rel s True s'"
    and rel_trans: "rel s False s' \<Longrightarrow> rel s' stop s'' \<Longrightarrow> rel s stop s''"
    and rel_handles: "h i p s = Some (stop, s') \<Longrightarrow> rel s stop s'"
begin

lemma drain_rel: "drain h p s = Some (stop, p', s') \<Longrightarrow> rel s stop s'"
proof (induction p s rule: drain_induct [where h = h])
  case (more p s)
  then show ?case by (auto simp: drain_eqs rel_refl)
next
  case (invalid p s)
  then show ?case by (auto simp: drain_eqs rel_refl rel_stop)
next
  case (stuck p s i q r)
  then show ?case by (simp add: drain_eqs)
next
  case (stop p s i q r s1)
  then show ?case using rel_handles by (auto simp: drain_eqs)
next
  case (again p s i q r s1)
  then have "rel s1 stop s'" by (simp add: drain_eqs)
  with rel_handles [OF again(2)] show ?case by (rule rel_trans)
qed

lemma read_loop_rel: "read_loop h reads p s = Some (stop, p', s') \<Longrightarrow> rel s stop s'"
proof (induction reads arbitrary: p s)
  case Nil
  then show ?case by (auto simp: rel_refl)
next
  case (Cons r reads)
  obtain chunk failed where r: "r = (chunk, failed)" by (cases r)
  let ?d = "if 0 < length chunk then drain h (p @ chunk) s else Some (False, p, s)"
  from Cons.prems obtain stop1 p1 s1 where d: "?d = Some (stop1, p1, s1)"
    by (auto simp: r split: option.splits)
  have rel1: "rel s stop1 s1" using d drain_rel rel_refl by (auto split: if_splits)
  show ?case
  proof (cases "stop1 \<or> failed")
    case True
    with Cons.prems d have "stop" "s' = s1" by (auto simp: r split: if_splits)
    with rel1 show ?thesis by (cases stop1) (auto intro: rel_stop)
  next
    case False
    with Cons.prems d have "read_loop h reads p1 s1 = Some (stop, p', s')" by (auto simp: r split: if_splits)
    from rel_trans [OF _ Cons.IH [OF this]] rel1 False show ?thesis by simp
  qed
qed

end

end
