(* ===== verification/Messages.thy ===== *)
theory Messages
  imports ConfigTypes
begin

text \<open>
  The disconnect messages of \<^verbatim>\<open>internal/server/streams.go\<close>: which text a client is shown, by the
  error of the routing decision and the language of the client.
\<close>

section \<open>Locales\<close>

definition empty_messages :: disconnect_messages where
  "empty_messages = \<lparr>dm_no_route = [], dm_no_backends = [], dm_routing_error = [], dm_discovery_error = []\<rparr>"

text \<open>The first entry, in the order of iteration, whose key is equal under case folding.\<close>

definition lookup_disconnect_locale ::
  "(string \<times> disconnect_messages) list \<Rightarrow> string \<Rightarrow> disconnect_messages option"
where
  "lookup_disconnect_locale locales key0 =
     (let key = trim_space key0 in
      if key = [] then None
      else map_option snd (find (\<lambda>(k, v). equal_fold k key) locales))"

definition override_messages :: "disconnect_messages \<Rightarrow> disconnect_messages \<Rightarrow> disconnect_messages" where
  "override_messages loc base =
     \<lparr>dm_no_route = (if trim_space (dm_no_route loc) \<noteq> [] then dm_no_route loc else dm_no_route base),
      dm_no_backends = (if trim_space (dm_no_backends loc) \<noteq> [] then dm_no_backends loc else dm_no_backends base),
      dm_routing_error = (if trim_space (dm_routing_error loc) \<noteq> [] then dm_routing_error loc else dm_routing_error base),
      dm_discovery_error = (if trim_space (dm_discovery_error loc) \<noteq> [] then dm_discovery_error loc else dm_discovery_error base)\<rparr>"

definition disconnect_messages_for_language :: "messages_config option \<Rightarrow> string \<Rightarrow> disconnect_messages" where
  "disconnect_messages_for_language cfg language =
     (case cfg of None \<Rightarrow> empty_messages
      | Some m \<Rightarrow>
        let base = msg_disconnect m; locales = (case msg_locales m of None \<Rightarrow> [] | Some l \<Rightarrow> l) in
        if length locales = 0 then base
        else let lang0 = trim_space language in
          if lang0 = [] then base
          else let lang = replace_char (CHR ''_'') (CHR ''-'') lang0;
                   base_lang = before_char (CHR ''-'') lang in
            (case lookup_disconnect_locale locales lang of
               Some loc \<Rightarrow> override_messages loc base
             | None \<Rightarrow>
               (case lookup_disconnect_locale locales base_lang of
                  Some loc \<Rightarrow> override_messages loc base
                | None \<Rightarrow> base)))"

section \<open>Templates\<close>

definition template_no_route :: "messages_config option \<Rightarrow> string \<Rightarrow> string" where
  "template_no_route cfg language = dm_no_route (disconnect_messages_for_language cfg language)"

definition template_no_backends :: "messages_config option \<Rightarrow> string \<Rightarrow> string" where
  "template_no_backends cfg language = dm_no_backends (disconnect_messages_for_language cfg language)"

definition template_routing_error :: "messages_config option \<Rightarrow> string \<Rightarrow> string" where
  "template_routing_error cfg language = dm_routing_error (disconnect_messages_for_language cfg language)"

definition template_discovery_error :: "messages_config option \<Rightarrow> string \<Rightarrow> string" where
  "template_discovery_error cfg language = dm_discovery_error (disconnect_messages_for_language cfg language)"

definition template_or_default :: "string \<Rightarrow> string \<Rightarrow> string" where
  "template_or_default v def = (if trim_space v \<noteq> [] then v else def)"

text \<open>The error is given by its text, \<open>None\<close> for nil.\<close>

definition format_template :: "string \<Rightarrow> string \<Rightarrow> string option \<Rightarrow> string" where
  "format_template tpl sni err =
     (let e = (case err of None \<Rightarrow> [] | Some t \<Rightarrow> t) in
      replace_pairs [(''${sni}'', sni), (''${error}'', e)] tpl)"

section \<open>The reason of a disconnect\<close>

text \<open>\<open>errors.Is\<close> for the three discovery errors.\<close>

definition is_discovery_error :: "routing_error \<Rightarrow> bool" where
  "is_discovery_error e \<longleftrightarrow>
     (case e of ErrDiscovery _ \<Rightarrow> True | ErrDiscoveryNotSet \<Rightarrow> True | ErrInvalidDiscoveryMode _ \<Rightarrow> True | _ \<Rightarrow> False)"

definition disconnect_reason ::
  "(string \<Rightarrow> string) \<Rightarrow> messages_config option \<Rightarrow> string \<Rightarrow> string \<Rightarrow> routing_error option \<Rightarrow> string"
where
  "disconnect_reason quote cfg sni language route_err =
     (case route_err of
        None \<Rightarrow> format_template (template_or_default (template_no_route cfg language) ''no route'') sni None
      | Some e \<Rightarrow>
        let text = Some (routing_error_text quote e) in
        if e = ErrNoBackends then
          format_template (template_or_default (template_no_backends cfg language) ''no backends'') sni text
        else if is_discovery_error e then
          format_template (template_or_default (template_discovery_error cfg language) ''discovery error'') sni text
        else format_template (template_or_default (template_routing_error cfg language) ''routing error'') sni text)"

section \<open>Properties\<close>

lemma replace_pairs_skip:
  "(\<forall>p \<in> set ps. fst p = [] \<or> hd (fst p) \<notin> set u) \<Longrightarrow> replace_pairs ps (u @ v) = u @ replace_pairs ps v"
proof (induction u)
  case (Cons c u)
  have "first_pair ps (c # u @ v) = None"
    using Cons.prems
  proof (induction ps)
    case (Cons p ps)
    obtain a b where p: "p = (a, b)" by (cases p)
    with Cons.prems have "\<not> (a \<noteq> [] \<and> has_prefix (c # u @ v) a)" by (cases a) auto
    with Cons p show ?case by auto
  qed simp
  moreover have "replace_pairs ps (u @ v) = u @ replace_pairs ps v" using Cons.prems by (intro Cons.IH) auto
  ultimately show ?case by simp
qed simp

definition template_pairs :: "string \<Rightarrow> string \<Rightarrow> (string \<times> string) list" where
  "template_pairs sni e = [(''${sni}'', sni), (''${error}'', e)]"

definition error_text :: "string option \<Rightarrow> string" where
  "error_text err = (case err of None \<Rightarrow> [] | Some t \<Rightarrow> t)"

lemma format_template_pairs: "format_template tpl sni err = replace_pairs (template_pairs sni (error_text err)) tpl"
  by (simp add: format_template_def template_pairs_def error_text_def Let_def)

lemma template_skip: "CHR ''$'' \<notin> set u \<Longrightarrow> replace_pairs (template_pairs sni e) (u @ v) = u @ replace_pairs (template_pairs sni e) v"
  by (rule replace_pairs_skip) (simp add: template_pairs_def)

lemma template_sni: "replace_pairs (template_pairs sni e) (''${sni}'' @ v) = sni @ replace_pairs (template_pairs sni e) v"
proof -
  have "first_pair (template_pairs sni e) (''${sni}'' @ v) = Some (''${sni}'', sni)"
    by (simp add: template_pairs_def)
  then show ?thesis by (simp del: first_pair.simps has_prefix.simps)
qed

lemma template_error: "replace_pairs (template_pairs sni e) (''${error}'' @ v) = e @ replace_pairs (template_pairs sni e) v"
proof -
  have "first_pair (template_pairs sni e) (''${error}'' @ v) = Some (''${error}'', e)"
    by (simp add: template_pairs_def)
  then show ?thesis by (simp del: first_pair.simps)
qed

lemma format_template_plain: "CHR ''$'' \<notin> set tpl \<Longrightarrow> format_template tpl sni err = tpl"
  using template_skip [of tpl _ _ "[]"] by (simp add: format_template_pairs)

text \<open>
  The replacement is not read again: what the client sends as its server name cannot expand to the
  error text.
\<close>

lemma format_template_sni:
  "CHR ''$'' \<notin> set u \<Longrightarrow> format_template (u @ ''${sni}'' @ v) sni err = u @ sni @ format_template v sni err"
  unfolding format_template_pairs by (simp only: template_skip template_sni not_False_eq_True)

lemma format_template_error:
  "CHR ''$'' \<notin> set u \<Longrightarrow>
   format_template (u @ ''${error}'' @ v) sni err = u @ error_text err @ format_template v sni err"
  unfolding format_template_pairs by (simp only: template_skip template_error not_False_eq_True)

text \<open>The lookup does not depend on the order of iteration if the keys differ under case folding.\<close>

lemma equal_fold_trans: "equal_fold a c \<Longrightarrow> equal_fold b c \<Longrightarrow> equal_fold a b"
  by (simp add: equal_fold_def)

lemma find_unique:
  assumes "x \<in> set xs" "P x" "\<And>y. y \<in> set xs \<Longrightarrow> P y \<Longrightarrow> y = x"
  shows "find P xs = Some x"
proof (cases "find P xs")
  case None
  with assms(1,2) show ?thesis by (auto simp: find_None_iff)
next
  case (Some y)
  then have "y \<in> set xs" "P y" by (auto simp: find_Some_iff)
  with Some assms(3) show ?thesis by simp
qed

lemma find_same_set:
  assumes "set l = set m" "\<And>x y. x \<in> set l \<Longrightarrow> y \<in> set l \<Longrightarrow> P x \<Longrightarrow> P y \<Longrightarrow> x = y"
  shows "find P l = find P m"
proof (cases "\<exists>x \<in> set l. P x")
  case False
  with assms(1) have "find P l = None" "find P m = None" by (auto simp: find_None_iff)
  then show ?thesis by simp
next
  case True
  then obtain x where x: "x \<in> set l" "P x" by blast
  have "find P l = Some x" by (rule find_unique) (use x assms(2) in blast)+
  moreover have "find P m = Some x" by (rule find_unique) (use x assms in blast)+
  ultimately show ?thesis by simp
qed

definition keys_differ :: "(string \<times> disconnect_messages) list \<Rightarrow> bool" where
  "keys_differ l \<longleftrightarrow> (\<forall>x \<in> set l. \<forall>y \<in> set l. equal_fold (fst x) (fst y) \<longrightarrow> x = y)"

lemma lookup_order_independent:
  assumes "set l = set m" "keys_differ l"
  shows "lookup_disconnect_locale l key = lookup_disconnect_locale m key"
proof -
  have "find (\<lambda>(k, v). equal_fold k (trim_space key)) l = find (\<lambda>(k, v). equal_fold k (trim_space key)) m"
  proof (rule find_same_set [OF assms(1)])
    fix x y :: "string \<times> disconnect_messages"
    assume xy: "x \<in> set l" "y \<in> set l"
      and "(case x of (k, v) \<Rightarrow> equal_fold k (trim_space key))"
      and "(case y of (k, v) \<Rightarrow> equal_fold k (trim_space key))"
    then have "equal_fold (fst x) (fst y)"
      using equal_fold_trans [of "fst x" "trim_space key" "fst y"] by (simp add: case_prod_beta)
    with xy assms(2) show "x = y" by (simp add: keys_differ_def)
  qed
  then show ?thesis by (simp add: lookup_disconnect_locale_def Let_def)
qed

end
