(* ===== verification/Streams.thy ===== *)
theory Streams
  imports StreamFrames PluginManager Messages Referral RoutingEngine
begin

text \<open>
  What the router does with the packets of a client, \<open>dumpFrames\<close> of \<^verbatim>\<open>internal/server/streams.go\<close>: on
  a Connect packet it decides, lets the plugins change the decision, and answers with one
  ClientReferral packet or with a Disconnect packet.

  A result is \<open>None\<close> where the code would not come back (a writer that never makes progress, a random
  generator that never hits) or would panic; otherwise the flag tells whether \<open>dumpFrames\<close> returns.
  Logging is left out.
\<close>

section \<open>The server, the stream and its state\<close>

text \<open>
  The fields of \<open>Server\<close> that a stream uses. A router, the plugin manager and the configuration may be
  nil. What the world answers changes with time: the clock, the discovery callback and the answers of
  the plugins depend on the number of packets handled before on this stream.
\<close>

record server =
  srv_router :: bool
  srv_now :: "nat \<Rightarrow> int"
  srv_discovery :: "nat \<Rightarrow> discovery_fn option"
  srv_plugins :: "(nat \<Rightarrow> plugin list) option"
  srv_messages :: "messages_config option"
  srv_key_id :: byte
  srv_secret :: "bytes option"
  srv_quote :: "string \<Rightarrow> string"

text \<open>
  What the type assertions of the code find in the stream: a writer (a bidirectional stream has one, a
  unidirectional one has not) and the method \<open>Close\<close>.
\<close>

record 'w stream_io =
  io_writer :: "'w writer option"
  io_close :: "('w \<Rightarrow> 'w) option"

text \<open>
  The variables of \<open>dumpFrames\<close> with the engine of the server, the state of the writer, and the number
  of packets handled.
\<close>

record 'w stream =
  st_decision :: decision
  st_route_err :: "routing_error option"
  st_backend :: backend
  st_sent :: bool
  st_content :: "bytes option"
  st_engine :: engine
  st_out :: 'w
  st_count :: nat

definition open_stream :: "decision \<Rightarrow> routing_error option \<Rightarrow> engine \<Rightarrow> 'w \<Rightarrow> 'w stream" where
  "open_stream d err e w =
     \<lparr>st_decision = d, st_route_err = err, st_backend = d_backend d, st_sent = False, st_content = None,
      st_engine = e, st_out = w, st_count = 0\<rparr>"

section \<open>Answers\<close>

definition referral_envelope :: "server \<Rightarrow> bytes option \<Rightarrow> referral_error + bytes" where
  "referral_envelope srv content =
     (let (key_id, secret) = (case srv_secret srv of None \<Rightarrow> (0, []) | Some s \<Rightarrow> (srv_key_id srv, s)) in
      encode_v1 (case content of None \<Rightarrow> [] | Some c \<Rightarrow> c) key_id secret)"

text \<open>The data of the referral: the envelope of the content, else that of no content, else nil.\<close>

definition referral_data :: "server \<Rightarrow> bytes option \<Rightarrow> bytes option" where
  "referral_data srv content =
     (case referral_envelope srv content of
        Inr d \<Rightarrow> Some d
      | Inl _ \<Rightarrow> (case referral_envelope srv (Some []) of Inr d \<Rightarrow> Some d | Inl _ \<Rightarrow> None))"

text \<open>A referral is sent once, to a writable stream, if there is a host to refer to.\<close>

definition send_referral :: "server \<Rightarrow> 'w stream_io \<Rightarrow> 'w stream \<Rightarrow> 'w stream option" where
  "send_referral srv io st =
     (if \<not> st_sent st \<and> b_host (st_backend st) \<noteq> [] then
        (case io_writer io of
           None \<Rightarrow> Some st
         | Some wr \<Rightarrow>
           (case encode_client_referral_payload (b_host (st_backend st)) (of_int (b_port (st_backend st)))
                   (referral_data srv (st_content st)) of
              Inl _ \<Rightarrow> Some st
            | Inr payload \<Rightarrow> do {
                (ok, w) \<leftarrow> write_framed_packet wr 18 payload (st_out st);
                Some (st\<lparr>st_sent := ok, st_out := w\<rparr>)
              }))
      else Some st)"

text \<open>A Disconnect packet, after which the stream is closed. Whatever happens, the function returns.\<close>

definition send_disconnect :: "'w stream_io \<Rightarrow> string \<Rightarrow> 'w stream \<Rightarrow> 'w stream option" where
  "send_disconnect io reason st =
     (case io_writer io of
        None \<Rightarrow> Some st
      | Some wr \<Rightarrow>
        (case encode_disconnect_payload reason of
           Inl _ \<Rightarrow> Some st
         | Inr payload \<Rightarrow> do {
             (ok, w) \<leftarrow> write_framed_packet wr 1 payload (st_out st);
             Some (st\<lparr>st_out := if ok then (case io_close io of None \<Rightarrow> w | Some c \<Rightarrow> c w) else w\<rparr>)
           }))"

section \<open>A Connect packet\<close>

definition route_connect :: "server \<Rightarrow> request \<Rightarrow> 'w stream \<Rightarrow> 'w stream option" where
  "route_connect srv rq st =
     (if srv_router srv then do {
        (r, e) \<leftarrow> decide (srv_discovery srv (st_count st)) (srv_now srv (st_count st)) rq (st_engine st);
        Some (case r of
            Inr d \<Rightarrow> st\<lparr>st_engine := e, st_decision := d, st_route_err := None, st_backend := d_backend d\<rparr>
          | Inl err \<Rightarrow> st\<lparr>st_engine := e, st_route_err := Some err, st_backend := empty_backend\<rparr>)
      }
      else Some st)"

text \<open>
  A client without a target and without a referral is told why. After a Connect packet that was
  decoded (the flag) an empty reason is not sent, and the stream stays open.
\<close>

definition refuse :: "server \<Rightarrow> 'w stream_io \<Rightarrow> string \<Rightarrow> string \<Rightarrow> bool \<Rightarrow> 'w stream \<Rightarrow> (bool \<times> 'w stream) option" where
  "refuse srv io sni language decoded st =
     (if \<not> st_sent st \<and> b_host (st_backend st) = [] then
        let reason = disconnect_reason (srv_quote srv) (srv_messages srv) sni language (st_route_err st) in
        if decoded \<and> reason = [] then Some (False, st)
        else do { st' \<leftarrow> send_disconnect io reason st; Some (True, st') }
      else Some (False, st))"

definition answer_connect :: "server \<Rightarrow> 'w stream_io \<Rightarrow> string \<Rightarrow> string \<Rightarrow> bool \<Rightarrow> 'w stream \<Rightarrow> (bool \<times> 'w stream) option" where
  "answer_connect srv io sni language decoded st = do {
     st' \<leftarrow> send_referral srv io st;
     refuse srv io sni language decoded st'
   }"

definition fill_event :: "connect_event \<Rightarrow> connect_info \<Rightarrow> connect_event" where
  "fill_event ev info =
     ev\<lparr>ev_hash := ci_hash info, ev_client_type := ci_client_type info, ev_uuid := ci_uuid info,
        ev_username := ci_username info, ev_language := ci_language info, ev_identity := ci_identity info\<rparr>"

definition handle_connect ::
  "server \<Rightarrow> 'w stream_io \<Rightarrow> connect_event \<Rightarrow> connect_info \<Rightarrow> 'w stream \<Rightarrow> (bool \<times> 'w stream) option"
where
  "handle_connect srv io base info st0 = do {
     st \<leftarrow> route_connect srv \<lparr>req_sni = ev_sni base, req_uuid = ci_uuid info,
            req_username = ci_username info, req_language = ci_language info\<rparr> st0;
     let ev = fill_event base info;
     case srv_plugins srv of
       None \<Rightarrow> answer_connect srv io (ev_sni base) (ev_language ev) True st
     | Some ps \<Rightarrow>
         let res = apply_on_connect (Some (ps (st_count st))) ev (st_decision st) (st_content st) in
         if ar_denied res then do { st' \<leftarrow> send_disconnect io (ar_reason res) st; Some (True, st') }
         else answer_connect srv io (ev_sni base) (ev_language ev) True
                (st\<lparr>st_backend := ar_backend res, st_content := ar_referral res\<rparr>)
   }"

text \<open>A packet that claims to be a Connect and cannot be read: routed by the host name alone.\<close>

definition handle_unreadable ::
  "server \<Rightarrow> 'w stream_io \<Rightarrow> connect_event \<Rightarrow> 'w stream \<Rightarrow> (bool \<times> 'w stream) option"
where
  "handle_unreadable srv io base st0 = do {
     st \<leftarrow> route_connect srv \<lparr>req_sni = ev_sni base, req_uuid = [], req_username = [], req_language = []\<rparr> st0;
     answer_connect srv io (ev_sni base) [] False st
   }"

definition count_packet :: "'w stream \<Rightarrow> 'w stream" where
  "count_packet st = st\<lparr>st_count := Suc (st_count st)\<rparr>"

definition handle_packet :: "server \<Rightarrow> 'w stream_io \<Rightarrow> connect_event \<Rightarrow> 'w stream handler" where
  "handle_packet srv io base packet_id payload st =
     map_option (\<lambda>(stop, st'). (stop, count_packet st'))
       (if packet_id = 0 then do {
          (info, ok) \<leftarrow> decode_connect payload;
          if ok then handle_connect srv io base info st else handle_unreadable srv io base st
        }
        else Some (False, st))"

section \<open>The stream\<close>

text \<open>The whole of \<open>dumpFrames\<close> on a stream that delivers the given reads.\<close>

definition dump_frames ::
  "server \<Rightarrow> 'w stream_io \<Rightarrow> connect_event \<Rightarrow> decision \<Rightarrow> routing_error option \<Rightarrow> engine \<Rightarrow> 'w \<Rightarrow>
   (bytes \<times> bool) list \<Rightarrow> (bool \<times> bytes \<times> 'w stream) option"
where
  "dump_frames srv io base d err e w reads =
     read_loop (handle_packet srv io base) reads [] (open_stream d err e w)"

text \<open>The two kinds of stream that the router accepts.\<close>

definition bidi_io :: "'w writer \<Rightarrow> ('w \<Rightarrow> 'w) \<Rightarrow> 'w stream_io" where
  "bidi_io wr close = \<lparr>io_writer = Some wr, io_close = Some close\<rparr>"

definition uni_io :: "'w stream_io" where
  "uni_io = \<lparr>io_writer = None, io_close = None\<rparr>"

end
