(* ===== verification/StreamSession.thy ===== *)
theory StreamSession
  imports Streams RoutingSafety
begin

text \<open>
  What a client sees of a stream: an abstract session that answers with at most one referral and at
  most one refusal, and the proof that \<open>dumpFrames\<close> implements it on every stream that takes what is
  written to it.
\<close>

section \<open>The abstract session\<close>

datatype answer = Referral string u16 "bytes option" | Refusal string

definition answer_frame :: "answer \<Rightarrow> bytes option" where
  "answer_frame a =
     (case a of
        Referral host port data \<Rightarrow>
          (case encode_client_referral_payload host port data of Inl _ \<Rightarrow> None | Inr p \<Rightarrow> Some (frame 18 p))
      | Refusal reason \<Rightarrow>
          (case encode_disconnect_payload reason of Inl _ \<Rightarrow> None | Inr p \<Rightarrow> Some (frame 1 p)))"

definition sendable :: "answer \<Rightarrow> bool" where
  "sendable a \<longleftrightarrow> answer_frame a \<noteq> None"

definition answer_bytes :: "answer list \<Rightarrow> bytes" where
  "answer_bytes as = concat (map (\<lambda>a. case answer_frame a of None \<Rightarrow> [] | Some b \<Rightarrow> b) as)"

lemma answer_bytes_append [simp]:
  "answer_bytes [] = []" "answer_bytes (as @ bs) = answer_bytes as @ answer_bytes bs"
  by (simp_all add: answer_bytes_def)

datatype phase = Waiting | Referred | Finished

text \<open>
  Handling a packet changes nothing, refers the client, refuses it (also after a referral: a plugin may
  deny a later Connect packet), or ends the stream in silence.
\<close>

inductive session_step :: "phase \<Rightarrow> answer list \<Rightarrow> phase \<Rightarrow> bool" where
  idle: "session_step ph [] ph"
| refer: "session_step Waiting [Referral host port data] Referred"
| refuse: "ph \<noteq> Finished \<Longrightarrow> session_step ph [Refusal reason] Finished"
| leave: "session_step ph [] Finished"

inductive session :: "phase \<Rightarrow> answer list \<Rightarrow> phase \<Rightarrow> bool" where
  stay: "session ph [] ph"
| move: "session_step ph as ph' \<Longrightarrow> session ph' bs ph'' \<Longrightarrow> session ph (as @ bs) ph''"

inductive_cases step_from_waiting: "session_step Waiting as ph"
inductive_cases step_from_referred: "session_step Referred as ph"
inductive_cases step_from_finished: "session_step Finished as ph"

lemmas step_cases = step_from_waiting step_from_referred step_from_finished

lemma session_one: "session_step ph as ph' \<Longrightarrow> session ph as ph'"
  using session.move [OF _ session.stay] by simp

lemma session_trans: "session ph as ph' \<Longrightarrow> session ph' bs ph'' \<Longrightarrow> session ph (as @ bs) ph''"
  by (induction rule: session.induct) (auto intro: session.intros)

lemma session_leave: "session ph as ph' \<Longrightarrow> session ph as Finished"
  using session_trans [OF _ session_one [OF session_step.leave]] by simp

text \<open>All sessions there are.\<close>

lemma session_from_finished: "session Finished as ph \<Longrightarrow> as = [] \<and> ph = Finished"
  by (induction Finished as ph rule: session.induct) (auto elim: step_from_finished)

lemma session_from_referred:
  "session Referred as ph \<Longrightarrow> as = [] \<and> ph \<noteq> Waiting \<or> (\<exists>r. as = [Refusal r] \<and> ph = Finished)"
proof (induction Referred as ph rule: session.induct)
  case (move as ph' bs ph'')
  from move(1) show ?case
    by (cases rule: step_from_referred) (use move in \<open>auto dest: session_from_finished\<close>)
qed simp

lemma session_from_waiting:
  "session Waiting as ph \<Longrightarrow>
     as = [] \<and> ph \<noteq> Referred \<or> (\<exists>r. as = [Refusal r] \<and> ph = Finished) \<or>
     (\<exists>h p d. as = [Referral h p d] \<and> ph \<noteq> Waiting) \<or>
     (\<exists>h p d r. as = [Referral h p d, Refusal r] \<and> ph = Finished)"
proof (induction Waiting as ph rule: session.induct)
  case (move as ph' bs ph'')
  from move(1) show ?case
    by (cases rule: step_from_waiting)
      (use move in \<open>auto dest: session_from_finished session_from_referred\<close>)
qed simp

section \<open>The phase of a stream\<close>

definition phase_of :: "bool \<Rightarrow> 'w stream \<Rightarrow> phase" where
  "phase_of stopped st = (if stopped then Finished else if st_sent st then Referred else Waiting)"

text \<open>
  The bytes written between two states are answers that the session allows and that satisfy \<open>ok\<close>.
\<close>

definition advances ::
  "('w \<Rightarrow> bytes) \<Rightarrow> (answer \<Rightarrow> bool) \<Rightarrow> 'w stream \<Rightarrow> bool \<Rightarrow> 'w stream \<Rightarrow> bool"
where
  "advances written ok st stop st' \<longleftrightarrow>
     (\<exists>as. written (st_out st') = written (st_out st) @ answer_bytes as \<and>
        session (phase_of False st) as (phase_of stop st') \<and> (\<forall>a \<in> set as. sendable a \<and> ok a))"

lemma advances_refl: "st_out st' = st_out st \<Longrightarrow> st_sent st' = st_sent st \<Longrightarrow> advances written ok st False st'"
  unfolding advances_def by (intro exI [of _ "[]"]) (simp add: phase_of_def session.stay)

lemma advances_stop: "advances written ok st False st' \<Longrightarrow> advances written ok st True st'"
  unfolding advances_def using session_leave by (fastforce simp: phase_of_def)

lemma advances_trans:
  assumes "advances written ok st False st'" "advances written ok st' stop st''"
  shows "advances written ok st stop st''"
proof -
  from assms obtain as bs where
    "written (st_out st') = written (st_out st) @ answer_bytes as" "session (phase_of False st) as (phase_of False st')"
    "\<forall>a \<in> set as. sendable a \<and> ok a"
    "written (st_out st'') = written (st_out st') @ answer_bytes bs" "session (phase_of False st') bs (phase_of stop st'')"
    "\<forall>a \<in> set bs. sendable a \<and> ok a"
    unfolding advances_def by blast
  then show ?thesis unfolding advances_def by (intro exI [of _ "as @ bs"]) (auto intro: session_trans)
qed

text \<open>Changes of the other variables do not show.\<close>

lemma advances_from:
  "st_out st1 = st_out st \<Longrightarrow> st_sent st1 = st_sent st \<Longrightarrow> advances written ok st1 stop st' \<Longrightarrow>
   advances written ok st stop st'"
  by (rule advances_trans [OF advances_refl])

lemma advances_to:
  "advances written ok st stop st1 \<Longrightarrow> st_out st' = st_out st1 \<Longrightarrow> st_sent st' = st_sent st1 \<Longrightarrow>
   advances written ok st stop st'"
proof -
  assume "advances written ok st stop st1" "st_out st' = st_out st1" "st_sent st' = st_sent st1"
  moreover from this have "phase_of stop st' = phase_of stop st1" by (simp add: phase_of_def)
  ultimately show ?thesis by (simp add: advances_def)
qed

section \<open>The answer to a packet\<close>

text \<open>The referral of a stream in a given state, and when it is sent.\<close>

definition referral_of :: "server \<Rightarrow> 'w stream \<Rightarrow> answer" where
  "referral_of srv st = Referral (b_host (st_backend st)) (of_int (b_port (st_backend st))) (referral_data srv (st_content st))"

definition refers :: "server \<Rightarrow> 'w stream_io \<Rightarrow> 'w stream \<Rightarrow> bool" where
  "refers srv io st \<longleftrightarrow> \<not> st_sent st \<and> b_host (st_backend st) \<noteq> [] \<and> io_writer io \<noteq> None \<and> sendable (referral_of srv st)"

text \<open>What the plugins make of a routed stream: a denial, or a new backend and referral content.\<close>

definition plugin_result :: "server \<Rightarrow> connect_event \<Rightarrow> 'w stream \<Rightarrow> apply_result option" where
  "plugin_result srv ev st =
     map_option (\<lambda>ps. apply_on_connect (Some (ps (st_count st))) ev (st_decision st) (st_content st)) (srv_plugins srv)"

definition planned :: "apply_result option \<Rightarrow> 'w stream \<Rightarrow> 'w stream" where
  "planned r st = (case r of None \<Rightarrow> st | Some res \<Rightarrow> st\<lparr>st_backend := ar_backend res, st_content := ar_referral res\<rparr>)"

lemma planned_simps [simp]:
  "st_sent (planned r st) = st_sent st" "st_out (planned r st) = st_out st"
  "st_engine (planned r st) = st_engine st" "st_count (planned r st) = st_count st"
  "st_route_err (planned r st) = st_route_err st" "st_decision (planned r st) = st_decision st"
  by (simp_all add: planned_def split: option.split)

definition connect_request_of :: "connect_event \<Rightarrow> connect_info \<Rightarrow> request" where
  "connect_request_of base info =
     \<lparr>req_sni = ev_sni base, req_uuid = ci_uuid info, req_username = ci_username info, req_language = ci_language info\<rparr>"

lemma handle_connect_eq:
  "handle_connect srv io base info st0 = do {
     st \<leftarrow> route_connect srv (connect_request_of base info) st0;
     (case plugin_result srv (fill_event base info) st of
        Some res \<Rightarrow>
          if ar_denied res then do { st' \<leftarrow> send_disconnect io (ar_reason res) st; Some (True, st') }
          else answer_connect srv io (ev_sni base) (ci_language info) True (planned (Some res) st)
      | None \<Rightarrow> answer_connect srv io (ev_sni base) (ci_language info) True (planned None st))
   }"
  by (cases "srv_plugins srv")
    (simp_all add: handle_connect_def connect_request_of_def plugin_result_def planned_def fill_event_def Let_def
      cong: if_cong)

lemma route_connect_frame:
  assumes "route_connect srv rq st = Some st'"
  shows "st_sent st' = st_sent st" "st_out st' = st_out st" "st_count st' = st_count st" "st_content st' = st_content st"
    "same_engine (st_engine st) (st_engine st')"
  using assms by (auto simp: route_connect_def split: if_splits bind_splits sum.splits dest: decide_frame)

text \<open>The engine keeps its configuration and its source of randomness.\<close>

lemma answers_engine:
  "send_disconnect io reason st = Some st' \<Longrightarrow> st_engine st' = st_engine st"
  "send_referral srv io st = Some st' \<Longrightarrow> st_engine st' = st_engine st"
  by (auto simp: send_disconnect_def send_referral_def split: option.splits sum.splits if_splits bind_splits)

lemma refuse_engine: "refuse srv io sni lang decoded st = Some (stop, st') \<Longrightarrow> st_engine st' = st_engine st"
  by (auto simp: refuse_def Let_def answers_engine split: if_splits bind_splits)

lemma answer_connect_engine:
  "answer_connect srv io sni lang decoded st = Some (stop, st') \<Longrightarrow> st_engine st' = st_engine st"
  by (auto simp: answer_connect_def answers_engine refuse_engine split: bind_splits)

lemma handle_connect_engine:
  assumes "handle_connect srv io base info st0 = Some (stop, st')"
  shows "same_engine (st_engine st0) (st_engine st')"
proof -
  from assms obtain st where st: "route_connect srv (connect_request_of base info) st0 = Some st"
    by (auto simp: handle_connect_eq split: bind_splits)
  with assms have "st_engine st' = st_engine st"
    by (auto simp: handle_connect_eq answers_engine answer_connect_engine split: option.splits if_splits bind_splits
        dest!: answer_connect_engine)
  with route_connect_frame(5) [OF st] show ?thesis by simp
qed

lemma handle_unreadable_engine:
  "handle_unreadable srv io base st0 = Some (stop, st') \<Longrightarrow> same_engine (st_engine st0) (st_engine st')"
  by (auto simp: handle_unreadable_def split: bind_splits dest!: answer_connect_engine route_connect_frame(5))

lemma handle_packet_engine:
  "handle_packet srv io base i p st0 = Some (stop, st') \<Longrightarrow> same_engine (st_engine st0) (st_engine st')"
  by (auto simp: handle_packet_def count_packet_def split: if_splits bind_splits
      dest: handle_connect_engine handle_unreadable_engine)

section \<open>Streams that take what is written\<close>

text \<open>
  The interface of \<open>dumpFrames\<close> to the transport: a writer, if there is one, takes all it is given, and
  closing writes nothing.
\<close>

locale reliable_stream =
  fixes io :: "'w stream_io" and written :: "'w \<Rightarrow> bytes"
  assumes writes: "io_writer io = Some wr \<Longrightarrow> \<exists>w'. wr w buf = (length buf, False, w') \<and> written w' = written w @ buf"
    and closes: "io_close io = Some c \<Longrightarrow> written (c w) = written w"
begin

lemma write_packet:
  assumes "io_writer io = Some wr"
  obtains w' where "write_framed_packet wr i p w = Some (True, w')" "written w' = written w @ frame i p"
proof -
  obtain w' where w': "wr w (frame i p) = (length (frame i p), False, w')" "written w' = written w @ frame i p"
    using writes [OF assms] by blast
  have "write_framed_packet wr i p w = Some (True, w')"
    using w'(1) frame_header(1) [of i p]
    by (auto simp: write_framed_packet_def write_all.simps [of wr "frame i p"] write_all.simps [of wr "[]"])
  with w'(2) that show ?thesis by blast
qed

lemma send_disconnect_out:
  "\<exists>w'. send_disconnect io reason st = Some (st\<lparr>st_out := w'\<rparr>) \<and>
     written w' = written (st_out st) @
       answer_bytes (if io_writer io \<noteq> None \<and> sendable (Refusal reason) then [Refusal reason] else [])"
proof (cases "io_writer io")
  case None
  then show ?thesis by (intro exI [of _ "st_out st"]) (simp add: send_disconnect_def)
next
  case (Some wr)
  show ?thesis
  proof (cases "encode_disconnect_payload reason")
    case (Inl e)
    with Some show ?thesis
      by (intro exI [of _ "st_out st"]) (simp add: send_disconnect_def sendable_def answer_frame_def)
  next
    case (Inr p)
    obtain w' where w': "write_framed_packet wr 1 p (st_out st) = Some (True, w')"
      "written w' = written (st_out st) @ frame 1 p" using write_packet [OF Some] .
    let ?w = "case io_close io of None \<Rightarrow> w' | Some c \<Rightarrow> c w'"
    have "written ?w = written w'" using closes by (simp split: option.split)
    with w' Inr Some show ?thesis
      by (intro exI [of _ ?w]) (simp add: send_disconnect_def sendable_def answer_frame_def answer_bytes_def)
  qed
qed

lemma send_disconnect_advances:
  assumes "send_disconnect io reason st = Some st'" "\<And>r. ok (Refusal r)"
  shows "advances written ok st True st'"
proof -
  from send_disconnect_out [of reason st] assms(1) show ?thesis unfolding advances_def
    by (intro exI [of _ "if io_writer io \<noteq> None \<and> sendable (Refusal reason) then [Refusal reason] else []"])
      (auto simp: phase_of_def assms(2) intro: session_one session_step.intros)
qed

lemma send_referral_out:
  "\<exists>w'. send_referral srv io st =
     Some (if refers srv io st then st\<lparr>st_sent := True, st_out := w'\<rparr> else st) \<and>
     (refers srv io st \<longrightarrow> written w' = written (st_out st) @ answer_bytes [referral_of srv st])"
proof (cases "refers srv io st")
  case False
  then show ?thesis
    by (auto simp: refers_def send_referral_def sendable_def answer_frame_def referral_of_def
        split: option.splits sum.splits)
next
  case True
  then obtain wr p where wr: "io_writer io = Some wr" and p: "encode_client_referral_payload
      (b_host (st_backend st)) (of_int (b_port (st_backend st))) (referral_data srv (st_content st)) = Inr p"
    by (auto simp: refers_def sendable_def answer_frame_def referral_of_def split: option.splits sum.splits)
  obtain w' where w': "write_framed_packet wr 18 p (st_out st) = Some (True, w')"
    "written w' = written (st_out st) @ frame 18 p" using write_packet [OF wr] .
  with True wr p show ?thesis
    by (intro exI [of _ w'])
      (simp add: refers_def send_referral_def answer_bytes_def answer_frame_def referral_of_def)
qed

lemma send_referral_advances:
  assumes "send_referral srv io st = Some st'" "ok (referral_of srv st)"
  shows "advances written ok st False st'"
proof (cases "refers srv io st")
  case True
  with send_referral_out [of srv st] assms show ?thesis unfolding advances_def
    by (intro exI [of _ "[referral_of srv st]"])
      (auto simp: refers_def phase_of_def referral_of_def intro!: session_one session_step.intros)
next
  case False
  with send_referral_out [of srv st] assms show ?thesis by (auto intro: advances_refl)
qed

lemma refuse_advances:
  assumes "refuse srv io sni lang decoded st = Some (stop, st')" "\<And>r. ok (Refusal r)"
  shows "advances written ok st stop st'"
  using assms send_disconnect_advances [of _ st _ ok]
  by (auto simp: refuse_def Let_def split: if_splits bind_splits intro: advances_refl)

lemma answer_connect_advances:
  assumes "answer_connect srv io sni lang decoded st = Some (stop, st')"
    "\<And>r. ok (Refusal r)" "ok (referral_of srv st)"
  shows "advances written ok st stop st'"
proof -
  from assms(1) obtain st1 where "send_referral srv io st = Some st1" "refuse srv io sni lang decoded st1 = Some (stop, st')"
    by (auto simp: answer_connect_def split: bind_splits)
  with send_referral_advances refuse_advances assms(2,3) show ?thesis by (blast intro: advances_trans)
qed

text \<open>
  The answers to a Connect packet are allowed if refusals are and if the referral from every state that
  routing and the plugins can lead to is.
\<close>

lemma handle_connect_advances:
  assumes "handle_connect srv io base info st0 = Some (stop, st')" "\<And>r. ok (Refusal r)"
    and "\<And>st r. route_connect srv (connect_request_of base info) st0 = Some st \<Longrightarrow>
      r = plugin_result srv (fill_event base info) st \<Longrightarrow> ok (referral_of srv (planned r st))"
  shows "advances written ok st0 stop st'"
proof -
  from assms(1) obtain st where st: "route_connect srv (connect_request_of base info) st0 = Some st"
    by (auto simp: handle_connect_eq split: bind_splits)
  let ?r = "plugin_result srv (fill_event base info) st"
  from assms(1) st consider (denied) reason where "send_disconnect io reason st = Some st'" "stop"
    | (answered) "answer_connect srv io (ev_sni base) (ci_language info) True (planned ?r st) = Some (stop, st')"
    by (auto simp: handle_connect_eq split: option.splits if_splits bind_splits)
  then have "advances written ok (planned ?r st) stop st'"
  proof cases
    case denied
    with send_disconnect_advances [of reason st st' ok] assms(2) show ?thesis
      by (auto intro: advances_from [rotated 2])
  next
    case answered
    then show ?thesis by (rule answer_connect_advances) (use assms(2,3) st in auto)
  qed
  then show ?thesis by (rule advances_from [rotated 2]) (simp_all add: route_connect_frame [OF st])
qed

lemma handle_unreadable_advances:
  assumes "handle_unreadable srv io base st0 = Some (stop, st')" "\<And>r. ok (Refusal r)"
    and "\<And>st. route_connect srv \<lparr>req_sni = ev_sni base, req_uuid = [], req_username = [], req_language = []\<rparr> st0 = Some st \<Longrightarrow>
      ok (referral_of srv st)"
  shows "advances written ok st0 stop st'"
proof -
  from assms(1) obtain st where
    st: "route_connect srv \<lparr>req_sni = ev_sni base, req_uuid = [], req_username = [], req_language = []\<rparr> st0 = Some st"
    and a: "answer_connect srv io (ev_sni base) [] False st = Some (stop, st')"
    by (auto simp: handle_unreadable_def split: bind_splits)
  from a have "advances written ok st stop st'" by (rule answer_connect_advances) (use assms(2,3) st in auto)
  then show ?thesis by (rule advances_from [rotated 2]) (simp_all add: route_connect_frame [OF st])
qed

lemma handle_packet_advances:
  assumes "handle_packet srv io base i p st0 = Some (stop, st')" "\<And>r. ok (Refusal r)"
    and "\<And>rq st r. route_connect srv rq st0 = Some st \<Longrightarrow> r = None \<or> (\<exists>ev. r = plugin_result srv ev st) \<Longrightarrow>
      ok (referral_of srv (planned r st))"
  shows "advances written ok st0 stop st'"
proof (cases "i = 0")
  case False
  with assms(1) show ?thesis by (auto simp: handle_packet_def count_packet_def intro: advances_refl)
next
  case True
  with assms(1) obtain info ok' st1 where d: "decode_connect p = Some (info, ok')" and st': "st' = count_packet st1"
    and h: "(if ok' then handle_connect srv io base info st0 else handle_unreadable srv io base st0) = Some (stop, st1)"
    by (auto simp: handle_packet_def split: bind_splits)
  have "advances written ok st0 stop st1"
  proof (cases ok')
    case True
    with h have "handle_connect srv io base info st0 = Some (stop, st1)" by simp
    then show ?thesis by (rule handle_connect_advances) (use assms(2,3) in blast)+
  next
    case False
    with h have "handle_unreadable srv io base st0 = Some (stop, st1)" by simp
    then show ?thesis
      by (rule handle_unreadable_advances) (use assms(2) assms(3) [where r = None] in \<open>auto simp: planned_def\<close>)
  qed
  then show ?thesis by (rule advances_to) (simp_all add: st' count_packet_def)
qed

end

section \<open>Every packet is dealt with\<close>

text \<open>
  With a writer that keeps the contract of \<open>io.Writer\<close> and a fair source of randomness the handler
  always comes to an end, and leaves the source fair.
\<close>

locale contract_stream =
  fixes io :: "'w stream_io" and written :: "'w \<Rightarrow> bytes"
  assumes contract: "io_writer io = Some wr \<Longrightarrow> writer_contract wr written"
begin

lemma write_ends: "io_writer io = Some wr \<Longrightarrow> \<exists>ok w'. write_framed_packet wr i p w = Some (ok, w')"
  unfolding write_framed_packet_def by (drule contract, drule write_all_contract) blast

lemma send_disconnect_ends: "\<exists>st'. send_disconnect io reason st = Some st'"
proof (cases "io_writer io")
  case (Some wr)
  show ?thesis
  proof (cases "encode_disconnect_payload reason")
    case (Inr p)
    from write_ends [OF Some, of 1 p "st_out st"] Some Inr show ?thesis by (auto simp: send_disconnect_def)
  qed (simp add: Some send_disconnect_def)
qed (simp add: send_disconnect_def)

lemma send_referral_ends: "\<exists>st'. send_referral srv io st = Some st'"
proof (cases "io_writer io")
  case (Some wr)
  let ?e = "encode_client_referral_payload (b_host (st_backend st)) (of_int (b_port (st_backend st)))
    (referral_data srv (st_content st))"
  show ?thesis
  proof (cases ?e)
    case (Inr p)
    from write_ends [OF Some, of 18 p "st_out st"] Some Inr show ?thesis by (auto simp: send_referral_def)
  qed (simp add: Some send_referral_def)
qed (simp add: send_referral_def)

lemma answer_connect_ends: "\<exists>stop st'. answer_connect srv io sni lang decoded st = Some (stop, st')"
proof -
  obtain st1 where 1: "send_referral srv io st = Some st1" using send_referral_ends by blast
  obtain st2 where "send_disconnect io (disconnect_reason (srv_quote srv) (srv_messages srv) sni lang (st_route_err st1)) st1 = Some st2"
    using send_disconnect_ends by blast
  then have "\<exists>r. refuse srv io sni lang decoded st1 = Some r" by (auto simp: refuse_def Let_def intro: exI [of _ True])
  with 1 show ?thesis by (auto simp: answer_connect_def)
qed

lemma route_connect_ends: "fair (st_engine st) \<Longrightarrow> \<exists>st'. route_connect srv rq st = Some st'"
  using decide_ends [of "st_engine st" "srv_discovery srv (st_count st)" "srv_now srv (st_count st)" rq]
  by (auto simp: route_connect_def)

lemma handle_packet_ends:
  assumes "fair (st_engine st)"
  shows "\<exists>stop st'. handle_packet srv io base i p st = Some (stop, st') \<and> fair (st_engine st')"
proof -
  have connect: "\<exists>r. handle_connect srv io base info st = Some r" for info
  proof -
    obtain st1 where 1: "route_connect srv (connect_request_of base info) st = Some st1"
      using route_connect_ends [OF assms] by blast
    obtain st2 where "send_disconnect io (ar_reason (the (plugin_result srv (fill_event base info) st1))) st1 = Some st2"
      using send_disconnect_ends by blast
    with 1 answer_connect_ends show ?thesis
      by (auto simp: handle_connect_eq split: option.split)
  qed
  have unreadable: "\<exists>r. handle_unreadable srv io base st = Some r"
  proof -
    obtain st1 where "route_connect srv \<lparr>req_sni = ev_sni base, req_uuid = [], req_username = [], req_language = []\<rparr> st = Some st1"
      using route_connect_ends [OF assms] by blast
    with answer_connect_ends show ?thesis by (auto simp: handle_unreadable_def)
  qed
  obtain info ok where "decode_connect p = Some (info, ok)"
    using decode_connect_yields [of p] by (auto simp: yields_def)
  with connect [of info] unreadable have "\<exists>r. handle_packet srv io base i p st = Some r"
    by (cases "i = 0"; cases ok) (auto simp: handle_packet_def)
  then obtain stop st' where r: "handle_packet srv io base i p st = Some (stop, st')" by auto
  with handle_packet_engine [OF r] assms show ?thesis by (auto simp: fair_def)
qed

end

text \<open>The handler behind the byte loop, for any transport of the two kinds.\<close>

lemma handler_ends:
  "contract_stream io written \<Longrightarrow> frame_handler (handle_packet srv io base) (\<lambda>st. fair (st_engine st))"
  by unfold_locales (rule contract_stream.handle_packet_ends)

lemma handler_advances:
  "reliable_stream io written \<Longrightarrow> frame_relation (handle_packet srv io base) (advances written (\<lambda>_. True))"
  by unfold_locales
    (auto intro: advances_refl advances_stop advances_trans reliable_stream.handle_packet_advances)

text \<open>
  The streams of the router meet the interfaces: a bidirectional one with a writer in memory, and a
  unidirectional one, which has no writer.
\<close>

definition buffer_io :: "bytes stream_io" where
  "buffer_io = bidi_io buffer_write id"

lemma bidi_reliable:
  assumes "\<And>w buf. \<exists>w'. wr w buf = (length buf, False, w') \<and> written w' = written w @ buf"
    and "\<And>w. written (close w) = written w"
  shows "reliable_stream (bidi_io wr close) written"
  using assms by unfold_locales (auto simp: bidi_io_def)

interpretation buffered: reliable_stream buffer_io id
  unfolding buffer_io_def by (rule bidi_reliable) (simp_all add: buffer_write_def)

interpretation buffered: contract_stream buffer_io id
  by unfold_locales (simp add: buffer_io_def bidi_io_def buffer_contract)

interpretation one_way: reliable_stream uni_io written
  for written :: "'w \<Rightarrow> bytes"
  by unfold_locales (simp_all add: uni_io_def)

interpretation one_way: contract_stream uni_io written
  for written :: "'w \<Rightarrow> bytes"
  by unfold_locales (simp add: uni_io_def)

interpretation buffered_loop: frame_handler "handle_packet srv buffer_io base" "\<lambda>st. fair (st_engine st)"
  for srv base
  by (rule handler_ends [OF buffered.contract_stream_axioms])

interpretation buffered_session: frame_relation "handle_packet srv buffer_io base" "advances id (\<lambda>_. True)"
  for srv base
  by (rule handler_advances [OF buffered.reliable_stream_axioms])

end
