(* ===== verification/StreamAnswers.thy ===== *)
theory StreamAnswers
  imports StreamSession
begin

text \<open>
  The answer to the first Connect packet of a stream, by what routing and the plugins make of it.
\<close>

section \<open>Which answers can be sent\<close>

lemma referral_sendable:
  assumes "host \<noteq> []" "length host \<le> 256" "case data of None \<Rightarrow> True | Some d \<Rightarrow> length d \<le> 4096"
  shows "sendable (Referral host port data)"
  using client_referral_layout [OF assms(1,2)] assms(3)
  by (cases data) (simp_all add: sendable_def answer_frame_def)

lemma encode_v1_length: "encode_v1 c k s = Inr b \<Longrightarrow> length b \<le> 4096"
  by (auto simp: encode_v1_def Let_def envelope_v1_body_def v1_header_size_def max_envelope_size_def hmac_size_def
      magic_v1_def split: if_splits)

lemma referral_data_length: "case referral_data srv c of None \<Rightarrow> True | Some d \<Rightarrow> length d \<le> 4096"
  by (auto simp: referral_data_def referral_envelope_def Let_def split: sum.splits option.splits
      dest: encode_v1_length)

lemma referral_of_sendable:
  "b_host (st_backend st) \<noteq> [] \<Longrightarrow> length (b_host (st_backend st)) \<le> 256 \<Longrightarrow> sendable (referral_of srv st)"
  unfolding referral_of_def by (rule referral_sendable [OF _ _ referral_data_length])

lemma refusal_sendable: "length reason \<le> 4096000 \<Longrightarrow> sendable (Refusal reason)"
  by (simp add: sendable_def answer_frame_def encode_disconnect_payload_def write_var_string_def write_var_int_def
      Let_def)

lemma empty_envelope: "\<exists>b. encode_v1 [] k s = Inr b"
  by (simp add: encode_v1_def Let_def max_envelope_size_def v1_header_size_def hmac_size_def flag_signed_def)

lemma referral_data_none:
  "\<exists>d. referral_data srv None = Some d \<and>
     encode_v1 [] (case srv_secret srv of None \<Rightarrow> 0 | Some _ \<Rightarrow> srv_key_id srv)
       (case srv_secret srv of None \<Rightarrow> [] | Some s \<Rightarrow> s) = Inr d"
  using empty_envelope
  by (auto simp: referral_data_def referral_envelope_def split: option.split sum.split)
    (metis sum.distinct(1))+

section \<open>One Connect packet after others\<close>

text \<open>Packets that are not Connect packets are read and ignored.\<close>

definition skipped :: "nat \<Rightarrow> 'w stream \<Rightarrow> 'w stream" where
  "skipped n st = st\<lparr>st_count := st_count st + n\<rparr>"

lemma run_others:
  assumes "\<forall>(i, p) \<in> set ps. i \<noteq> 0"
  shows "run_packets (handle_packet srv io base) (ps @ qs) st =
    run_packets (handle_packet srv io base) qs (skipped (length ps) st)"
  using assms
proof (induction ps arbitrary: st)
  case Nil
  then show ?case by (simp add: skipped_def)
next
  case (Cons ip ps)
  obtain i p where ip: "ip = (i, p)" by (cases ip)
  with Cons.prems have "sint i \<noteq> 0" by (simp add: signed_eq_0_iff)
  then have "handle_packet srv io base (sint i) p st = Some (False, skipped 1 st)"
    by (simp add: handle_packet_def count_packet_def skipped_def)
  with Cons ip show ?case by (simp add: skipped_def)
qed

definition connect_stream :: "(u32 \<times> bytes) list \<Rightarrow> bytes \<Rightarrow> bytes" where
  "connect_stream others payload = frames others @ frame 0 payload"

definition well_framed :: "(u32 \<times> bytes) list \<Rightarrow> bytes \<Rightarrow> bool" where
  "well_framed others payload \<longleftrightarrow> (\<forall>(i, p) \<in> set others. i \<noteq> 0 \<and> payload_ok p) \<and> payload_ok payload"

lemma connect_stream_outcome:
  assumes "well_framed others payload" "concat cs = connect_stream others payload"
  shows "outcome_of (dump_frames srv io base d err e w (map (\<lambda>c. (c, False)) cs)) =
    handle_packet srv io base 0 payload (skipped (length others) (open_stream d err e w))"
proof -
  have fr: "connect_stream others payload = frames (others @ [(0, payload)]) @ []"
    by (simp add: connect_stream_def frames_def)
  have nil: "cut_frame [] = NeedMore" by (simp add: cut_frame_def)
  have "outcome_of (dump_frames srv io base d err e w (map (\<lambda>c. (c, False)) cs)) =
      outcome_of (drain (handle_packet srv io base) (frames (others @ [(0, payload)]) @ []) (open_stream d err e w))"
    using read_loop_drain [OF nil, of "handle_packet srv io base" cs] assms(2) by (simp add: dump_frames_def fr)
  also have "\<dots> = (case run_packets (handle_packet srv io base) (others @ [(0, payload)]) (open_stream d err e w) of
      None \<Rightarrow> None | Some (stop, s') \<Rightarrow> if stop then Some (True, s') else Some (False, s'))"
    using assms(1) by (subst drain_frames) (auto simp: well_framed_def drain_eqs(1) [OF nil] outcome_of_def
      intro!: option.case_cong)
  also have "\<dots> = handle_packet srv io base 0 payload (skipped (length others) (open_stream d err e w))"
    using assms(1) by (subst run_others) (auto simp: well_framed_def split: option.split if_split)
  finally show ?thesis .
qed

lemma first_packet:
  assumes "handle_packet srv io base 0 payload (skipped (length others) (open_stream d err e w)) = Some (stop, st)"
    and "\<forall>(i, p) \<in> set others. i \<noteq> 0 \<and> int (length p) \<le> 16777216" "int (length payload) \<le> 16777216"
    and "concat cs = concat (map (\<lambda>(i, p). frame i p) others) @ frame 0 payload"
  shows "\<exists>rest. dump_frames srv io base d err e w (map (\<lambda>c. (c, False)) cs) = Some (stop, rest, st)"
proof -
  have "outcome_of (dump_frames srv io base d err e w (map (\<lambda>c. (c, False)) cs)) = Some (stop, st)"
    using connect_stream_outcome [of others payload cs srv io base d err e w] assms
    by (simp add: well_framed_def payload_ok_def max_debug_buffered_payload_def connect_stream_def frames_def)
  then show ?thesis by (auto simp: outcome_of_def)
qed

text \<open>The stream after the routing of its first Connect packet.\<close>

definition routed_stream :: "nat \<Rightarrow> engine \<Rightarrow> 'w \<Rightarrow> routing_error + decision \<Rightarrow> 'w stream" where
  "routed_stream n e w r =
     (let st = (open_stream no_decision None e w)\<lparr>st_count := n\<rparr> in
      case r of Inr d \<Rightarrow> st\<lparr>st_decision := d, st_backend := d_backend d\<rparr>
      | Inl err \<Rightarrow> st\<lparr>st_route_err := Some err\<rparr>)"

lemma routed_stream_simps [simp]:
  "st_out (routed_stream n e w r) = w" "\<not> st_sent (routed_stream n e w r)" "st_content (routed_stream n e w r) = None"
  "st_engine (routed_stream n e w r) = e" "st_count (routed_stream n e w r) = n"
  "st_decision (routed_stream n e w r) = (case r of Inr d \<Rightarrow> d | Inl _ \<Rightarrow> no_decision)"
  "st_backend (routed_stream n e w r) = (case r of Inr d \<Rightarrow> d_backend d | Inl _ \<Rightarrow> empty_backend)"
  "st_route_err (routed_stream n e w r) = (case r of Inr _ \<Rightarrow> None | Inl err \<Rightarrow> Some err)"
  by (simp_all add: routed_stream_def open_stream_def no_decision_def Let_def split: sum.split)

lemma first_route_connect:
  "srv_router srv \<Longrightarrow> decide (srv_discovery srv n) (srv_now srv n) rq e = Some (r, e') \<Longrightarrow>
   route_connect srv rq (skipped n (open_stream no_decision None e w)) = Some (routed_stream n e' w r)"
  by (simp add: route_connect_def skipped_def open_stream_def routed_stream_def no_decision_def Let_def split: sum.split)

section \<open>The three kinds of answers\<close>

context reliable_stream
begin

lemma answer_refers:
  assumes "refers srv io st"
  shows "\<exists>w'. answer_connect srv io sni lang decoded st = Some (False, st\<lparr>st_sent := True, st_out := w'\<rparr>) \<and>
    written w' = written (st_out st) @ answer_bytes [referral_of srv st]"
  using send_referral_out [of srv st] assms by (auto simp: answer_connect_def refuse_def)

lemma answer_refuses:
  assumes "\<not> st_sent st" "b_host (st_backend st) = []" "io_writer io \<noteq> None"
    and "reason = disconnect_reason (srv_quote srv) (srv_messages srv) sni lang (st_route_err st)"
    and "reason \<noteq> [] \<or> \<not> decoded" "sendable (Refusal reason)"
  shows "\<exists>w'. answer_connect srv io sni lang decoded st = Some (True, st\<lparr>st_out := w'\<rparr>) \<and>
    written w' = written (st_out st) @ answer_bytes [Refusal reason]"
proof -
  have "\<not> refers srv io st" using assms(2) by (simp add: refers_def)
  with send_referral_out [of srv st] have "send_referral srv io st = Some st" by auto
  with send_disconnect_out [of reason st] assms show ?thesis
    by (auto simp: answer_connect_def refuse_def Let_def)
qed

lemma answer_denies:
  assumes "io_writer io \<noteq> None" "sendable (Refusal reason)"
  shows "\<exists>w'. send_disconnect io reason st = Some (st\<lparr>st_out := w'\<rparr>) \<and>
    written w' = written (st_out st) @ answer_bytes [Refusal reason]"
  using send_disconnect_out [of reason st] assms by auto

end

section \<open>Referrals of a static configuration\<close>

definition config_pools :: "routing_config \<Rightarrow> pool list" where
  "config_pools cfg = (case rc_default cfg of None \<Rightarrow> [] | Some p \<Rightarrow> [p]) @ map r_pool (rc_routes cfg)"

lemma routed_config_pool: "routed cfg rq = Some (c, p) \<Longrightarrow> p \<in> set (config_pools cfg)"
  by (erule routed_pool) (auto simp: config_pools_def)

text \<open>A referral to a backend of the configuration, with the envelope of no content.\<close>

definition names_backend :: "routing_config \<Rightarrow> server \<Rightarrow> answer \<Rightarrow> bool" where
  "names_backend cfg srv a \<longleftrightarrow>
     (\<forall>h p c. a = Referral h p c \<longrightarrow> h \<noteq> [] \<longrightarrow>
       (\<exists>q \<in> set (config_pools cfg). \<exists>b \<in> set (p_backends q). h = b_host b \<and> uint p = b_port b) \<and>
       (\<exists>d. c = Some d \<and> encode_v1 [] (case srv_secret srv of None \<Rightarrow> 0 | Some _ \<Rightarrow> srv_key_id srv)
          (case srv_secret srv of None \<Rightarrow> [] | Some s \<Rightarrow> s) = Inr d))"

lemma port_exact: "0 < n \<Longrightarrow> n \<le> 65535 \<Longrightarrow> uint (of_int n :: u16) = n"
  by (simp add: unsigned_of_int take_bit_int_eq_self)

lemma route_names_backend:
  assumes "route_connect srv rq st = Some st'" "srv_router srv" "validate_routing (e_cfg (st_engine st)) = None"
    and "\<forall>p \<in> set (config_pools (e_cfg (st_engine st))). p_discovery p = None" "st_content st = None"
  shows "names_backend (e_cfg (st_engine st)) srv (referral_of srv st')"
proof (cases "b_host (st_backend st') = []")
  case True
  then show ?thesis by (simp add: names_backend_def referral_of_def)
next
  case False
  let ?cfg = "e_cfg (st_engine st)"
  from assms(1,2) False obtain d e' where d: "decide (srv_discovery srv (st_count st)) (srv_now srv (st_count st)) rq (st_engine st) = Some (Inr d, e')"
    and b: "st_backend st' = d_backend d"
    by (auto simp: route_connect_def empty_backend_def split: bind_splits sum.splits)
  obtain c p where cp: "routed ?cfg rq = Some (c, p)"
    using d b False by (cases "routed ?cfg rq") (auto simp: decide_routed no_decision_def empty_backend_def)
  note p = routed_config_pool [OF cp]
  have v: "d_backend d \<in> set (p_backends p)" "0 < b_port (d_backend d)" "b_port (d_backend d) \<le> 65535"
    using decide_valid_backend [OF assms(3) cp _ d] assms(4) p by auto
  have c: "st_content st' = None" using route_connect_frame(4) [OF assms(1)] assms(5) by simp
  show ?thesis using p v referral_data_none [of srv] b c
    by (auto simp: names_backend_def referral_of_def port_exact intro!: bexI [of _ p] bexI [of _ "d_backend d"])
qed

text \<open>Without plugins the referral content stays nil.\<close>

lemma answers_content:
  "send_disconnect io reason st = Some st' \<Longrightarrow> st_content st' = st_content st"
  "send_referral srv io st = Some st' \<Longrightarrow> st_content st' = st_content st"
  by (auto simp: send_disconnect_def send_referral_def split: option.splits sum.splits if_splits bind_splits)

lemma answer_connect_content:
  "answer_connect srv io sni lang decoded st = Some (stop, st') \<Longrightarrow> st_content st' = st_content st"
  by (auto simp: answer_connect_def refuse_def Let_def answers_content split: if_splits bind_splits)

lemma handle_packet_content:
  assumes "handle_packet srv io base i p st = Some (stop, st')" "srv_plugins srv = None"
  shows "st_content st' = st_content st"
  using assms
  by (auto simp: handle_packet_def count_packet_def handle_connect_eq handle_unreadable_def plugin_result_def
      planned_def route_connect_frame(4) split: if_splits bind_splits dest!: answer_connect_content)

lemma static_relation:
  assumes "reliable_stream io written" "srv_router srv" "srv_plugins srv = None" "validate_routing cfg = None"
    and "\<forall>p \<in> set (config_pools cfg). p_discovery p = None"
  shows "frame_relation (handle_packet srv io base) (\<lambda>st stop st'.
    e_cfg (st_engine st) = cfg \<and> st_content st = None \<longrightarrow>
    e_cfg (st_engine st') = cfg \<and> st_content st' = None \<and> advances written (names_backend cfg srv) st stop st')"
proof unfold_locales
  fix i p st stop st'
  assume h: "handle_packet srv io base i p st = Some (stop, st')"
  show "e_cfg (st_engine st) = cfg \<and> st_content st = None \<longrightarrow>
    e_cfg (st_engine st') = cfg \<and> st_content st' = None \<and> advances written (names_backend cfg srv) st stop st'"
  proof (intro impI conjI; elim conjE)
    assume s: "e_cfg (st_engine st) = cfg" "st_content st = None"
    show "e_cfg (st_engine st') = cfg" using handle_packet_engine [OF h] s by (simp add: same_engine_def)
    show "st_content st' = None" using handle_packet_content [OF h assms(3)] s by simp
    show "advances written (names_backend cfg srv) st stop st'"
      using h
    proof (rule reliable_stream.handle_packet_advances [OF assms(1)])
      show "names_backend cfg srv (Refusal r)" for r by (simp add: names_backend_def)
    next
      fix rq st1 r
      assume "route_connect srv rq st = Some st1" "r = None \<or> (\<exists>ev. r = plugin_result srv ev st1)"
      with assms(2-5) s show "names_backend cfg srv (referral_of srv (planned r st1))"
        using route_names_backend [of srv rq st st1] by (auto simp: plugin_result_def planned_def)
    qed
  qed
qed (auto intro: advances_refl advances_stop advances_trans)

end
