(* ===== verification/StreamProperties.thy ===== *)
theory StreamProperties
  imports StreamAnswers RoutingProperties CodecProperties
begin

text \<open>
  The properties of the stream handler (\<^verbatim>\<open>internal/server/streams.go\<close>). Streams are opened as
  \<open>handleConn\<close> of \<^verbatim>\<open>internal/server/server.go\<close> opens them: with no decision and no error.
\<close>

section \<open>A small session\<close>

definition ex_server :: server where
  "ex_server = \<lparr>srv_router = True, srv_now = (\<lambda>_. 0), srv_discovery = (\<lambda>_. None), srv_plugins = None,
     srv_messages = None, srv_key_id = 0, srv_secret = None, srv_quote = id\<rparr>"

definition ex_event :: "string \<Rightarrow> connect_event" where
  "ex_event h = \<lparr>ev_sni = h, ev_fingerprint = [], ev_hash = [], ev_client_type = 0, ev_uuid = [], ev_username = [],
     ev_language = [], ev_identity = False\<rparr>"

lemma ex_server_simps [simp]:
  "srv_router ex_server" "srv_now ex_server n = 0" "srv_discovery ex_server n = None" "srv_plugins ex_server = None"
  "srv_messages ex_server = None" "srv_quote ex_server = id" "srv_secret ex_server = None" "ev_sni (ex_event h) = h"
  by (simp_all add: ex_server_def ex_event_def)

text \<open>The packet of a client, in two pieces, after a Ping.\<close>

definition ex_others :: "(u32 \<times> bytes) list" where
  "ex_others = [(2, [1, 2])]"

definition ex_reads :: "bytes list" where
  "ex_reads = [take 13 (connect_stream ex_others ex_connect), drop 13 (connect_stream ex_others ex_connect)]"

lemma ex_connect_length: "length ex_connect < 102"
proof -
  have "length (write_var_int_loop 3) \<le> Suc 0" "length (write_var_int_loop 2) \<le> Suc 0"
    using write_loop_length [of 3 0] write_loop_length [of 2 0] by simp_all
  then show ?thesis by (simp add: ex_connect_def connect_v2_layout_def numeral_3_eq_3 numeral_2_eq_2)
qed

lemma ex_well_framed: "well_framed ex_others ex_connect"
  using ex_connect_length
  by (simp add: well_framed_def ex_others_def payload_ok_def max_debug_buffered_payload_def)

lemma ex_concat: "concat ex_reads = connect_stream ex_others ex_connect"
  by (simp add: ex_reads_def)

lemma ex_sizes: "\<forall>(i, p) \<in> set ex_others. i \<noteq> 0 \<and> int (length p) \<le> 16777216" "int (length ex_connect) \<le> 16777216"
  using ex_connect_length by (simp_all add: ex_others_def)

lemma ex_stream: "concat ex_reads = concat (map (\<lambda>(i, p). frame i p) ex_others) @ frame 0 ex_connect"
  by (simp add: ex_concat connect_stream_def frames_def)

lemma ex_decode: "\<exists>info. decode_connect ex_connect = Some (info, True) \<and> ci_language info = ''en''"
  using ex_connect_length unfolding ex_connect_def
  by (simp add: decode_connect_def decode_connect_v2_layout)

lemma ex_decide_any:
  "\<exists>d e'. decide None 0 \<lparr>req_sni = ''play.example.com'', req_uuid = u, req_username = n, req_language = l\<rparr> ex_engine =
     Some (Inr d, e') \<and> d_backend d = ex_backend ''a'' 5520 3"
  by (simp add: decide_def ex_first_route decide_pool_def resolve_candidates_def
      ex_route_def select_candidates_def ex_configs select_with_config_def selection_config_from_pool_def
      Let_def apply_filters_eq apply_sort_def limit_candidates_def select_index_def select_round_robin_def
      backend_at_def)

lemma ex_no_route: "decide None 0 rq (new_static_engine \<lparr>rc_default = None, rc_routes = []\<rparr> rng) =
    Some (Inr no_decision, new_static_engine \<lparr>rc_default = None, rc_routes = []\<rparr> rng)"
  by (simp add: decide_def new_static_engine_def)

section \<open>Framing\<close>

text \<open>C7: How the transport cuts the bytes of a client into reads does not matter: two ways of delivering
  the same bytes end in the same state with the same output.\<close>

theorem stream_chunking:
  assumes "concat cs = concat ds"
  shows "map_option (\<lambda>(stop, rest, st). (stop, st)) (dump_frames srv io base d err e w (map (\<lambda>c. (c, False)) cs)) =
    map_option (\<lambda>(stop, rest, st). (stop, st)) (dump_frames srv io base d err e w (map (\<lambda>c. (c, False)) ds))"
proof -
  have "cut_frame [] = NeedMore" by (simp add: cut_frame_def)
  from read_loop_drain [OF this, of "handle_packet srv io base" _ "open_stream d err e w"] assms
  show ?thesis unfolding dump_frames_def outcome_of_def by (metis append_Nil)
qed

theorem stream_chunking_witness:
  "map_option (\<lambda>(stop, rest, st). (stop, st)) (dump_frames ex_server buffer_io (ex_event []) no_decision None ex_engine []
      (map (\<lambda>c. (c, False)) ex_reads)) =
   map_option (\<lambda>(stop, rest, st). (stop, st)) (dump_frames ex_server buffer_io (ex_event []) no_decision None ex_engine []
      (map (\<lambda>c. (c, False)) [connect_stream ex_others ex_connect]))"
  by (rule stream_chunking) (simp add: ex_concat)

section \<open>Sessions\<close>

text \<open>C3: The stream handler refines the abstract session: on a transport that takes what it is given, the
  bytes written are the packets of answers that the session machine allows, from waiting to the phase
  the handler is in.\<close>

theorem stream_refines_session:
  assumes "dump_frames srv (bidi_io wr close) base d err e w reads = Some (stop, rest, st)"
    and "\<And>w buf. \<exists>w'. wr w buf = (length buf, False, w') \<and> written w' = written w @ buf"
    and "\<And>w. written (close w) = written w"
  shows "\<exists>as. written (st_out st) = written w @ answer_bytes as \<and> (\<forall>a \<in> set as. sendable a) \<and>
    session Waiting as (phase_of stop st)"
proof -
  have "advances written (\<lambda>_. True) (open_stream d err e w) stop st"
    using frame_relation.read_loop_rel [OF handler_advances [OF bidi_reliable [OF assms(2,3)]]] assms(1)
    unfolding dump_frames_def by blast
  then show ?thesis by (auto simp: advances_def open_stream_def phase_of_def)
qed

lemma ex_run_ends:
  "\<exists>stop rest st. dump_frames srv (bidi_io buffer_write id) base d err ex_engine w reads = Some (stop, rest, st)"
proof -
  have "fair (st_engine (open_stream d err ex_engine w))" by (simp add: open_stream_def)
  from buffered_loop.read_loop_ends [OF this, of srv base reads "[]"] show ?thesis
    unfolding dump_frames_def buffer_io_def [symmetric] by blast
qed

lemma buffer_writes: "\<exists>w'. buffer_write w buf = (length buf, False, w') \<and> id w' = id w @ buf"
  by (simp add: buffer_write_def)

lemma id_id: "id (id w) = id w"
  by simp

theorem stream_refines_session_witness:
  "\<exists>stop rest st as. dump_frames ex_server (bidi_io buffer_write id) (ex_event []) no_decision None ex_engine []
      (map (\<lambda>c. (c, False)) ex_reads) = Some (stop, rest, st) \<and>
     st_out st = answer_bytes as \<and> session Waiting as (phase_of stop st)"
proof -
  obtain stop rest st where r: "dump_frames ex_server (bidi_io buffer_write id) (ex_event []) no_decision None ex_engine []
      (map (\<lambda>c. (c, False)) ex_reads) = Some (stop, rest, st)" using ex_run_ends by blast
  obtain as where "st_out st = answer_bytes as" "session Waiting as (phase_of stop st)"
    using stream_refines_session [OF r buffer_writes id_id] by auto
  with r show ?thesis by blast
qed

text \<open>A client is referred at most once and refused at most once; a refusal is the last thing it
  receives, and then the handler has returned.\<close>

theorem referral_at_most_once:
  assumes "dump_frames srv (bidi_io wr close) base d err e w reads = Some (stop, rest, st)"
    and "\<And>w buf. \<exists>w'. wr w buf = (length buf, False, w') \<and> written w' = written w @ buf"
    and "\<And>w. written (close w) = written w"
  shows "\<exists>as. written (st_out st) = written w @ answer_bytes as \<and>
    (as = [] \<or> (\<exists>h p c. as = [Referral h p c]) \<or> (\<exists>r. as = [Refusal r] \<and> stop) \<or>
     (\<exists>h p c r. as = [Referral h p c, Refusal r] \<and> stop))"
proof -
  have "advances written (\<lambda>_. True) (open_stream d err e w) stop st"
    using frame_relation.read_loop_rel [OF handler_advances [OF bidi_reliable [OF assms(2,3)]]] assms(1)
    unfolding dump_frames_def by blast
  then obtain as where as: "written (st_out st) = written w @ answer_bytes as" "session Waiting as (phase_of stop st)"
    by (auto simp: advances_def open_stream_def phase_of_def)
  from session_from_waiting [OF as(2)] have "as = [] \<or> (\<exists>h p c. as = [Referral h p c]) \<or> (\<exists>r. as = [Refusal r] \<and> stop) \<or>
     (\<exists>h p c r. as = [Referral h p c, Refusal r] \<and> stop)"
    by (auto simp: phase_of_def split: if_splits)
  with as(1) show ?thesis by blast
qed

theorem referral_at_most_once_witness:
  "\<exists>stop rest st as. dump_frames ex_server (bidi_io buffer_write id) (ex_event []) no_decision None ex_engine []
      (map (\<lambda>c. (c, False)) (ex_reads @ ex_reads)) = Some (stop, rest, st) \<and>
     st_out st = answer_bytes as \<and> length as \<le> 2"
proof -
  obtain stop rest st where r: "dump_frames ex_server (bidi_io buffer_write id) (ex_event []) no_decision None ex_engine []
      (map (\<lambda>c. (c, False)) (ex_reads @ ex_reads)) = Some (stop, rest, st)" using ex_run_ends by blast
  from referral_at_most_once [OF r buffer_writes id_id] show ?thesis
  proof (elim exE conjE)
    fix as
    assume out: "id (st_out st) = id [] @ answer_bytes as"
    assume "as = [] \<or> (\<exists>h p c. as = [Referral h p c]) \<or> (\<exists>r. as = [Refusal r] \<and> stop) \<or>
      (\<exists>h p c r. as = [Referral h p c, Refusal r] \<and> stop)"
    then have "length as \<le> 2" by auto
    with r out show ?thesis by auto
  qed
qed

text \<open>C13: Every stream is served to its end: with a writer that keeps the contract of \<open>io.Writer\<close> and a
  random source in which every residue recurs, the handler never gets stuck or panics, whatever the
  client sends, and once the transport reports the end of the stream or an error, it has returned.\<close>

theorem stream_served:
  assumes "\<And>w buf n failed w'. wr w buf = (n, failed, w') \<Longrightarrow>
      n \<le> length buf \<and> (n < length buf \<longrightarrow> failed) \<and> written w' = written w @ take n buf"
    and "\<forall>n. \<forall>i < n. \<forall>p. \<exists>q \<ge> p. e_rng e q mod n = i"
  shows "\<exists>stop rest st. dump_frames srv (bidi_io wr close) base d err e w reads = Some (stop, rest, st) \<and>
    ((\<exists>chunk. (chunk, True) \<in> set reads) \<longrightarrow> stop)"
proof -
  have "contract_stream (bidi_io wr close) written"
    unfolding contract_stream_def writer_contract_def bidi_io_def stream_io.select_convs option.inject
    using assms(1) by blast
  moreover have "fair (st_engine (open_stream d err e w))"
    using assms(2) by (simp add: open_stream_def fair_def fair_draws_def)
  ultimately obtain stop rest st where "dump_frames srv (bidi_io wr close) base d err e w reads = Some (stop, rest, st)"
    unfolding dump_frames_def using frame_handler.read_loop_ends [OF handler_ends] by blast
  then show ?thesis
    by (intro exI [of _ stop] exI [of _ rest] exI [of _ st]) (auto simp: dump_frames_def dest: read_loop_failed)
qed

theorem stream_served_witness:
  "\<exists>rest st. dump_frames ex_server (bidi_io buffer_write id) (ex_event []) no_decision None ex_engine []
     [(connect_stream ex_others ex_connect, True)] = Some (True, rest, st)"
  using stream_served [of buffer_write id ex_engine ex_server id "ex_event []" no_decision None "[]"
    "[(connect_stream ex_others ex_connect, True)]"] ex_engine_simps(2)
  by (auto simp: buffer_write_def fair_def fair_draws_def)

text \<open>A validated configuration without discovery and plugins refers clients only to its own backends:
  whatever the client sends, a referral names host and port of a backend of some pool, the port not
  truncated, and carries the envelope of no content under the secret of the server.\<close>

theorem referral_names_backend:
  assumes "dump_frames srv (bidi_io wr close) base no_decision None e w reads = Some (stop, rest, st)"
    and "\<And>w buf. \<exists>w'. wr w buf = (length buf, False, w') \<and> written w' = written w @ buf"
    and "\<And>w. written (close w) = written w"
    and "srv_router srv" "srv_plugins srv = None" "validate_routing (e_cfg e) = None"
    and "\<forall>p \<in> set (config_pools (e_cfg e)). p_discovery p = None"
  shows "\<exists>as. written (st_out st) = written w @ answer_bytes as \<and>
    (\<forall>h p c. Referral h p c \<in> set as \<longrightarrow>
      (\<exists>q \<in> set (config_pools (e_cfg e)). \<exists>b \<in> set (p_backends q). h = b_host b \<and> uint p = b_port b) \<and>
      (\<exists>d. c = Some d \<and> encode_v1 [] (case srv_secret srv of None \<Rightarrow> 0 | Some _ \<Rightarrow> srv_key_id srv)
         (case srv_secret srv of None \<Rightarrow> [] | Some s \<Rightarrow> s) = Inr d))"
proof -
  note rel = static_relation [OF bidi_reliable [OF assms(2,3)] assms(4-7), of base]
  have "advances written (names_backend (e_cfg e) srv) (open_stream no_decision None e w) stop st"
    using frame_relation.read_loop_rel [OF rel assms(1) [unfolded dump_frames_def]] by (simp add: open_stream_def)
  then obtain as where as: "written (st_out st) = written w @ answer_bytes as"
    "\<forall>a \<in> set as. sendable a \<and> names_backend (e_cfg e) srv a"
    by (auto simp: advances_def open_stream_def)
  have "h \<noteq> []" if "Referral h p c \<in> set as" for h p c
    using as(2) that by (auto simp: sendable_def answer_frame_def encode_client_referral_payload_def)
  with as show ?thesis by (intro exI [of _ as]) (fastforce simp: names_backend_def)
qed

theorem referral_names_backend_witness:
  "\<exists>stop rest st as. dump_frames ex_server (bidi_io buffer_write id) (ex_event ''play.example.com'') no_decision None
      ex_engine [] (map (\<lambda>c. (c, False)) ex_reads) = Some (stop, rest, st) \<and> st_out st = answer_bytes as \<and>
     (\<forall>h p c. Referral h p c \<in> set as \<longrightarrow> h \<in> {''a'', ''b''})"
proof -
  obtain stop rest st where r: "dump_frames ex_server (bidi_io buffer_write id) (ex_event ''play.example.com'')
      no_decision None ex_engine [] (map (\<lambda>c. (c, False)) ex_reads) = Some (stop, rest, st)"
    using ex_run_ends by blast
  have pools: "\<forall>p \<in> set (config_pools ex_config). p_discovery p = None \<and> b_host ` set (p_backends p) = {''a'', ''b''}"
    by (simp add: config_pools_def ex_config_def ex_route_def ex_backend_def)
  have "\<exists>as. id (st_out st) = id [] @ answer_bytes as \<and> (\<forall>h p c. Referral h p c \<in> set as \<longrightarrow>
      (\<exists>q \<in> set (config_pools (e_cfg ex_engine)). \<exists>b \<in> set (p_backends q). h = b_host b \<and> uint p = b_port b) \<and>
      (\<exists>d. c = Some d \<and> encode_v1 [] (case srv_secret ex_server of None \<Rightarrow> 0 | Some _ \<Rightarrow> srv_key_id ex_server)
         (case srv_secret ex_server of None \<Rightarrow> [] | Some s \<Rightarrow> s) = Inr d))"
    by (rule referral_names_backend [OF r buffer_writes id_id]) (use ex_valid pools in simp_all)
  then obtain as where as: "id (st_out st) = id [] @ answer_bytes as"
    "\<forall>h p c. Referral h p c \<in> set as \<longrightarrow> (\<exists>q \<in> set (config_pools ex_config). \<exists>b \<in> set (p_backends q). h = b_host b)"
    unfolding ex_engine_simps(1) by meson
  have "h \<in> {''a'', ''b''}" if "Referral h p c \<in> set as" for h p c
    using as(2) that pools by blast
  with r as(1) show ?thesis by auto
qed

section \<open>Answers\<close>

text \<open>C15: The first Connect packet of a client, after any other packets and cut in any way, is answered
  with exactly one ClientReferral packet when routing finds a backend with a host of at most 256 bytes
  and no plugin is loaded; the stream stays open.\<close>

theorem connect_referred:
  assumes "\<forall>(i, p) \<in> set others. i \<noteq> 0 \<and> int (length p) \<le> 16777216" "int (length payload) \<le> 16777216"
    and "concat cs = concat (map (\<lambda>(i, p). frame i p) others) @ frame 0 payload"
    and "decode_connect payload = Some (info, True)" "srv_router srv" "srv_plugins srv = None"
    and "decide (srv_discovery srv (length others)) (srv_now srv (length others))
      \<lparr>req_sni = ev_sni base, req_uuid = ci_uuid info, req_username = ci_username info, req_language = ci_language info\<rparr> e =
      Some (Inr d, e')"
    and "b_host (d_backend d) \<noteq> []" "length (b_host (d_backend d)) \<le> 256"
    and "\<And>w buf. \<exists>w'. wr w buf = (length buf, False, w') \<and> written w' = written w @ buf"
    and "\<And>w. written (close w) = written w"
  shows "\<exists>rest st p. dump_frames srv (bidi_io wr close) base no_decision None e w (map (\<lambda>c. (c, False)) cs) =
      Some (False, rest, st) \<and> st_sent st \<and> st_engine st = e' \<and>
    encode_client_referral_payload (b_host (d_backend d)) (of_int (b_port (d_backend d))) (referral_data srv None) = Inr p \<and>
    written (st_out st) = written w @ frame 18 p"
proof -
  let ?io = "bidi_io wr close" and ?s1 = "routed_stream (length others) e' w (Inr d)"
  note route = first_route_connect [OF assms(5), of "length others" "connect_request_of base info" e "Inr d" e' w]
  have refers: "refers srv ?io ?s1"
    using assms(8,9) referral_of_sendable [of ?s1 srv] by (simp add: refers_def bidi_io_def)
  from reliable_stream.answer_refers [OF bidi_reliable [OF assms(10,11)] this, of "ev_sni base" "ci_language info" True]
  obtain w' where w': "answer_connect srv ?io (ev_sni base) (ci_language info) True ?s1 =
      Some (False, ?s1\<lparr>st_sent := True, st_out := w'\<rparr>)" "written w' = written w @ answer_bytes [referral_of srv ?s1]"
    by auto
  have "handle_packet srv ?io base 0 payload (skipped (length others) (open_stream no_decision None e w)) =
      Some (False, count_packet (?s1\<lparr>st_sent := True, st_out := w'\<rparr>))"
    using w'(1) assms(4,6,7) route
    by (simp add: handle_packet_def handle_connect_eq plugin_result_def planned_def connect_request_of_def)
  from first_packet [OF this assms(1-3)] w'(2) refers show ?thesis
    by (auto simp: count_packet_def refers_def sendable_def answer_bytes_def answer_frame_def referral_of_def
        split: sum.splits)
qed

theorem connect_referred_witness:
  "\<exists>rest st p. dump_frames ex_server (bidi_io buffer_write id) (ex_event ''play.example.com'') no_decision None
      ex_engine [] (map (\<lambda>c. (c, False)) ex_reads) = Some (False, rest, st) \<and>
    encode_client_referral_payload ''a'' 5520 (referral_data ex_server None) = Inr p \<and> st_out st = frame 18 p"
proof -
  obtain info where info: "decode_connect ex_connect = Some (info, True)" using ex_decode by blast
  obtain d e' where d: "decide None 0 \<lparr>req_sni = ''play.example.com'', req_uuid = ci_uuid info,
      req_username = ci_username info, req_language = ci_language info\<rparr> ex_engine = Some (Inr d, e')"
    "d_backend d = ex_backend ''a'' 5520 3"
    using ex_decide_any by blast
  show ?thesis
    using connect_referred [where others = ex_others and payload = ex_connect and cs = ex_reads and srv = ex_server
      and base = "ex_event ''play.example.com''" and e = ex_engine and wr = buffer_write and close = id and w = "[]",
      OF ex_sizes ex_stream info _ _ _ _ _ buffer_writes id_id, of d e'] d
    unfolding id_apply by (simp add: ex_backend_def) blast
qed

text \<open>C39: A client that cannot be routed (no route applies, or the decision fails) and has no plugin to help
  it is told why in exactly one Disconnect packet, in the language it asked for, and the stream is done.\<close>

theorem connect_refused:
  assumes "\<forall>(i, p) \<in> set others. i \<noteq> 0 \<and> int (length p) \<le> 16777216" "int (length payload) \<le> 16777216"
    and "concat cs = concat (map (\<lambda>(i, p). frame i p) others) @ frame 0 payload"
    and "decode_connect payload = Some (info, True)" "srv_router srv" "srv_plugins srv = None"
    and "decide (srv_discovery srv (length others)) (srv_now srv (length others))
      \<lparr>req_sni = ev_sni base, req_uuid = ci_uuid info, req_username = ci_username info, req_language = ci_language info\<rparr> e =
      Some (r, e')"
    and "case r of Inr d \<Rightarrow> b_host (d_backend d) = [] | Inl _ \<Rightarrow> True"
    and "reason = disconnect_reason (srv_quote srv) (srv_messages srv) (ev_sni base) (ci_language info)
      (case r of Inr _ \<Rightarrow> None | Inl err \<Rightarrow> Some err)"
    and "reason \<noteq> []" "length reason \<le> 4096000"
    and "\<And>w buf. \<exists>w'. wr w buf = (length buf, False, w') \<and> written w' = written w @ buf"
    and "\<And>w. written (close w) = written w"
  shows "\<exists>rest st p. dump_frames srv (bidi_io wr close) base no_decision None e w (map (\<lambda>c. (c, False)) cs) =
      Some (True, rest, st) \<and> encode_disconnect_payload reason = Inr p \<and> written (st_out st) = written w @ frame 1 p"
proof -
  let ?io = "bidi_io wr close" and ?s1 = "routed_stream (length others) e' w r"
  note route = first_route_connect [OF assms(5), of "length others" "connect_request_of base info" e r e' w]
  note sendable = refusal_sendable [OF assms(11)]
  have "b_host (st_backend ?s1) = []" using assms(8) by (simp add: empty_backend_def split: sum.splits)
  with reliable_stream.answer_refuses [OF bidi_reliable [OF assms(12,13)], of ?s1 reason srv "ev_sni base" "ci_language info" True]
    assms(9,10) sendable
  obtain w' where w': "answer_connect srv ?io (ev_sni base) (ci_language info) True ?s1 = Some (True, ?s1\<lparr>st_out := w'\<rparr>)"
    "written w' = written w @ answer_bytes [Refusal reason]" by (auto simp: bidi_io_def)
  have "handle_packet srv ?io base 0 payload (skipped (length others) (open_stream no_decision None e w)) =
      Some (True, count_packet (?s1\<lparr>st_out := w'\<rparr>))"
    using w'(1) assms(4,6,7) route
    by (simp add: handle_packet_def handle_connect_eq plugin_result_def planned_def connect_request_of_def)
  from first_packet [OF this assms(1-3)] w'(2) sendable show ?thesis
    by (auto simp: count_packet_def sendable_def answer_bytes_def answer_frame_def split: sum.splits)
qed

definition ex_empty_engine :: engine where
  "ex_empty_engine = new_static_engine \<lparr>rc_default = None, rc_routes = []\<rparr> (\<lambda>_. 0)"

lemma ex_reason: "disconnect_reason id None sni lang None = ''no route''"
  by (simp add: disconnect_reason_def template_no_route_def disconnect_messages_for_language_def empty_messages_def
      template_or_default_def string_eval format_template_plain)

theorem connect_refused_witness:
  "\<exists>rest st p. dump_frames ex_server (bidi_io buffer_write id) (ex_event ''x'') no_decision None ex_empty_engine []
      (map (\<lambda>c. (c, False)) ex_reads) = Some (True, rest, st) \<and>
    encode_disconnect_payload ''no route'' = Inr p \<and> st_out st = frame 1 p"
proof -
  obtain info where info: "decode_connect ex_connect = Some (info, True)" using ex_decode by blast
  have d: "decide None 0 rq ex_empty_engine = Some (Inr no_decision, ex_empty_engine)" for rq
    by (simp add: ex_empty_engine_def ex_no_route)
  show ?thesis
    using connect_refused [where others = ex_others and payload = ex_connect and cs = ex_reads and srv = ex_server
      and base = "ex_event ''x''" and e = ex_empty_engine and wr = buffer_write and close = id and w = "[]"
      and reason = "''no route''", OF ex_sizes ex_stream info _ _ _ _ _ _ _ buffer_writes id_id,
      of "Inr no_decision" ex_empty_engine] d
    unfolding id_apply by (simp add: ex_reason no_decision_def empty_backend_def)
qed

text \<open>A plugin's denial of the first Connect packet is final: whatever routing decided, the client gets one
  Disconnect packet with the reason of the plugin, no referral, and the stream is done.\<close>

theorem connect_denied:
  assumes "\<forall>(i, p) \<in> set others. i \<noteq> 0 \<and> int (length p) \<le> 16777216" "int (length payload) \<le> 16777216"
    and "concat cs = concat (map (\<lambda>(i, p). frame i p) others) @ frame 0 payload"
    and "decode_connect payload = Some (info, True)" "srv_router srv" "srv_plugins srv = Some ps"
    and "decide (srv_discovery srv (length others)) (srv_now srv (length others))
      \<lparr>req_sni = ev_sni base, req_uuid = ci_uuid info, req_username = ci_username info, req_language = ci_language info\<rparr> e =
      Some (r, e')"
    and "res = apply_on_connect (Some (ps (length others))) (fill_event base info)
      (case r of Inr d \<Rightarrow> d | Inl _ \<Rightarrow> no_decision) None"
    and "ar_denied res" "length (ar_reason res) \<le> 4096000"
    and "\<And>w buf. \<exists>w'. wr w buf = (length buf, False, w') \<and> written w' = written w @ buf"
    and "\<And>w. written (close w) = written w"
  shows "\<exists>rest st p. dump_frames srv (bidi_io wr close) base no_decision None e w (map (\<lambda>c. (c, False)) cs) =
      Some (True, rest, st) \<and> encode_disconnect_payload (ar_reason res) = Inr p \<and>
      written (st_out st) = written w @ frame 1 p \<and> \<not> st_sent st"
proof -
  let ?io = "bidi_io wr close" and ?s1 = "routed_stream (length others) e' w r"
  note route = first_route_connect [OF assms(5), of "length others" "connect_request_of base info" e r e' w]
  note sendable = refusal_sendable [OF assms(10)]
  from reliable_stream.answer_denies [OF bidi_reliable [OF assms(11,12)] _ sendable, of ?s1]
  obtain w' where w': "send_disconnect ?io (ar_reason res) ?s1 = Some (?s1\<lparr>st_out := w'\<rparr>)"
    "written w' = written w @ answer_bytes [Refusal (ar_reason res)]" by (auto simp: bidi_io_def)
  have "plugin_result srv (fill_event base info) ?s1 = Some res"
    using assms(6,8) by (simp add: plugin_result_def)
  with w'(1) assms(4,7,9) route
  have "handle_packet srv ?io base 0 payload (skipped (length others) (open_stream no_decision None e w)) =
      Some (True, count_packet (?s1\<lparr>st_out := w'\<rparr>))"
    by (simp add: handle_packet_def handle_connect_eq connect_request_of_def)
  from first_packet [OF this assms(1-3)] w'(2) sendable show ?thesis
    by (auto simp: count_packet_def sendable_def answer_bytes_def answer_frame_def split: sum.splits)
qed

definition ex_denier :: plugin where
  "ex_denier = \<lparr>pl_name = ''gate'', pl_on_connect = (\<lambda>_. Inr (empty_response\<lparr>rp_deny := True, rp_reason := ''full''\<rparr>))\<rparr>"

theorem connect_denied_witness:
  "\<exists>rest st p. dump_frames (ex_server\<lparr>srv_plugins := Some (\<lambda>_. [ex_denier])\<rparr>) (bidi_io buffer_write id) (ex_event ''x'')
      no_decision None ex_empty_engine [] (map (\<lambda>c. (c, False)) ex_reads) = Some (True, rest, st) \<and>
    encode_disconnect_payload ''full'' = Inr p \<and> st_out st = frame 1 p"
proof -
  obtain info where info: "decode_connect ex_connect = Some (info, True)" using ex_decode by blast
  have d: "decide None 0 rq ex_empty_engine = Some (Inr no_decision, ex_empty_engine)" for rq
    by (simp add: ex_empty_engine_def ex_no_route)
  let ?res = "apply_on_connect (Some [ex_denier]) (fill_event (ex_event ''x'') info) no_decision None"
  have res: "ar_denied ?res" "ar_reason ?res = ''full''"
    by (simp_all add: apply_on_connect_def ex_denier_def)
  show ?thesis
    using connect_denied [where others = ex_others and payload = ex_connect and cs = ex_reads
      and srv = "ex_server\<lparr>srv_plugins := Some (\<lambda>_. [ex_denier])\<rparr>" and ps = "\<lambda>_. [ex_denier]"
      and base = "ex_event ''x''" and e = ex_empty_engine and wr = buffer_write and close = id and w = "[]"
      and r = "Inr no_decision" and e' = ex_empty_engine, OF ex_sizes ex_stream info _ _ _ refl _ _ buffer_writes id_id] d res
    unfolding id_apply by simp blast
qed

text \<open>C16: The plugins have no say about a Connect packet that cannot be decoded: whatever they would answer (a
  denial included), the client is referred to the backend that the host name of its TLS handshake alone
  is routed to.\<close>

theorem unreadable_connect_referred:
  assumes "\<forall>(i, p) \<in> set others. i \<noteq> 0 \<and> int (length p) \<le> 16777216" "int (length payload) \<le> 16777216"
    and "concat cs = concat (map (\<lambda>(i, p). frame i p) others) @ frame 0 payload"
    and "decode_connect payload = Some (info, False)" "srv_router srv"
    and "decide (srv_discovery srv (length others)) (srv_now srv (length others))
      \<lparr>req_sni = ev_sni base, req_uuid = [], req_username = [], req_language = []\<rparr> e = Some (Inr d, e')"
    and "b_host (d_backend d) \<noteq> []" "length (b_host (d_backend d)) \<le> 256"
    and "\<And>w buf. \<exists>w'. wr w buf = (length buf, False, w') \<and> written w' = written w @ buf"
    and "\<And>w. written (close w) = written w"
  shows "\<exists>rest st p. dump_frames srv (bidi_io wr close) base no_decision None e w (map (\<lambda>c. (c, False)) cs) =
      Some (False, rest, st) \<and>
    encode_client_referral_payload (b_host (d_backend d)) (of_int (b_port (d_backend d))) (referral_data srv None) = Inr p \<and>
    written (st_out st) = written w @ frame 18 p"
proof -
  let ?io = "bidi_io wr close" and ?s1 = "routed_stream (length others) e' w (Inr d)"
  note route = first_route_connect [OF assms(5,6), of w]
  have refers: "refers srv ?io ?s1"
    using assms(7,8) referral_of_sendable [of ?s1 srv] by (simp add: refers_def bidi_io_def)
  from reliable_stream.answer_refers [OF bidi_reliable [OF assms(9,10)] this, of "ev_sni base" "[]" False]
  obtain w' where w': "answer_connect srv ?io (ev_sni base) [] False ?s1 =
      Some (False, ?s1\<lparr>st_sent := True, st_out := w'\<rparr>)" "written w' = written w @ answer_bytes [referral_of srv ?s1]"
    by auto
  have "handle_packet srv ?io base 0 payload (skipped (length others) (open_stream no_decision None e w)) =
      Some (False, count_packet (?s1\<lparr>st_sent := True, st_out := w'\<rparr>))"
    using w'(1) assms(4) route by (simp add: handle_packet_def handle_unreadable_def)
  from first_packet [OF this assms(1-3)] w'(2) refers show ?thesis
    by (auto simp: count_packet_def refers_def sendable_def answer_bytes_def answer_frame_def referral_of_def
        split: sum.splits)
qed

text \<open>A plugin that denies everybody, and an empty Connect packet.\<close>

theorem unreadable_connect_referred_witness:
  "\<exists>rest st p. dump_frames (ex_server\<lparr>srv_plugins := Some (\<lambda>_. [ex_denier])\<rparr>) (bidi_io buffer_write id)
      (ex_event ''play.example.com'') no_decision None ex_engine [] [(frame 0 [], False)] = Some (False, rest, st) \<and>
    encode_client_referral_payload ''a'' 5520 (referral_data (ex_server\<lparr>srv_plugins := Some (\<lambda>_. [ex_denier])\<rparr>) None) = Inr p \<and>
    st_out st = frame 18 p"
proof -
  let ?srv = "ex_server\<lparr>srv_plugins := Some (\<lambda>_. [ex_denier])\<rparr>"
  obtain info where info: "decode_connect [] = Some (info, False)"
    by (auto simp: decode_connect_def decode_connect_v2_def decode_connect_v1_def)
  obtain d e' where d: "decide None 0 \<lparr>req_sni = ''play.example.com'', req_uuid = [], req_username = [],
      req_language = []\<rparr> ex_engine = Some (Inr d, e')" "d_backend d = ex_backend ''a'' 5520 3"
    using ex_decide_any by blast
  show ?thesis
    using unreadable_connect_referred [where others = "[]" and payload = "[]" and cs = "[frame 0 []]" and srv = ?srv
      and base = "ex_event ''play.example.com''" and e = ex_engine and wr = buffer_write and close = id and w = "[]",
      OF _ _ _ info _ _ _ _ buffer_writes id_id, of d e'] d
    unfolding id_apply by (simp add: ex_backend_def)
qed

end
