(* ===== verification/GoDuration.thy ===== *)
theory GoDuration
  imports GoFloat "HOL-Library.Monad_Syntax"
begin

text \<open>
  Go's \<^verbatim>\<open>time.ParseDuration\<close>: a signed sequence of decimal numbers with units, in nanoseconds.
\<close>

definition digit_of :: "char \<Rightarrow> nat" where
  "digit_of c = code c - 48"

text \<open>Digits before the point; \<open>None\<close> on overflow of 63 bits.\<close>

fun leading_int :: "nat \<Rightarrow> string \<Rightarrow> (nat \<times> string) option" where
  "leading_int x [] = Some (x, [])"
| "leading_int x (c # s) =
     (if \<not> is_digit c then Some (x, c # s)
      else if 2 ^ 63 div 10 < x then None
      else let x' = x * 10 + digit_of c in if 2 ^ 63 < x' then None else leading_int x' s)"

text \<open>Digits after the point: the fraction, its scale, the rest. Digits too many are read and ignored.\<close>

fun leading_fraction :: "nat \<Rightarrow> nat \<Rightarrow> bool \<Rightarrow> string \<Rightarrow> nat \<times> nat \<times> string" where
  "leading_fraction x scale full [] = (x, scale, [])"
| "leading_fraction x scale full (c # s) =
     (if \<not> is_digit c then (x, scale, c # s)
      else if full then leading_fraction x scale True s
      else if (2 ^ 63 - 1) div 10 < x then leading_fraction x scale True s
      else let y = x * 10 + digit_of c in
        if 2 ^ 63 < y then leading_fraction x scale True s else leading_fraction y (scale * 10) False s)"

definition duration_unit :: "string \<Rightarrow> nat option" where
  "duration_unit u =
     (if u = ''ns'' then Some 1
      else if u = ''us'' \<or> u = [char_of (0xC2 :: nat), char_of (0xB5 :: nat), CHR ''s''] \<or>
              u = [char_of (0xCE :: nat), char_of (0xBC :: nat), CHR ''s''] then Some 1000
      else if u = ''ms'' then Some 1000000
      else if u = ''s'' then Some 1000000000
      else if u = ''m'' then Some 60000000000
      else if u = ''h'' then Some 3600000000000
      else None)"

text \<open>\<open>uint64(float64(f) * (float64(unit) / scale))\<close>; none of the values is out of range.\<close>

definition round_or_zero :: "rat \<Rightarrow> rat" where
  "round_or_zero x = (case round_f64 x of None \<Rightarrow> 0 | Some y \<Rightarrow> y)"

definition fraction_part :: "nat \<Rightarrow> nat \<Rightarrow> nat \<Rightarrow> nat" where
  "fraction_part f unit scale =
     nat \<lfloor>round_or_zero (round_or_zero (of_nat f) * round_or_zero (of_nat unit / of_nat scale))\<rfloor>"

text \<open>One number with its unit: the nanoseconds and the rest of the string.\<close>

definition duration_item :: "string \<Rightarrow> (nat \<times> string) option" where
  "duration_item s =
     (if s = [] \<or> \<not> (hd s = CHR ''.'' \<or> is_digit (hd s)) then None
      else do {
        (v, s1) \<leftarrow> leading_int 0 s;
        let pre = length s1 \<noteq> length s;
        let point = s1 \<noteq> [] \<and> hd s1 = CHR ''.'';
        let (f, scale, s2) = (if point then leading_fraction 0 1 False (tl s1) else (0, 1, s1));
        let post = (point \<and> length s2 \<noteq> length (tl s1));
        if \<not> pre \<and> \<not> post then None
        else do {
          let u = takeWhile (\<lambda>c. c \<noteq> CHR ''.'' \<and> \<not> is_digit c) s2;
          if u = [] then None
          else do {
            unit \<leftarrow> duration_unit u;
            if 2 ^ 63 div unit < v then None
            else do {
              let w = v * unit + (if 0 < f then fraction_part f unit scale else 0);
              if 2 ^ 63 < w then None else Some (w, drop (length u) s2)
            }
          }
        }
      })"

lemma leading_int_length: "leading_int x s = Some (v, t) \<Longrightarrow> length t \<le> length s"
  by (induction x s rule: leading_int.induct) (auto simp: Let_def split: if_splits)

lemma leading_fraction_length: "leading_fraction x sc f s = (y, sc', t) \<Longrightarrow> length t \<le> length s"
  by (induction x sc f s rule: leading_fraction.induct) (auto simp: Let_def split: if_splits)

lemma duration_item_shorter: "duration_item s = Some (w, t) \<Longrightarrow> length t < length s"
proof -
  assume a: "duration_item s = Some (w, t)"
  then obtain v s1 where 1: "leading_int 0 s = Some (v, s1)"
    by (auto simp: duration_item_def split: if_splits bind_splits)
  define r where "r = (if s1 \<noteq> [] \<and> hd s1 = CHR ''.'' then leading_fraction 0 1 False (tl s1) else (0, 1, s1))"
  have 2: "length (snd (snd r)) \<le> length s1"
    using leading_fraction_length [of 0 1 False "tl s1" "fst r" "fst (snd r)" "snd (snd r)"]
    by (auto simp: r_def split: if_splits)
  let ?u = "takeWhile (\<lambda>c. c \<noteq> CHR ''.'' \<and> \<not> is_digit c) (snd (snd r))"
  have "?u \<noteq> [] \<and> t = drop (length ?u) (snd (snd r))"
    using a 1 unfolding duration_item_def r_def
    by (auto simp: Let_def split: if_splits bind_splits prod.splits)
  then have "length t < length (snd (snd r))" by (cases "snd (snd r)") (auto split: if_splits)
  with 2 leading_int_length [OF 1] show ?thesis by simp
qed

function duration_items :: "nat \<Rightarrow> string \<Rightarrow> nat option" where
  "duration_items d s =
     (if s = [] then Some d
      else (case duration_item s of
          None \<Rightarrow> None
        | Some (w, t) \<Rightarrow> if 2 ^ 63 < d + w then None else duration_items (d + w) t))"
  by pat_completeness auto

termination duration_items
  by (relation "measure (\<lambda>(d, s). length s)") (auto simp: duration_item_shorter)

declare duration_items.simps [simp del]

definition parse_duration :: "string \<Rightarrow> int option" where
  "parse_duration s0 =
     (let (neg, s) = split_sign s0 in
      if s = ''0'' then Some 0
      else if s = [] then None
      else (case duration_items 0 s of
          None \<Rightarrow> None
        | Some d \<Rightarrow> if neg then Some (- int d) else if 2 ^ 63 - 1 < d then None else Some (int d)))"

end
