(* ===== verification/ConfigLoad.thy ===== *)
theory ConfigLoad
  imports ConfigTypes Messages RoutingValidate GoDuration
begin

text \<open>
  \<^verbatim>\<open>internal/config/config.go\<close>: the default configuration, loading a file over it, and the checks a
  configuration passes before the server starts. Decoding of YAML and JSON into the structs, and
  \<^verbatim>\<open>labels.Parse\<close> of Kubernetes, are arguments. An error is a constructor with the indices the code
  puts into its text.
\<close>

section \<open>Errors\<close>

datatype provider_error =
    ProviderNameEmpty nat | ProviderNameTaken nat | ProviderTypeBad nat
  | KubernetesMissing nat | ResourceLabels nat nat | ResourceAnnotations nat nat string
  | AgonesMissing nat | AgonesLabels nat | AgonesAnnotations nat string
  | AddressSourceBad nat | AllocateIntervalBad nat

datatype config_error =
    ReadFailed string | YamlFailed string | JsonFailed string | UnsupportedExtension string
  | ListenEmpty | CertWithoutKey | AlpnEmpty | IdleTimeoutBad
  | RoutingBad valid_error
  | PluginNameEmpty nat | PluginNameTaken nat | PluginStageBad nat
  | PluginAddressEmpty nat | PluginPathEmpty nat | PluginTypeBad nat
  | DiscoveryBad provider_error
  | DiscoveryMissing string nat | ProviderUnknown string nat string

section \<open>Defaults\<close>

definition default_messages :: disconnect_messages where
  "default_messages =
     \<lparr>dm_no_route = ''The server is currently unavailable.'',
      dm_no_backends = ''The server is full or restarting. Please try again in a moment.'',
      dm_routing_error = ''The server is currently unreachable. Please try again later.'',
      dm_discovery_error = ''The server is looking for an available instance. Please try again in a moment.''\<rparr>"

text \<open>The map literal, in the order of the source; \<open>default_locales_order\<close> shows that the order is immaterial.\<close>

definition default_locales :: "(string \<times> disconnect_messages) list" where
  "default_locales = [
     (''de'', \<lparr>dm_no_route = ''Der Server ist aktuell nicht verf'' @ encode_rune 0xFC @ ''gbar.'',
        dm_no_backends = ''Der Server ist gerade voll oder startet neu. Bitte versuche es gleich erneut.'',
        dm_routing_error = ''Der Server ist aktuell nicht erreichbar. Bitte versuche es sp'' @ encode_rune 0xE4 @ ''ter erneut.'',
        dm_discovery_error = ''Der Server sucht gerade eine freie Instanz. Bitte versuche es gleich erneut.''\<rparr>),
     (''fr'', \<lparr>dm_no_route = ''Le serveur est actuellement indisponible.'',
        dm_no_backends = ''Le serveur est plein ou red'' @ encode_rune 0xE9 @ ''marre. R'' @ encode_rune 0xE9 @ ''essaie dans un instant.'',
        dm_routing_error = ''Le serveur est actuellement inaccessible. R'' @ encode_rune 0xE9 @ ''essaie plus tard.'',
        dm_discovery_error = ''Le serveur cherche une instance disponible. R'' @ encode_rune 0xE9 @ ''essaie dans un instant.''\<rparr>),
     (''es'', \<lparr>dm_no_route = ''El servidor no est'' @ encode_rune 0xE1 @ '' disponible en este momento.'',
        dm_no_backends = ''El servidor est'' @ encode_rune 0xE1 @ '' lleno o reinici'' @ encode_rune 0xE1 @ ''ndose. Int'' @ encode_rune 0xE9 @ ''ntalo de nuevo en un momento.'',
        dm_routing_error = ''No se puede acceder al servidor en este momento. Int'' @ encode_rune 0xE9 @ ''ntalo m'' @ encode_rune 0xE1 @ ''s tarde.'',
        dm_discovery_error = ''El servidor est'' @ encode_rune 0xE1 @ '' buscando una instancia disponible. Int'' @ encode_rune 0xE9 @ ''ntalo de nuevo en un momento.''\<rparr>),
     (''pt'', \<lparr>dm_no_route = ''O servidor n'' @ encode_rune 0xE3 @ ''o est'' @ encode_rune 0xE1 @ '' dispon'' @ encode_rune 0xED @ ''vel no momento.'',
        dm_no_backends = ''O servidor est'' @ encode_rune 0xE1 @ '' cheio ou reiniciando. Tente novamente em instantes.'',
        dm_routing_error = ''N'' @ encode_rune 0xE3 @ ''o foi poss'' @ encode_rune 0xED @ ''vel acessar o servidor no momento. Tente novamente mais tarde.'',
        dm_discovery_error = ''O servidor est'' @ encode_rune 0xE1 @ '' procurando uma inst'' @ encode_rune 0xE2 @ ''ncia dispon'' @ encode_rune 0xED @ ''vel. Tente novamente em instantes.''\<rparr>),
     (''pt-BR'', \<lparr>dm_no_route = ''O servidor est'' @ encode_rune 0xE1 @ '' indispon'' @ encode_rune 0xED @ ''vel no momento.'',
        dm_no_backends = ''O servidor est'' @ encode_rune 0xE1 @ '' cheio ou reiniciando. Tente novamente em instantes.'',
        dm_routing_error = ''O servidor est'' @ encode_rune 0xE1 @ '' inacess'' @ encode_rune 0xED @ ''vel no momento. Tente novamente mais tarde.'',
        dm_discovery_error = ''O servidor est'' @ encode_rune 0xE1 @ '' procurando uma inst'' @ encode_rune 0xE2 @ ''ncia dispon'' @ encode_rune 0xED @ ''vel. Tente novamente em instantes.''\<rparr>),
     (''it'', \<lparr>dm_no_route = ''Il server non '' @ encode_rune 0xE8 @ '' disponibile al momento.'',
        dm_no_backends = ''Il server '' @ encode_rune 0xE8 @ '' pieno o si sta riavviando. Riprova tra un momento.'',
        dm_routing_error = ''Il server non '' @ encode_rune 0xE8 @ '' raggiungibile al momento. Riprova pi'' @ encode_rune 0xF9 @ '' tardi.'',
        dm_discovery_error = ''Il server sta cercando un'' @ [CHR 0x27] @ ''istanza disponibile. Riprova tra un momento.''\<rparr>)]"

definition default_config :: config where
  "default_config =
     \<lparr>cfg_listen = '':5520'',
      cfg_tls = \<lparr>tls_cert = [], tls_key = [], tls_alpn = [''hytale/*'']\<rparr>,
      cfg_quic = \<lparr>quic_idle = ''30s''\<rparr>,
      cfg_routing = \<lparr>rc_default = None, rc_routes = []\<rparr>,
      cfg_referral = None,
      cfg_plugins = [],
      cfg_discovery = None,
      cfg_messages = \<lparr>msg_disconnect = default_messages, msg_locales = None\<rparr>,
      cfg_log_client_ip = True\<rparr>"

section \<open>Annotation selectors\<close>

text \<open>The error names the token.\<close>

fun check_tokens :: "string list \<Rightarrow> string option" where
  "check_tokens [] = None"
| "check_tokens (p0 # ps) =
     (let p = trim_space p0 in
      if p = [] then check_tokens ps
      else (case split2 (CHR ''='') p of
          [k, v] \<Rightarrow> if trim_space k = [] \<or> trim_space v = [] then Some p else check_tokens ps
        | _ \<Rightarrow> Some p))"

definition validate_annotation_selector :: "string \<Rightarrow> string option" where
  "validate_annotation_selector expr0 =
     (let expr = trim_space expr0 in
      if expr = [] then None else check_tokens (split_on (CHR '','') expr))"

section \<open>Discovery\<close>

definition validate_selector ::
  "(string \<Rightarrow> bool) \<Rightarrow> 'e \<Rightarrow> (string \<Rightarrow> 'e) \<Rightarrow> k8s_selector \<Rightarrow> 'e option"
where
  "validate_selector labels_ok bad_labels bad_annotations sel =
     (let label_expr = trim_space (sel_labels sel); ann_expr = trim_space (sel_annotations sel) in check_seq [
        fail_if (label_expr \<noteq> [] \<and> \<not> labels_ok label_expr) bad_labels,
        (if ann_expr \<noteq> [] then map_option bad_annotations (validate_annotation_selector ann_expr) else None)])"

definition validate_kubernetes :: "(string \<Rightarrow> bool) \<Rightarrow> nat \<Rightarrow> k8s_discovery option \<Rightarrow> provider_error option" where
  "validate_kubernetes labels_ok i kd =
     (case kd of
        None \<Rightarrow> Some (KubernetesMissing i)
      | Some d \<Rightarrow> check_each (\<lambda>j r. case kr_selector r of
            None \<Rightarrow> None
          | Some sel \<Rightarrow> validate_selector labels_ok (ResourceLabels i j) (ResourceAnnotations i j) sel)
          (kd_resources d))"

definition validate_agones :: "(string \<Rightarrow> bool) \<Rightarrow> nat \<Rightarrow> agones_discovery option \<Rightarrow> provider_error option" where
  "validate_agones labels_ok i ad =
     (case ad of
        None \<Rightarrow> Some (AgonesMissing i)
      | Some d \<Rightarrow> check_seq [
          (case ad_selector d of
             None \<Rightarrow> None
           | Some sel \<Rightarrow> validate_selector labels_ok (AgonesLabels i) (AgonesAnnotations i) sel),
          (case ad_address d of
             None \<Rightarrow> None
           | Some a \<Rightarrow> let source = to_lower (trim_space (aa_source a)) in
               fail_if (source \<noteq> [] \<and> source \<noteq> ''address'' \<and> source \<noteq> ''addresses'') (AddressSourceBad i)),
          fail_if (trim_space (ad_min_interval d) \<noteq> [] \<and> parse_duration (ad_min_interval d) = None)
            (AllocateIntervalBad i)])"

text \<open>The names seen before a provider are those of the providers before it.\<close>

definition validate_provider ::
  "(string \<Rightarrow> bool) \<Rightarrow> discovery_provider list \<Rightarrow> nat \<Rightarrow> discovery_provider \<Rightarrow> provider_error option"
where
  "validate_provider labels_ok ps i p = check_seq [
     fail_if (dp_name p = []) (ProviderNameEmpty i),
     fail_if (dp_name p \<in> set (map dp_name (take i ps))) (ProviderNameTaken i),
     (let t = to_lower (trim_space (dp_type p)) in
      if t = ''kubernetes'' then validate_kubernetes labels_ok i (dp_kubernetes p)
      else if t = ''agones'' then validate_agones labels_ok i (dp_agones p)
      else Some (ProviderTypeBad i))]"

definition validate_discovery :: "(string \<Rightarrow> bool) \<Rightarrow> discovery_provider list option \<Rightarrow> provider_error option" where
  "validate_discovery labels_ok d =
     (case d of None \<Rightarrow> None | Some ps \<Rightarrow> check_each (validate_provider labels_ok ps) ps)"

definition check_pool :: "string list \<Rightarrow> string \<Rightarrow> nat \<Rightarrow> pool \<Rightarrow> config_error option" where
  "check_pool providers path i p =
     (case p_discovery p of
        None \<Rightarrow> None
      | Some d \<Rightarrow> check_seq [
          fail_if (length providers = 0) (DiscoveryMissing path i),
          fail_if (dr_provider d \<notin> set providers) (ProviderUnknown path i (dr_provider d))])"

definition validate_discovery_refs :: "routing_config \<Rightarrow> string list \<Rightarrow> config_error option" where
  "validate_discovery_refs r providers = check_seq [
     (case rc_default r of None \<Rightarrow> None | Some p \<Rightarrow> check_pool providers ''routing.default'' 0 p),
     check_each (\<lambda>i rt. check_pool providers ''routing.routes'' i (r_pool rt)) (rc_routes r)]"

section \<open>The whole configuration\<close>

definition validate_plugin :: "plugin_config list \<Rightarrow> nat \<Rightarrow> plugin_config \<Rightarrow> config_error option" where
  "validate_plugin ps i p = check_seq [
     fail_if (pc_name p = []) (PluginNameEmpty i),
     fail_if (pc_name p \<in> set (map pc_name (take i ps))) (PluginNameTaken i),
     (if pc_stage p \<noteq> [] then
        let s = to_lower (pc_stage p) in
        fail_if (s \<noteq> ''deny'' \<and> s \<noteq> ''route'' \<and> s \<noteq> ''mutate'') (PluginStageBad i)
      else None),
     (let t = to_lower (pc_type p) in
      if t = ''grpc'' then fail_if (pc_grpc p = None \<or> pc_grpc p = Some []) (PluginAddressEmpty i)
      else if t = ''wasm'' then fail_if (pc_wasm p = None \<or> pc_wasm p = Some []) (PluginPathEmpty i)
      else Some (PluginTypeBad i))]"

definition provider_names :: "discovery_provider list option \<Rightarrow> string list" where
  "provider_names d = (case d of None \<Rightarrow> [] | Some ps \<Rightarrow> map dp_name ps)"

definition validate_config :: "(string \<Rightarrow> bool) \<Rightarrow> config \<Rightarrow> config_error option" where
  "validate_config labels_ok c = check_seq [
     fail_if (cfg_listen c = []) ListenEmpty,
     fail_if ((tls_cert (cfg_tls c) = []) \<noteq> (tls_key (cfg_tls c) = [])) CertWithoutKey,
     fail_if (length (tls_alpn (cfg_tls c)) = 0) AlpnEmpty,
     fail_if (quic_idle (cfg_quic c) \<noteq> [] \<and> parse_duration (quic_idle (cfg_quic c)) = None) IdleTimeoutBad,
     map_option RoutingBad (validate_routing (cfg_routing c)),
     check_each (validate_plugin (cfg_plugins c)) (cfg_plugins c),
     map_option DiscoveryBad (validate_discovery labels_ok (cfg_discovery c)),
     validate_discovery_refs (cfg_routing c) (provider_names (cfg_discovery c))]"

section \<open>Loading\<close>

text \<open>\<open>filepath.Ext\<close>: from the last dot of the last path element.\<close>

definition path_ext :: "string \<Rightarrow> string" where
  "path_ext path =
     (let name = rev (takeWhile (\<lambda>c. c \<noteq> CHR ''/'') (rev path)) in
      if CHR ''.'' \<in> set name then CHR ''.'' # rev (takeWhile (\<lambda>c. c \<noteq> CHR ''.'') (rev name)) else [])"

definition fill_locales :: "config \<Rightarrow> config" where
  "fill_locales c =
     (if msg_locales (cfg_messages c) = None
      then c\<lparr>cfg_messages := (cfg_messages c)\<lparr>msg_locales := Some default_locales\<rparr>\<rparr> else c)"

text \<open>The file system and the two decoders, which decode over a given configuration, are arguments.\<close>

definition load_config ::
  "(string \<Rightarrow> string + bytes) \<Rightarrow> (bytes \<Rightarrow> config \<Rightarrow> string + config) \<Rightarrow> (bytes \<Rightarrow> config \<Rightarrow> string + config) \<Rightarrow>
   (string \<Rightarrow> bool) \<Rightarrow> string \<Rightarrow> config_error + config"
where
  "load_config read_file yaml json labels_ok path =
     (case read_file path of
        Inl e \<Rightarrow> Inl (ReadFailed e)
      | Inr b \<Rightarrow>
        let ext = to_lower (path_ext path);
            decoded = (if ext = ''.yaml'' \<or> ext = ''.yml'' then
                (case yaml b default_config of Inl e \<Rightarrow> Inl (YamlFailed e) | Inr c \<Rightarrow> Inr c)
              else if ext = ''.json'' then
                (case json b default_config of Inl e \<Rightarrow> Inl (JsonFailed e) | Inr c \<Rightarrow> Inr c)
              else Inl (UnsupportedExtension (path_ext path)))
        in (case decoded of
              Inl e \<Rightarrow> Inl e
            | Inr c0 \<Rightarrow>
              let c = fill_locales c0 in
              (case validate_config labels_ok c of Some e \<Rightarrow> Inl e | None \<Rightarrow> Inr c)))"

end
