(* ===== verification/DiscoveryKubernetes.thy ===== *)
theory DiscoveryKubernetes
  imports ConfigLoad RoutingDiscovery
begin

text \<open>
  \<^verbatim>\<open>internal/discovery/kubernetes.go\<close>: backends from the pods and endpoint slices of a cluster. The
  objects are records of the fields the code reads; a map that may be nil is an option. The informer
  cache of client-go is an argument: what its listers answer for a namespace and a label selector.
\<close>

section \<open>Errors\<close>

text \<open>The errors of the package; texts of foreign calls are carried along.\<close>

datatype discovery_error =
    ConfigMissing string | ConnectFailed string | SelectorInvalid string | SyncFailed string
  | UnknownMode string | NotStarted string | IntervalInvalid string | ContextEnded string
  | CreateFailed string | AllocationEmpty
  | EntryNameEmpty nat | EntryNameTaken nat | EntryTypeBad nat | StartFailed string discovery_error
  | UnknownProvider string

section \<open>Maps of labels and annotations\<close>

type_synonym string_map = "(string \<rightharpoonup> string) option"

text \<open>Reading a missing key, or a nil map, gives the empty string.\<close>

definition map_get :: "string_map \<Rightarrow> string \<Rightarrow> string" where
  "map_get m k = (case m of None \<Rightarrow> [] | Some f \<Rightarrow> (case f k of None \<Rightarrow> [] | Some v \<Rightarrow> v))"

definition map_lookup :: "string_map \<Rightarrow> string \<Rightarrow> string option" where
  "map_lookup m k = (case m of None \<Rightarrow> None | Some f \<Rightarrow> f k)"

text \<open>\<open>annotationsMatch\<close>: every non-blank token \<open>k=v\<close> is an annotation.\<close>

fun match_tokens :: "string_map \<Rightarrow> string list \<Rightarrow> bool" where
  "match_tokens ann [] = True"
| "match_tokens ann (p0 # ps) =
     (let p = trim_space p0 in
      if p = [] then match_tokens ann ps
      else (case split2 (CHR ''='') p of
          [k, v] \<Rightarrow> ann \<noteq> None \<and> map_get ann (trim_space k) = trim_space v \<and> match_tokens ann ps
        | _ \<Rightarrow> False))"

definition annotations_match :: "string_map \<Rightarrow> string \<Rightarrow> bool" where
  "annotations_match ann expr0 =
     (let expr = trim_space expr0 in
      if expr = [] then True else match_tokens ann (split_on (CHR '','') expr))"

section \<open>Metadata and weights\<close>

definition fill_k8s_meta :: "string \<Rightarrow> string \<Rightarrow> string \<Rightarrow> (string \<rightharpoonup> string) \<Rightarrow> (string \<rightharpoonup> string)" where
  "fill_k8s_meta ns name node meta =
     (let m1 = (if ns \<noteq> [] then meta(''k8s.namespace'' \<mapsto> ns) else meta);
          m2 = (if name \<noteq> [] then m1(''k8s.name'' \<mapsto> name) else m1)
      in if node \<noteq> [] then m2(''k8s.node'' \<mapsto> node) else m2)"

definition copy_selected :: "string \<Rightarrow> string_map \<Rightarrow> string list \<Rightarrow> (string \<rightharpoonup> string) \<Rightarrow> (string \<rightharpoonup> string)" where
  "copy_selected pre m include meta =
     fold (\<lambda>k acc. case map_lookup m k of None \<Rightarrow> acc | Some v \<Rightarrow> acc(pre @ k \<mapsto> v)) include meta"

definition copy_selected_labels :: "string_map \<Rightarrow> string list \<Rightarrow> (string \<rightharpoonup> string) \<Rightarrow> (string \<rightharpoonup> string)" where
  "copy_selected_labels m include meta = copy_selected ''label.'' m include meta"

definition copy_selected_annotations :: "string_map \<Rightarrow> string list \<Rightarrow> (string \<rightharpoonup> string) \<Rightarrow> (string \<rightharpoonup> string)" where
  "copy_selected_annotations m include meta = copy_selected ''annotation.'' m include meta"

text \<open>A weight text counts if it is a positive integer.\<close>

definition weight_of_text :: "string \<Rightarrow> int option" where
  "weight_of_text v = (if v = [] then None else case atoi v of (n, ok) \<Rightarrow> if ok \<and> 0 < n then Some n else None)"

definition first_weight :: "string \<Rightarrow> string \<Rightarrow> backend \<Rightarrow> backend" where
  "first_weight v1 v2 b =
     (if 0 < b_weight b then b
      else (case weight_of_text v1 of
          Some n \<Rightarrow> b\<lparr>b_weight := n\<rparr>
        | None \<Rightarrow> (case weight_of_text v2 of Some n \<Rightarrow> b\<lparr>b_weight := n\<rparr> | None \<Rightarrow> b)))"

definition apply_weight_from_maps :: "string_map \<Rightarrow> string_map \<Rightarrow> backend \<Rightarrow> backend" where
  "apply_weight_from_maps labels ann b =
     first_weight (map_get ann ''hyrouter/weight'') (map_get labels ''hyrouter/weight'') b"

definition apply_weight :: "backend \<Rightarrow> backend" where
  "apply_weight b =
     first_weight (map_get (Some (b_meta b)) ''annotation.hyrouter/weight'')
       (map_get (Some (b_meta b)) ''label.hyrouter/weight'') b"

section \<open>Pods\<close>

record pod =
  pod_namespace :: string
  pod_name :: string
  pod_node :: string
  pod_ip :: string
  pod_phase :: string
  pod_conditions :: "(string \<times> string) list"
  pod_ports :: "(string \<times> int) list list"
  pod_labels :: string_map
  pod_annotations :: string_map

fun ready_condition :: "(string \<times> string) list \<Rightarrow> bool" where
  "ready_condition [] = False"
| "ready_condition ((t, st) # cs) = (if t = ''Ready'' then st = ''True'' else ready_condition cs)"

definition pod_ready :: "pod \<Rightarrow> bool" where
  "pod_ready p = ready_condition (pod_conditions p)"

definition pod_allowed :: "k8s_filters \<Rightarrow> pod \<Rightarrow> k8s_selector option \<Rightarrow> bool" where
  "pod_allowed f p sel =
     (if pod_ip p = [] then False
      else if kf_pod_phase f \<noteq> [] \<and> \<not> list_ex (\<lambda>ph. equal_fold (pod_phase p) ph) (kf_pod_phase f) then False
      else if kf_pod_ready f \<and> \<not> pod_ready p then False
      else (case sel of None \<Rightarrow> True | Some s \<Rightarrow> annotations_match (pod_annotations p) (sel_annotations s)))"

fun named_port :: "string \<Rightarrow> (string \<times> int) list \<Rightarrow> int option" where
  "named_port name [] = None"
| "named_port name ((n, port) # ps) = (if n = name \<and> 0 < port then Some port else named_port name ps)"

definition resolve_pod_port :: "pod \<Rightarrow> k8s_port \<Rightarrow> int option" where
  "resolve_pod_port p cfg =
     (if 0 < kp_container cfg then Some (kp_container cfg)
      else if 0 < kp_number cfg then Some (kp_number cfg)
      else if trim_space (kp_name cfg) = [] then None
      else named_port (trim_space (kp_name cfg)) (concat (pod_ports p)))"

definition pod_backend :: "k8s_discovery \<Rightarrow> pod \<Rightarrow> int \<Rightarrow> backend" where
  "pod_backend cfg p port =
     (let meta = copy_selected_annotations (pod_annotations p) (km_annotations (kd_metadata cfg))
           (copy_selected_labels (pod_labels p) (km_labels (kd_metadata cfg))
             (fill_k8s_meta (pod_namespace p) (pod_name p) (pod_node p) Map.empty))
      in apply_weight_from_maps (pod_labels p) (pod_annotations p)
           \<lparr>b_host = pod_ip p, b_port = port, b_weight = 0, b_meta = meta\<rparr>)"

section \<open>Endpoint slices\<close>

record endpoint =
  ep_ready :: "bool option"
  ep_addresses :: "string list"

record endpoint_slice =
  es_namespace :: string
  es_name :: string
  es_labels :: string_map
  es_annotations :: string_map
  es_ports :: "(string option \<times> int option) list"
  es_endpoints :: "endpoint list"

fun first_port :: "(string option \<times> int option \<Rightarrow> bool) \<Rightarrow> (string option \<times> int option) list \<Rightarrow> int option" where
  "first_port P [] = None"
| "first_port P ((n, port) # ps) = (if P (n, port) \<and> port \<noteq> None then port else first_port P ps)"

definition resolve_endpoint_slice_port :: "endpoint_slice \<Rightarrow> k8s_port \<Rightarrow> int option" where
  "resolve_endpoint_slice_port es cfg =
     (if 0 < kp_number cfg then Some (kp_number cfg)
      else (case (if trim_space (kp_name cfg) \<noteq> []
                  then first_port (\<lambda>(n, _). n = Some (trim_space (kp_name cfg))) (es_ports es) else None) of
          Some port \<Rightarrow> Some port
        | None \<Rightarrow> first_port (\<lambda>_. True) (es_ports es)))"

definition slice_backend :: "k8s_discovery \<Rightarrow> endpoint_slice \<Rightarrow> int \<Rightarrow> string \<Rightarrow> backend" where
  "slice_backend cfg es port addr =
     (let meta = copy_selected_annotations (es_annotations es) (km_annotations (kd_metadata cfg))
           (copy_selected_labels (es_labels es) (km_labels (kd_metadata cfg))
             (fill_k8s_meta (es_namespace es) (es_name es) [] Map.empty))
      in apply_weight_from_maps (es_labels es) (es_annotations es)
           \<lparr>b_host = addr, b_port = port, b_weight = 0, b_meta = meta\<rparr>)"

section \<open>The snapshot\<close>

type_synonym label_selector = "string_map \<Rightarrow> bool"

text \<open>The listers, \<open>None\<close> for an error; the empty namespace stands for all of them.\<close>

record k8s_cache =
  kc_pods :: "string \<Rightarrow> label_selector \<Rightarrow> pod list option"
  kc_slices :: "string \<Rightarrow> label_selector \<Rightarrow> endpoint_slice list option"

text \<open>\<open>labels.Parse\<close> is an argument; an expression that does not parse selects everything.\<close>

definition label_selector_of :: "(string \<Rightarrow> label_selector option) \<Rightarrow> k8s_selector option \<Rightarrow> label_selector" where
  "label_selector_of parse_labels sel =
     (case sel of
        None \<Rightarrow> (\<lambda>_. True)
      | Some s \<Rightarrow>
        let expr = trim_space (sel_labels s) in
        if expr = [] then (\<lambda>_. True)
        else (case parse_labels expr of None \<Rightarrow> (\<lambda>_. True) | Some ls \<Rightarrow> ls))"

definition pod_backends ::
  "(string \<Rightarrow> label_selector option) \<Rightarrow> k8s_discovery \<Rightarrow> k8s_cache \<Rightarrow> string list \<Rightarrow> k8s_resource \<Rightarrow> backend list"
where
  "pod_backends parse_labels cfg cache namespaces r =
     concat (map (\<lambda>ns.
         case kc_pods cache ns (label_selector_of parse_labels (kr_selector r)) of
           None \<Rightarrow> []
         | Some pods \<Rightarrow> List.map_filter (\<lambda>p.
             if \<not> pod_allowed (kd_filters cfg) p (kr_selector r) then None
             else map_option (pod_backend cfg p) (resolve_pod_port p (kr_port r))) pods)
       namespaces)"

definition slice_allowed ::
  "(string \<Rightarrow> label_selector option) \<Rightarrow> k8s_resource \<Rightarrow> endpoint_slice \<Rightarrow> bool"
where
  "slice_allowed parse_labels r es =
     (label_selector_of parse_labels (kr_selector r) (es_labels es) \<and>
      (case kr_selector r of None \<Rightarrow> True | Some s \<Rightarrow> annotations_match (es_annotations es) (sel_annotations s)) \<and>
      (case kr_service r of None \<Rightarrow> True
       | Some svc \<Rightarrow> map_get (es_labels es) ''kubernetes.io/service-name'' = ksr_name svc))"

definition endpoint_backends :: "k8s_discovery \<Rightarrow> endpoint_slice \<Rightarrow> int \<Rightarrow> backend list" where
  "endpoint_backends cfg es port =
     concat (map (\<lambda>ep.
         if kf_endpoint_ready (kd_filters cfg) \<and> ep_ready ep = Some False then []
         else map (slice_backend cfg es port) (ep_addresses ep))
       (es_endpoints es))"

definition slice_backends ::
  "(string \<Rightarrow> label_selector option) \<Rightarrow> k8s_discovery \<Rightarrow> k8s_cache \<Rightarrow> string list \<Rightarrow> k8s_resource \<Rightarrow> backend list"
where
  "slice_backends parse_labels cfg cache namespaces r =
     concat (map (\<lambda>ns.
         case kc_slices cache ns (\<lambda>_. True) of
           None \<Rightarrow> []
         | Some ess \<Rightarrow> concat (map (\<lambda>es.
             if \<not> slice_allowed parse_labels r es then []
             else (case resolve_endpoint_slice_port es (kr_port r) of
                 None \<Rightarrow> [] | Some port \<Rightarrow> endpoint_backends cfg es port)) ess))
       (case kr_service r of
          None \<Rightarrow> namespaces
        | Some svc \<Rightarrow> if ksr_namespace svc \<noteq> [] then [ksr_namespace svc] else namespaces))"

definition resource_backends ::
  "(string \<Rightarrow> label_selector option) \<Rightarrow> k8s_discovery \<Rightarrow> k8s_cache \<Rightarrow> string list \<Rightarrow> k8s_resource \<Rightarrow> backend list"
where
  "resource_backends parse_labels cfg cache namespaces r =
     (let kind = to_lower (trim_space (kr_kind r)) in
      if kind = ''pods'' \<or> kind = ''pod'' then pod_backends parse_labels cfg cache namespaces r
      else if kind = ''endpointslices'' \<or> kind = ''endpointslice'' then slice_backends parse_labels cfg cache namespaces r
      else [])"

definition k8s_backends :: "(string \<Rightarrow> label_selector option) \<Rightarrow> k8s_discovery \<Rightarrow> k8s_cache \<Rightarrow> backend list" where
  "k8s_backends parse_labels cfg cache =
     (let namespaces = (if length (kd_namespaces cfg) = 0 then [[]] else kd_namespaces cfg) in
      concat (map (resource_backends parse_labels cfg cache namespaces) (kd_resources cfg)))"

section \<open>The provider\<close>

record k8s_provider =
  kpr_name :: string
  kpr_cfg :: k8s_discovery
  kpr_started :: bool
  kpr_factory :: bool
  kpr_error :: "discovery_error option"
  kpr_snapshot :: "backend list"

definition new_kubernetes_provider :: "string \<Rightarrow> k8s_discovery option \<Rightarrow> discovery_error + k8s_provider" where
  "new_kubernetes_provider name cfg =
     (case cfg of
        None \<Rightarrow> Inl (ConfigMissing name)
      | Some c \<Rightarrow> Inr \<lparr>kpr_name = name, kpr_cfg = c, kpr_started = False, kpr_factory = False, kpr_error = None,
          kpr_snapshot = []\<rparr>)"

text \<open>\<open>rebuild\<close>: what every event of the informers and the timer call.\<close>

definition k8s_rebuild :: "(string \<Rightarrow> label_selector option) \<Rightarrow> k8s_cache \<Rightarrow> k8s_provider \<Rightarrow> k8s_provider" where
  "k8s_rebuild parse_labels cache p =
     (if \<not> kpr_factory p then p else p\<lparr>kpr_snapshot := k8s_backends parse_labels (kpr_cfg p) cache\<rparr>)"

text \<open>
  \<open>kubeRESTConfig\<close>: a named file, else the cluster the process runs in, else the default rules, each a
  call of client-go.
\<close>

definition kube_rest_config ::
  "(string \<Rightarrow> string + 'c) \<Rightarrow> (string + 'c) \<Rightarrow> (string + 'c) \<Rightarrow> string \<Rightarrow> string + 'c"
where
  "kube_rest_config from_file in_cluster by_rules kubeconfig0 =
     (let kubeconfig = trim_space kubeconfig0 in
      if kubeconfig \<noteq> [] then from_file kubeconfig
      else (case in_cluster of Inr c \<Rightarrow> Inr c | Inl _ \<Rightarrow> by_rules))"

text \<open>
  \<open>Start\<close>, which acts once: the configuration of the cluster (\<open>rest\<close>, from \<open>kube_rest_config\<close>) or the
  client may fail with an error, and the caches may not get in sync before the context ends. The error is
  remembered. The watched pods and slices are what the cache holds.
\<close>

definition k8s_connect :: "(string \<Rightarrow> string + 'c) \<Rightarrow> ('c \<Rightarrow> string option) \<Rightarrow> k8s_provider \<Rightarrow> discovery_error option" where
  "k8s_connect rest new_client p =
     (case rest (kd_kubeconfig (kpr_cfg p)) of
        Inl e \<Rightarrow> Some (ConnectFailed e)
      | Inr c \<Rightarrow> map_option ConnectFailed (new_client c))"

definition k8s_start ::
  "(string \<Rightarrow> label_selector option) \<Rightarrow> (string \<Rightarrow> string + 'c) \<Rightarrow> ('c \<Rightarrow> string option) \<Rightarrow> bool \<Rightarrow> k8s_cache \<Rightarrow>
   k8s_provider \<Rightarrow> discovery_error option \<times> k8s_provider"
where
  "k8s_start parse_labels rest new_client synced cache p =
     (let p' =
        (if kpr_started p then p
         else let q = p\<lparr>kpr_started := True\<rparr> in
           (case k8s_connect rest new_client q of
              Some e \<Rightarrow> q\<lparr>kpr_error := Some e\<rparr>
            | None \<Rightarrow>
              let q = q\<lparr>kpr_factory := True\<rparr> in
              if \<not> synced then q\<lparr>kpr_error := Some (SyncFailed (kpr_name q))\<rparr>
              else k8s_rebuild parse_labels cache q))
      in (kpr_error p', p'))"

definition k8s_resolve :: "k8s_provider \<Rightarrow> discovery_error + backend list" where
  "k8s_resolve p = Inr (kpr_snapshot p)"

end
