(* ===== verification/GoMarshal.thy ===== *)
theory GoMarshal
  imports GoJson
begin

text \<open>
  The instance of \<open>json.Marshal\<close> the discovery code uses: a \<open>[]string\<close> written as a JSON array, with the
  escapes of \<^verbatim>\<open>encoding/json\<close> (the characters of HTML included), and the proof that the reader of
  \<open>GoJson\<close> reads it back.
\<close>

section \<open>Writing\<close>

definition hex_char :: "nat \<Rightarrow> char" where
  "hex_char n = char_of (if n < 10 then 48 + n else 87 + n)"

text \<open>A byte below 128.\<close>

definition escape_ascii :: "nat \<Rightarrow> string" where
  "escape_ascii n =
     (if n = 0x22 \<or> n = 0x5C then [CHR 0x5C, char_of n]
      else if n = 0x08 then [CHR 0x5C, CHR ''b'']
      else if n = 0x0C then [CHR 0x5C, CHR ''f'']
      else if n = 0x0A then [CHR 0x5C, CHR ''n'']
      else if n = 0x0D then [CHR 0x5C, CHR ''r'']
      else if n = 0x09 then [CHR 0x5C, CHR ''t'']
      else if n < 32 \<or> n = 0x3C \<or> n = 0x3E \<or> n = 0x26
        then [CHR 0x5C, CHR ''u'', CHR ''0'', CHR ''0'', hex_char (n div 16), hex_char (n mod 16)]
      else [char_of n])"

text \<open>A rune above 127 that \<open>decode_rune\<close> read from the bytes \<open>bs\<close>.\<close>

definition escape_rune :: "nat \<Rightarrow> string \<Rightarrow> string" where
  "escape_rune r bs =
     (if r = rune_error \<and> length bs = 1
      then [CHR 0x5C, CHR ''u'', CHR ''f'', CHR ''f'', CHR ''f'', CHR ''d'']
      else if r = 0x2028 \<or> r = 0x2029
      then [CHR 0x5C, CHR ''u'', CHR ''2'', CHR ''0'', CHR ''2'', hex_char (r mod 16)]
      else bs)"

fun escape_string :: "string \<Rightarrow> string" where
  "escape_string [] = []"
| "escape_string (c # s) =
     (if code c < 128 then escape_ascii (code c) @ escape_string s
      else escape_rune (fst (decode_rune (c # s))) (take (snd (decode_rune (c # s))) (c # s)) @
        escape_string (drop (snd (decode_rune (c # s)) - 1) s))"

definition quote_string :: "string \<Rightarrow> string" where
  "quote_string s = CHR 0x22 # escape_string s @ [CHR 0x22]"

fun comma_separated :: "string list \<Rightarrow> string" where
  "comma_separated [] = []"
| "comma_separated [x] = x"
| "comma_separated (x # y # xs) = x @ '','' @ comma_separated (y # xs)"

definition marshal_strings :: "string list \<Rightarrow> string" where
  "marshal_strings xs = ''['' @ comma_separated (map quote_string xs) @ '']''"

section \<open>Reading back\<close>

text \<open>What a reader of the text sees of a string: invalid bytes become \<open>RuneError\<close>.\<close>

definition as_utf8 :: "string \<Rightarrow> string" where
  "as_utf8 s = concat (map encode_rune (runes s))"

definition valid_utf8 :: "string \<Rightarrow> bool" where
  "valid_utf8 s \<longleftrightarrow> as_utf8 s = s"

lemma as_utf8_ascii: "ascii_string s \<Longrightarrow> as_utf8 s = s"
  by (induction s) (simp_all add: as_utf8_def encode_rune_def rune_error_def)

lemma valid_utf8_ascii: "ascii_string s \<Longrightarrow> valid_utf8 s"
  by (simp add: valid_utf8_def as_utf8_ascii)

lemma code_hex_char: "n < 16 \<Longrightarrow> code (hex_char n) = (if n < 10 then 48 + n else 87 + n)"
  by (simp add: hex_char_def)

lemma hex_value_hex_char [simp]: "n < 16 \<Longrightarrow> hex_value (hex_char n) = Some (int n)"
  by (simp add: hex_value_def code_hex_char Let_def)

lemma hex_value_literals [simp]:
  "hex_value (CHR ''0'') = Some 0" "hex_value (CHR ''2'') = Some 2" "hex_value (CHR ''f'') = Some 15"
  "hex_value (CHR ''d'') = Some 13"
  by (simp_all add: hex_value_def)

lemma char_of_escaped:
  "(char_of (34 :: nat) :: char) = CHR 0x22" "(char_of (92 :: nat) :: char) = CHR 0x5C"
  "(char_of (8 :: nat) :: char) = CHR 0x08" "(char_of (12 :: nat) :: char) = CHR 0x0C"
  "(char_of (10 :: nat) :: char) = CHR 0x0A" "(char_of (13 :: nat) :: char) = CHR 0x0D"
  "(char_of (9 :: nat) :: char) = CHR 0x09"
  by code_simp+

lemma code_eq_CHR: "n < 128 \<Longrightarrow> char_of n = CHR 0x22 \<longleftrightarrow> n = 34" "n < 128 \<Longrightarrow> char_of n = CHR 0x5C \<longleftrightarrow> n = 92"
  for n :: nat
  by (auto simp: take_bit_eq_mod char_of_escaped dest!: arg_cong [where f = "of_char :: char \<Rightarrow> nat"])

lemma encode_rune_ascii [simp]: "n < 128 \<Longrightarrow> encode_rune n = [char_of n]"
  by (simp add: encode_rune_def rune_error_def)

lemma code_char_of_ascii [simp]: "n < 128 \<Longrightarrow> code (char_of n) = n"
  by simp

lemma append_single [simp]: "(@) [c] = (#) c"
  by (rule ext) simp

lemma json_string_plain:
  "n < 128 \<Longrightarrow> n \<noteq> 34 \<Longrightarrow> n \<noteq> 92 \<Longrightarrow> 32 \<le> n \<Longrightarrow>
   json_string (char_of n # rest) = map_option (apfst (Cons (char_of n))) (json_string rest)"
  for n :: nat
  by (simp add: code_eq_CHR take_bit_eq_mod del: decode_rune.simps(2))

lemma json_string_u00:
  assumes "n < 128"
  shows "json_string (CHR 0x5C # CHR ''u'' # CHR ''0'' # CHR ''0'' # hex_char (n div 16) # hex_char (n mod 16) # rest) =
    map_option (apfst (Cons (char_of n))) (json_string rest)"
proof -
  have "nat (int (n div 16) * 16 + int (n mod 16)) = n"
    by (metis div_mult_mod_eq nat_int of_nat_add of_nat_mult of_nat_numeral)
  then have "unicode_escape (CHR ''0'' # CHR ''0'' # hex_char (n div 16) # hex_char (n mod 16) # rest) = Some (n, rest)"
    using assms by (simp add: unicode_escape_def hex4_def is_surrogate_def)
  with assms show ?thesis by simp
qed

lemma json_string_simple:
  "simple_escape e = Some d \<Longrightarrow> e \<noteq> CHR ''u'' \<Longrightarrow>
   json_string (CHR 0x5C # e # rest) = map_option (apfst (Cons d)) (json_string rest)"
  by simp

lemma json_string_ascii:
  assumes "n < 128"
  shows "json_string (escape_ascii n @ rest) = map_option (apfst (Cons (char_of n))) (json_string rest)"
proof -
  consider "n \<in> {34, 92, 8, 12, 10, 13, 9}" | "n \<notin> {34, 92, 8, 12, 10, 13, 9}" "n < 32 \<or> n = 60 \<or> n = 62 \<or> n = 38"
    | "n \<notin> {34, 92, 8, 12, 10, 13, 9}" "\<not> (n < 32 \<or> n = 60 \<or> n = 62 \<or> n = 38)" by blast
  then show ?thesis
  proof cases
    case 1
    then show ?thesis
      by (elim insertE emptyE) (simp_all add: escape_ascii_def char_of_escaped json_string_simple simple_escape_def)
  next
    case 2
    then have "escape_ascii n = [CHR 0x5C, CHR ''u'', CHR ''0'', CHR ''0'', hex_char (n div 16), hex_char (n mod 16)]"
      by (simp add: escape_ascii_def)
    then show ?thesis using json_string_u00 [OF assms] by simp
  next
    case 3
    then have "escape_ascii n = [char_of n]" by (simp add: escape_ascii_def)
    then show ?thesis using json_string_plain [of n] 3 assms by simp
  qed
qed

text \<open>A sequence of several bytes is read again from its bytes alone.\<close>

lemma decode_rune_take:
  assumes "128 \<le> code c0"
  shows "decode_rune (c0 # cs) = (rune_error, 1) \<or>
    1 < snd (decode_rune (c0 # cs)) \<and> snd (decode_rune (c0 # cs)) \<le> length (c0 # cs) \<and>
    decode_rune (take (snd (decode_rune (c0 # cs))) (c0 # cs) @ q) = decode_rune (c0 # cs)"
proof -
  let ?b = "code c0"
  let ?lo3 = "if ?b = 224 then 160 else 128" and ?hi3 = "if ?b = 237 then 159 else 191"
  let ?lo4 = "if ?b = 240 then 144 else 128" and ?hi4 = "if ?b = 244 then 143 else 191"
  consider "?b < 194 \<or> 244 < ?b" | "194 \<le> ?b" "?b \<le> 223" | "224 \<le> ?b" "?b \<le> 239" | "240 \<le> ?b" "?b \<le> 244"
    by linarith
  then show ?thesis
  proof cases
    case 1
    with assms show ?thesis by auto
  next
    case 2
    then show ?thesis by (cases cs) simp_all
  next
    case 3
    show ?thesis
    proof (cases "\<exists>c1 c2 r. cs = c1 # c2 # r \<and> cont ?lo3 ?hi3 c1 \<and> cont 128 191 c2")
      case True
      then obtain c1 c2 r where "cs = c1 # c2 # r" "cont ?lo3 ?hi3 c1" "cont 128 191 c2" by blast
      with 3 show ?thesis by (simp del: if_split)
    next
      case False
      with 3 have "decode_rune (c0 # cs) = (rune_error, 1)"
        by (cases cs rule: remdups_adj.cases) (simp_all del: if_split add: if_not_P)
      then show ?thesis ..
    qed
  next
    case 4
    show ?thesis
    proof (cases "\<exists>c1 c2 c3 r. cs = c1 # c2 # c3 # r \<and> cont ?lo4 ?hi4 c1 \<and> cont 128 191 c2 \<and> cont 128 191 c3")
      case True
      then obtain c1 c2 c3 r where
        "cs = c1 # c2 # c3 # r" "cont ?lo4 ?hi4 c1" "cont 128 191 c2" "cont 128 191 c3" by blast
      with 4 show ?thesis by (simp del: if_split)
    next
      case False
      consider "cs = []" | c1 where "cs = [c1]" | c1 c2 where "cs = [c1, c2]" | c1 c2 c3 r where "cs = c1 # c2 # c3 # r"
        by (metis list.exhaust)
      then have "decode_rune (c0 # cs) = (rune_error, 1)"
        using 4 False by cases (simp_all del: if_split add: if_not_P)
      then show ?thesis ..
    qed
  qed
qed

lemma json_string_rune:
  assumes c: "128 \<le> code c"
  shows "json_string (escape_rune (fst (decode_rune (c # s))) (take (snd (decode_rune (c # s))) (c # s)) @ rest) =
    map_option (apfst (\<lambda>v. encode_rune (fst (decode_rune (c # s))) @ v)) (json_string rest)"
proof -
  let ?r = "fst (decode_rune (c # s))" and ?w = "snd (decode_rune (c # s))"
  have len: "length (take ?w (c # s)) = ?w"
    using decode_rune_take [OF c, of s "[]"] by (auto simp del: decode_rune.simps)
  consider "?r = rune_error" "?w = 1" | "1 < ?w" "?r = 0x2028 \<or> ?r = 0x2029"
    | "1 < ?w" "\<not> (?r = 0x2028 \<or> ?r = 0x2029)"
    using decode_rune_take [OF c, of s "[]"] by fastforce
  then show ?thesis
  proof cases
    case 1
    have "unicode_escape (CHR ''f'' # CHR ''f'' # CHR ''f'' # CHR ''d'' # rest) = Some (rune_error, rest)"
      by (simp add: unicode_escape_def hex4_def is_surrogate_def rune_error_def)
    moreover have "escape_rune ?r (take ?w (c # s)) =
        [CHR 0x5C, CHR ''u'', CHR ''f'', CHR ''f'', CHR ''f'', CHR ''d'']"
      using 1 len by (simp only: escape_rune_def simp_thms if_True)
    ultimately show ?thesis using 1 by (simp del: decode_rune.simps)
  next
    case 2
    then have h: "unicode_escape (CHR ''2'' # CHR ''0'' # CHR ''2'' # hex_char (?r mod 16) # rest) = Some (?r, rest)"
      by (auto simp: unicode_escape_def hex4_def is_surrogate_def simp del: decode_rune.simps)
    have "escape_rune ?r (take ?w (c # s)) = [CHR 0x5C, CHR ''u'', CHR ''2'', CHR ''0'', CHR ''2'', hex_char (?r mod 16)]"
      using 2 len by (auto simp: escape_rune_def simp del: decode_rune.simps)
    with h show ?thesis by (simp del: decode_rune.simps)
  next
    case 3
    then have esc: "escape_rune ?r (take ?w (c # s)) = take ?w (c # s)"
      using len by (auto simp: escape_rune_def simp del: decode_rune.simps)
    obtain k where k: "?w = Suc k" using 3 by (cases ?w) (simp_all del: decode_rune.simps)
    have dec: "decode_rune (c # take k s @ rest) = decode_rune (c # s)"
      using decode_rune_take [OF c, of s rest] 3 k by (auto simp del: decode_rune.simps)
    have ks: "length (take k s) = k" using len k by (simp del: decode_rune.simps)
    have ne: "c \<noteq> CHR 0x22" "c \<noteq> CHR 0x5C" "\<not> code c < 32" using c by auto
    have "json_string (c # take k s @ rest) =
        map_option (apfst (\<lambda>v. encode_rune ?r @ v)) (json_string (drop k (take k s @ rest)))"
      using ne dec k by (simp del: decode_rune.simps)
    then show ?thesis using esc k ks by (simp del: decode_rune.simps)
  qed
qed

lemma json_string_escape: "json_string (escape_string s @ CHR 0x22 # t) = Some (as_utf8 s, t)"
proof (induction s rule: escape_string.induct)
  case 1
  then show ?case by (simp add: as_utf8_def)
next
  case (2 c s)
  show ?case
  proof (cases "code c < 128")
    case True
    with 2 show ?thesis by (simp add: json_string_ascii as_utf8_def)
  next
    case False
    let ?w = "snd (decode_rune (c # s))"
    have "json_string (escape_string (c # s) @ CHR 0x22 # t) =
        map_option (apfst (\<lambda>v. encode_rune (fst (decode_rune (c # s))) @ v))
          (json_string (escape_string (drop (?w - 1) s) @ CHR 0x22 # t))"
      using False json_string_rune [of c s "escape_string (drop (?w - 1) s) @ CHR 0x22 # t"]
      by (simp del: decode_rune.simps json_string.simps)
    with 2(2) [OF False] show ?thesis by (simp add: as_utf8_def del: decode_rune.simps json_string.simps)
  qed
qed

lemma json_element_quote: "json_element (quote_string s @ t) = Some (as_utf8 s, t)"
  by (simp add: json_element_def quote_string_def json_string_escape del: json_string.simps)

lemma skip_white_quote [simp]: "skip_white (quote_string s @ t) = quote_string s @ t"
  by (simp add: skip_white_def quote_string_def json_white_def)

lemma json_elements_marshal:
  "xs \<noteq> [] \<Longrightarrow> json_elements (comma_separated (map quote_string xs) @ CHR '']'' # t) = Some (map as_utf8 xs, t)"
proof (induction xs rule: comma_separated.induct)
  case (2 x)
  then show ?case
    by (subst json_elements.simps) (simp add: json_element_quote skip_white_def [of "CHR '']'' # t"] json_white_def)
next
  case (3 x y xs)
  let ?rest = "comma_separated (map quote_string (y # xs)) @ CHR '']'' # t"
  have "json_elements (quote_string x @ CHR '','' # ?rest) = map_option (apfst (Cons (as_utf8 x))) (json_elements ?rest)"
    by (subst json_elements.simps) (simp add: json_element_quote skip_white_def [of "CHR '','' # _"] json_white_def)
  with 3 show ?case by simp
qed simp

text \<open>The reader gives the strings back, as UTF-8.\<close>

lemma json_string_list_marshal: "json_string_list (marshal_strings xs) = Some (map as_utf8 xs)"
proof (cases xs)
  case Nil
  then show ?thesis by (simp add: marshal_strings_def json_string_list_def skip_white_def json_white_def)
next
  case (Cons x ys)
  have white: "skip_white (CHR ''['' # s) = CHR ''['' # s" for s by (simp add: skip_white_def json_white_def)
  have "hd (comma_separated (map quote_string xs) @ u) = CHR 0x22 \<and> comma_separated (map quote_string xs) \<noteq> []" for u
    using Cons by (cases ys) (simp_all add: quote_string_def)
  then obtain v where v: "comma_separated (map quote_string xs) @ [CHR '']''] = CHR 0x22 # v"
    by (metis append_is_Nil_conv list.exhaust_sel)
  have "\<not> has_prefix (skip_white (comma_separated (map quote_string xs) @ [CHR '']''])) '']''"
    unfolding v by (simp add: skip_white_def json_white_def)
  with Cons json_elements_marshal [of xs "[]"] show ?thesis
    by (simp add: marshal_strings_def json_string_list_def white) (simp add: skip_white_def)
qed

end
