(* ===== verification/DiscoveryAgones.thy ===== *)
theory DiscoveryAgones
  imports DiscoveryKubernetes GoMarshal "HOL-Library.AList"
begin

text \<open>
  \<^verbatim>\<open>internal/discovery/agones.go\<close>: backends from the game servers of Agones, observed or allocated one
  at a time. A game server is an untyped object; the functions that read a nested field of one
  (\<^verbatim>\<open>unstructured.NestedMap\<close>, \<^verbatim>\<open>NestedSlice\<close>, \<^verbatim>\<open>NestedString\<close>) belong to Kubernetes and are arguments,
  the record \<open>accessors\<close>. Times are nanoseconds.
\<close>

section \<open>Untyped objects\<close>

text \<open>The dynamic types of an \<open>interface{}\<close> value. A map lists its entries in the order of iteration.\<close>

datatype any_value =
    VNil | VBool bool | VInt int | VFloat f64 | VString string
  | VSlice "any_value list" | VMap "(string \<times> any_value) list"

text \<open>A \<open>map[string]interface{}\<close>, which may be nil.\<close>

type_synonym obj = "(string \<times> any_value) list option"

definition obj_get :: "obj \<Rightarrow> string \<Rightarrow> any_value option" where
  "obj_get m k = (case m of None \<Rightarrow> None | Some kvs \<Rightarrow> map_of kvs k)"

definition as_map :: "any_value \<Rightarrow> obj" where
  "as_map v = (case v of VMap kvs \<Rightarrow> Some kvs | _ \<Rightarrow> None)"

definition as_string :: "any_value option \<Rightarrow> string" where
  "as_string v = (case v of Some (VString s) \<Rightarrow> s | _ \<Rightarrow> [])"

record accessors =
  nested_map :: "obj \<Rightarrow> string \<Rightarrow> obj"
  nested_slice :: "obj \<Rightarrow> string \<Rightarrow> any_value list"
  nested_string :: "obj \<Rightarrow> string \<Rightarrow> string"

text \<open>\<open>int(f)\<close>: truncation, and the value the conversion gives on amd64 when that is out of range.\<close>

definition int_of_f64 :: "f64 \<Rightarrow> int" where
  "int_of_f64 x =
     (case x of
        Fin q \<Rightarrow> let n = (if 0 \<le> q then \<lfloor>q\<rfloor> else \<lceil>q\<rceil>) in if int64_range n then n else - (2 ^ 63)
      | _ \<Rightarrow> - (2 ^ 63))"

definition to_int :: "any_value option \<Rightarrow> int" where
  "to_int v =
     (case v of
        Some (VInt n) \<Rightarrow> n
      | Some (VFloat x) \<Rightarrow> int_of_f64 x
      | Some (VString s) \<Rightarrow> fst (atoi s)
      | _ \<Rightarrow> 0)"

text \<open>
  \<open>fmt.Sprint\<close> of a value; the shortest decimal text of a float is the argument \<open>float_text\<close>. Maps are
  printed in the order of their keys.
\<close>

fun join_words :: "string list \<Rightarrow> string" where
  "join_words [] = []"
| "join_words [w] = w"
| "join_words (w # v # ws) = w @ '' '' @ join_words (v # ws)"

fun sprint :: "(f64 \<Rightarrow> string) \<Rightarrow> any_value \<Rightarrow> string" where
  "sprint float_text VNil = ''<nil>''"
| "sprint float_text (VBool b) = (if b then ''true'' else ''false'')"
| "sprint float_text (VInt n) = itoa n"
| "sprint float_text (VFloat x) = float_text x"
| "sprint float_text (VString s) = s"
| "sprint float_text (VSlice vs) = ''['' @ join_words (map (sprint float_text) vs) @ '']''"
| "sprint float_text (VMap kvs) =
     ''map['' @ join_words (map (\<lambda>(k, t). k @ '':'' @ t)
        (sort_key fst (map (\<lambda>kv. (fst kv, sprint float_text (snd kv))) kvs))) @ '']''"

section \<open>Address and port\<close>

text \<open>The loop over the addresses: the last address of each type, and the types as they first occur.\<close>

definition add_address :: "any_value \<Rightarrow> (string \<rightharpoonup> string) \<times> string list \<Rightarrow> (string \<rightharpoonup> string) \<times> string list" where
  "add_address a acc =
     (case as_map a of
        None \<Rightarrow> acc
      | Some m \<Rightarrow>
        let t = trim_space (as_string (obj_get (Some m) ''type''));
            v = trim_space (as_string (obj_get (Some m) ''address''))
        in if t = [] \<or> v = [] then acc
           else (case acc of (by_type, order) \<Rightarrow>
             (by_type(t \<mapsto> v), if by_type t = None then order @ [t] else order)))"

fun preferred_address :: "(string \<rightharpoonup> string) \<Rightarrow> string list \<Rightarrow> string option" where
  "preferred_address by_type [] = None"
| "preferred_address by_type (t0 # ts) =
     (let t = trim_space t0 in
      if t = [] then preferred_address by_type ts
      else (case by_type t of
          Some v \<Rightarrow> if v \<noteq> [] then Some v else preferred_address by_type ts
        | None \<Rightarrow> preferred_address by_type ts))"

fun first_address :: "(string \<rightharpoonup> string) \<Rightarrow> string list \<Rightarrow> string option" where
  "first_address by_type [] = None"
| "first_address by_type (t # ts) =
     (case by_type t of
        Some v \<Rightarrow> if v \<noteq> [] then Some v else first_address by_type ts
      | None \<Rightarrow> first_address by_type ts)"

definition pick_address :: "string \<Rightarrow> string list \<Rightarrow> string \<Rightarrow> any_value list \<Rightarrow> string" where
  "pick_address source pref addr addrs =
     (case fold add_address addrs (Map.empty, []) of (by_type, order) \<Rightarrow>
        (case preferred_address by_type pref of
           Some v \<Rightarrow> v
         | None \<Rightarrow>
           (case (if source = ''addresses'' then first_address by_type order else None) of
              Some v \<Rightarrow> v | None \<Rightarrow> addr)))"

definition resolve_agones_address :: "accessors \<Rightarrow> obj \<Rightarrow> agones_discovery \<Rightarrow> string" where
  "resolve_agones_address acc status cfg =
     (if status = None then []
      else
        let addr = nested_string acc status ''address'';
            source0 = (case ad_address cfg of None \<Rightarrow> [] | Some a \<Rightarrow> to_lower (trim_space (aa_source a)));
            pref = (case ad_address cfg of None \<Rightarrow> [] | Some a \<Rightarrow> aa_preference a);
            source = (if source0 = [] then ''addresses'' else source0)
        in if source0 = [] \<and> length pref = 0 then addr
           else if source = ''address'' then addr
           else if length (nested_slice acc status ''addresses'') = 0 then addr
           else pick_address source pref addr (nested_slice acc status ''addresses''))"

fun scan_ports :: "string \<Rightarrow> any_value list \<Rightarrow> int" where
  "scan_ports want [] = 0"
| "scan_ports want (p # ps) =
     (case as_map p of
        None \<Rightarrow> scan_ports want ps
      | Some m \<Rightarrow>
        let name = as_string (obj_get (Some m) ''name''); port = to_int (obj_get (Some m) ''port'') in
        if want \<noteq> [] then (if name = want \<and> 0 < port then port else scan_ports want ps)
        else if 0 < port then port
        else scan_ports want ps)"

definition resolve_agones_ports :: "any_value list \<Rightarrow> k8s_port \<Rightarrow> int" where
  "resolve_agones_ports ports cfg =
     (if 0 < kp_number cfg then kp_number cfg else scan_ports (trim_space (kp_name cfg)) ports)"

section \<open>A game server as a backend\<close>

record game_server =
  gs_namespace :: string
  gs_name :: string
  gs_labels :: string_map
  gs_annotations :: string_map
  gs_object :: obj

text \<open>The counters and the lists of the status become metadata.\<close>

definition add_counter :: "(f64 \<Rightarrow> string) \<Rightarrow> string \<times> any_value \<Rightarrow> (string \<rightharpoonup> string) \<Rightarrow> (string \<rightharpoonup> string)" where
  "add_counter float_text kv meta =
     (case as_map (snd kv) of
        None \<Rightarrow> meta
      | Some m \<Rightarrow>
        let m1 = (case obj_get (Some m) ''count'' of
              None \<Rightarrow> meta
            | Some c \<Rightarrow> meta(''counter.'' @ fst kv @ ''.count'' \<mapsto> sprint float_text c))
        in (case obj_get (Some m) ''capacity'' of
              None \<Rightarrow> m1
            | Some c \<Rightarrow> m1(''counter.'' @ fst kv @ ''.capacity'' \<mapsto> sprint float_text c)))"

definition strings_of :: "any_value list \<Rightarrow> string list" where
  "strings_of vs = List.map_filter (\<lambda>v. case v of VString s \<Rightarrow> Some s | _ \<Rightarrow> None) vs"

definition add_list ::
  "accessors \<Rightarrow> (f64 \<Rightarrow> string) \<Rightarrow> string \<times> any_value \<Rightarrow> (string \<rightharpoonup> string) \<Rightarrow> (string \<rightharpoonup> string)"
where
  "add_list acc float_text kv meta =
     (case as_map (snd kv) of
        None \<Rightarrow> meta
      | Some m \<Rightarrow>
        let vals = nested_slice acc (Some m) ''values'';
            m1 = (if 0 < length vals then meta(''list.'' @ fst kv @ ''.values'' \<mapsto> marshal_strings (strings_of vals))
                  else meta)
        in (case obj_get (Some m) ''capacity'' of
              None \<Rightarrow> m1
            | Some c \<Rightarrow> m1(''list.'' @ fst kv @ ''.capacity'' \<mapsto> sprint float_text c)))"

definition entries :: "obj \<Rightarrow> (string \<times> any_value) list" where
  "entries m = (case m of None \<Rightarrow> [] | Some kvs \<Rightarrow> kvs)"

definition append_agones_lists ::
  "accessors \<Rightarrow> (f64 \<Rightarrow> string) \<Rightarrow> obj \<Rightarrow> (string \<rightharpoonup> string) \<Rightarrow> (string \<rightharpoonup> string)"
where
  "append_agones_lists acc float_text status meta =
     (if status = None then meta
      else fold (add_list acc float_text) (entries (nested_map acc status ''lists'')) meta)"

definition copy_weight :: "string \<Rightarrow> string_map \<Rightarrow> (string \<rightharpoonup> string) \<Rightarrow> (string \<rightharpoonup> string)" where
  "copy_weight key m meta =
     (if map_get m ''hyrouter/weight'' \<noteq> [] then meta(key \<mapsto> map_get m ''hyrouter/weight'') else meta)"

definition game_server_meta ::
  "accessors \<Rightarrow> (f64 \<Rightarrow> string) \<Rightarrow> agones_discovery \<Rightarrow> game_server \<Rightarrow> obj \<Rightarrow> string \<Rightarrow> (string \<rightharpoonup> string)"
where
  "game_server_meta acc float_text cfg u status state =
     (let m1 = (fill_k8s_meta (gs_namespace u) (gs_name u) [] Map.empty)(''gameserver.state'' \<mapsto> state);
          m2 = copy_weight ''annotation.hyrouter/weight'' (gs_annotations u)
                 (copy_weight ''label.hyrouter/weight'' (gs_labels u) m1);
          m3 = fold (add_counter float_text) (entries (nested_map acc status ''counters'')) m2;
          m4 = copy_selected_annotations (gs_annotations u) (km_annotations (ad_metadata cfg))
                 (copy_selected_labels (gs_labels u) (km_labels (ad_metadata cfg)) m3)
      in append_agones_lists acc float_text status m4)"

definition to_backend ::
  "accessors \<Rightarrow> (f64 \<Rightarrow> string) \<Rightarrow> agones_discovery \<Rightarrow> string set \<Rightarrow> game_server \<Rightarrow> backend option"
where
  "to_backend acc float_text cfg allowed u =
     (let status = nested_map acc (gs_object u) ''status'';
          state = nested_string acc status ''state'';
          lower = to_lower (trim_space state)
      in if lower = ''shutdown'' then None
         else if allowed \<noteq> {} \<and> lower \<notin> allowed then None
         else
           let addr = resolve_agones_address acc status cfg;
               port = resolve_agones_ports (nested_slice acc status ''ports'') (ad_port cfg)
           in if addr = [] \<or> port = 0 then None
              else Some \<lparr>b_host = addr, b_port = port, b_weight = 0,
                b_meta = game_server_meta acc float_text cfg u status state\<rparr>)"

section \<open>The snapshot\<close>

definition allowed_namespaces :: "agones_discovery \<Rightarrow> string set" where
  "allowed_namespaces cfg = set (filter (\<lambda>ns. ns \<noteq> []) (map trim_space (ad_namespaces cfg)))"

definition allowed_states :: "agones_discovery \<Rightarrow> string set" where
  "allowed_states cfg =
     (let sts = set (filter (\<lambda>st. st \<noteq> []) (map (\<lambda>st. to_lower (trim_space st)) (ad_state cfg))) in
      if sts = {} then {''ready''} else sts)"

text \<open>An entry of the store that is not an \<open>Unstructured\<close> object is \<open>None\<close>.\<close>

definition observed_backend ::
  "accessors \<Rightarrow> (f64 \<Rightarrow> string) \<Rightarrow> agones_discovery \<Rightarrow> game_server option \<Rightarrow> backend option"
where
  "observed_backend acc float_text cfg entry =
     (case entry of
        None \<Rightarrow> None
      | Some u \<Rightarrow>
        if allowed_namespaces cfg \<noteq> {} \<and> gs_namespace u \<notin> allowed_namespaces cfg then None
        else if (case ad_selector cfg of None \<Rightarrow> False
                 | Some s \<Rightarrow> \<not> annotations_match (gs_annotations u) (sel_annotations s)) then None
        else map_option apply_weight (to_backend acc float_text cfg (allowed_states cfg) u))"

definition agones_backends ::
  "accessors \<Rightarrow> (f64 \<Rightarrow> string) \<Rightarrow> agones_discovery \<Rightarrow> game_server option list \<Rightarrow> backend list"
where
  "agones_backends acc float_text cfg store = List.map_filter (observed_backend acc float_text cfg) store"

section \<open>The provider\<close>

record agones_provider =
  ap_name :: string
  ap_cfg :: agones_discovery
  ap_client :: bool
  ap_informer :: bool
  ap_snapshot :: "backend list"
  ap_next :: "int option"
  ap_started :: bool
  ap_error :: "discovery_error option"

definition new_agones_provider :: "string \<Rightarrow> agones_discovery option \<Rightarrow> discovery_error + agones_provider" where
  "new_agones_provider name cfg =
     (case cfg of
        None \<Rightarrow> Inl (ConfigMissing name)
      | Some c \<Rightarrow> Inr \<lparr>ap_name = name, ap_cfg = c, ap_client = False, ap_informer = False, ap_snapshot = [],
          ap_next = None, ap_started = False, ap_error = None\<rparr>)"

definition agones_rebuild ::
  "accessors \<Rightarrow> (f64 \<Rightarrow> string) \<Rightarrow> game_server option list \<Rightarrow> agones_provider \<Rightarrow> agones_provider"
where
  "agones_rebuild acc float_text store p =
     (if \<not> ap_informer p then p else p\<lparr>ap_snapshot := agones_backends acc float_text (ap_cfg p) store\<rparr>)"

definition agones_rest_config ::
  "(string \<Rightarrow> string + 'c) \<Rightarrow> (string + 'c) \<Rightarrow> (string + 'c) \<Rightarrow> string \<Rightarrow> string + 'c"
where
  "agones_rest_config from_file in_cluster by_rules kubeconfig0 =
     (let kubeconfig = trim_space kubeconfig0 in
      if kubeconfig \<noteq> [] then from_file kubeconfig
      else (case in_cluster of Inr c \<Rightarrow> Inr c | Inl _ \<Rightarrow> by_rules))"

text \<open>
  The body of \<open>Start\<close>: the client is set before the selector is parsed. \<open>parse_labels\<close> answers whether
  \<open>labels.Parse\<close> accepts an expression.
\<close>

definition agones_selector_ok :: "(string \<Rightarrow> bool) \<Rightarrow> agones_discovery \<Rightarrow> bool" where
  "agones_selector_ok labels_ok cfg =
     (case ad_selector cfg of
        None \<Rightarrow> True
      | Some s \<Rightarrow> let selector = trim_space (sel_labels s) in selector = [] \<or> labels_ok selector)"

definition agones_connect ::
  "(string \<Rightarrow> string + 'c) \<Rightarrow> ('c \<Rightarrow> string option) \<Rightarrow> agones_provider \<Rightarrow> discovery_error option"
where
  "agones_connect rest new_client p =
     (case rest (ad_kubeconfig (ap_cfg p)) of
        Inl e \<Rightarrow> Some (ConnectFailed e)
      | Inr c \<Rightarrow> map_option ConnectFailed (new_client c))"

definition agones_start ::
  "accessors \<Rightarrow> (f64 \<Rightarrow> string) \<Rightarrow> (string \<Rightarrow> bool) \<Rightarrow> (string \<Rightarrow> string + 'c) \<Rightarrow> ('c \<Rightarrow> string option) \<Rightarrow> bool \<Rightarrow>
   game_server option list \<Rightarrow> agones_provider \<Rightarrow> discovery_error option \<times> agones_provider"
where
  "agones_start acc float_text labels_ok rest new_client synced store p =
     (let p' =
        (if ap_started p then p
         else let q = p\<lparr>ap_started := True\<rparr> in
           (case agones_connect rest new_client q of
              Some e \<Rightarrow> q\<lparr>ap_error := Some e\<rparr>
            | None \<Rightarrow>
              let q = q\<lparr>ap_client := True\<rparr> in
              if \<not> agones_selector_ok labels_ok (ap_cfg q) then q\<lparr>ap_error := Some (SelectorInvalid (ap_name q))\<rparr>
              else
                let q = q\<lparr>ap_informer := True\<rparr> in
                if \<not> synced then q\<lparr>ap_error := Some (SyncFailed (ap_name q))\<rparr>
                else agones_rebuild acc float_text store q))
      in (ap_error p', p'))"

section \<open>Allocation\<close>

text \<open>\<open>None\<close> for no limit.\<close>

definition allocate_min_interval :: "agones_provider \<Rightarrow> discovery_error + int option" where
  "allocate_min_interval p =
     (let v = trim_space (ad_min_interval (ap_cfg p)) in
      if v = [] then Inr None
      else (case parse_duration v of
          None \<Rightarrow> Inl (IntervalInvalid (ap_name p))
        | Some d \<Rightarrow> if d \<le> 0 then Inr None else Inr (Some d)))"

text \<open>How long to wait from \<open>now\<close>, and the provider with its next slot. A difference of times saturates.\<close>

definition time_sub :: "int \<Rightarrow> int \<Rightarrow> int" where
  "time_sub t u = max (- (2 ^ 63)) (min (2 ^ 63 - 1) (t - u))"

definition reserve_allocate_slot :: "int \<Rightarrow> int \<Rightarrow> agones_provider \<Rightarrow> int \<times> agones_provider" where
  "reserve_allocate_slot min_interval now p =
     (case ap_next p of
        Some t \<Rightarrow>
          if now < t then (time_sub t now, p\<lparr>ap_next := Some (t + min_interval)\<rparr>)
          else (0, p\<lparr>ap_next := Some (now + min_interval)\<rparr>)
      | None \<Rightarrow> (0, p\<lparr>ap_next := Some (now + min_interval)\<rparr>))"

definition add_label :: "string \<Rightarrow> (string \<times> any_value) list \<Rightarrow> (string \<times> any_value) list" where
  "add_label p0 out =
     (let p = trim_space p0 in
      if p = [] then out
      else (case split2 (CHR ''='') p of
          [k0, v0] \<Rightarrow>
            let k = trim_space k0; v = trim_space v0 in
            if k = [] then out else AList.update k (VString v) out
        | _ \<Rightarrow> out))"

definition parse_label_equals_map :: "string \<Rightarrow> (string \<times> any_value) list" where
  "parse_label_equals_map s0 =
     (let s = trim_space s0 in if s = [] then [] else fold add_label (split_on (CHR '','') s) [])"

text \<open>The object the server is asked to create.\<close>

definition allocation_object :: "string \<Rightarrow> (string \<times> any_value) list \<Rightarrow> (string \<times> any_value) list" where
  "allocation_object state labels =
     [(''apiVersion'', VString ''allocation.agones.dev/v1''),
      (''kind'', VString ''GameServerAllocation''),
      (''metadata'', VMap [(''generateName'', VString ''hyrouter-'')]),
      (''spec'', VMap [
        (''gameServerState'', VString state),
        (''required'', VMap [(''matchLabels'', VMap labels)])])]"

text \<open>
  \<open>ended wait\<close> is the error of the context if it ends within the wait; \<open>create\<close> asks the cluster, in a
  namespace, for an object and answers its name and content.
\<close>

definition allocated_backend :: "accessors \<Rightarrow> agones_discovery \<Rightarrow> string \<Rightarrow> string \<times> obj \<Rightarrow> discovery_error + backend list" where
  "allocated_backend acc cfg ns created =
     (let status = nested_map acc (snd created) ''status'';
          addr = resolve_agones_address acc status cfg;
          port = resolve_agones_ports (nested_slice acc status ''ports'') (ad_port cfg)
      in if addr = [] \<or> port = 0 then Inl AllocationEmpty
         else Inr [\<lparr>b_host = addr, b_port = port, b_weight = 0, b_meta = fill_k8s_meta ns (fst created) [] Map.empty\<rparr>])"

definition allocate_now ::
  "accessors \<Rightarrow> (string \<Rightarrow> (string \<times> any_value) list \<Rightarrow> string + string \<times> obj) \<Rightarrow> agones_discovery \<Rightarrow>
   discovery_error + backend list"
where
  "allocate_now acc create cfg =
     (let ns = (if 0 < length (ad_namespaces cfg) then ad_namespaces cfg ! 0 else ''default'');
          state = (if 0 < length (ad_state cfg) then ad_state cfg ! 0 else ''Ready'');
          labels = (case ad_selector cfg of None \<Rightarrow> parse_label_equals_map []
            | Some s \<Rightarrow> parse_label_equals_map (sel_labels s))
      in (case create ns (allocation_object state labels) of
            Inl e \<Rightarrow> Inl (CreateFailed e)
          | Inr created \<Rightarrow> allocated_backend acc cfg ns created))"

definition agones_allocate ::
  "accessors \<Rightarrow> (string \<Rightarrow> (string \<times> any_value) list \<Rightarrow> string + string \<times> obj) \<Rightarrow> (int \<Rightarrow> string option) \<Rightarrow> int \<Rightarrow>
   agones_provider \<Rightarrow> (discovery_error + backend list) \<times> agones_provider"
where
  "agones_allocate acc create ended now p =
     (if \<not> ap_client p then (Inl (NotStarted (ap_name p)), p)
      else (case allocate_min_interval p of
          Inl e \<Rightarrow> (Inl e, p)
        | Inr None \<Rightarrow> (allocate_now acc create (ap_cfg p), p)
        | Inr (Some d) \<Rightarrow>
          (case reserve_allocate_slot d now p of
             (wait, p') \<Rightarrow>
               if 0 < wait \<and> ended wait \<noteq> None then (Inl (ContextEnded (the (ended wait))), p')
               else (allocate_now acc create (ap_cfg p), p'))))"

definition agones_resolve ::
  "accessors \<Rightarrow> (string \<Rightarrow> (string \<times> any_value) list \<Rightarrow> string + string \<times> obj) \<Rightarrow> (int \<Rightarrow> string option) \<Rightarrow> int \<Rightarrow>
   agones_provider \<Rightarrow> (discovery_error + backend list) \<times> agones_provider"
where
  "agones_resolve acc create ended now p =
     (let mode = to_lower (trim_space (ad_mode (ap_cfg p))) in
      if mode = [] \<or> mode = ''observe'' then (Inr (ap_snapshot p), p)
      else if mode \<noteq> ''allocate'' then (Inl (UnknownMode (ap_name p)), p)
      else agones_allocate acc create ended now p)"

end
