(* ===== verification/DiscoveryManager.thy ===== *)
theory DiscoveryManager
  imports DiscoveryAgones
begin

text \<open>
  \<^verbatim>\<open>internal/discovery/manager.go\<close>: the providers by name. What the providers see of the outside (the
  client libraries, the caches, the clock) is the record \<open>cluster\<close>, one value for each call.
\<close>

section \<open>The outside\<close>

record 'c cluster =
  cl_parse_labels :: "string \<Rightarrow> label_selector option"
  cl_rest :: "string \<Rightarrow> string + 'c"
  cl_k8s_client :: "'c \<Rightarrow> string option"
  cl_dynamic_client :: "'c \<Rightarrow> string option"
  cl_synced :: "string \<Rightarrow> bool"
  cl_cache :: "string \<Rightarrow> k8s_cache"
  cl_store :: "string \<Rightarrow> game_server option list"
  cl_accessors :: accessors
  cl_float_text :: "f64 \<Rightarrow> string"
  cl_create :: "string \<Rightarrow> (string \<times> any_value) list \<Rightarrow> string + string \<times> obj"
  cl_ended :: "int \<Rightarrow> string option"
  cl_now :: int

definition labels_parse :: "'c cluster \<Rightarrow> string \<Rightarrow> bool" where
  "labels_parse w s = (cl_parse_labels w s \<noteq> None)"

section \<open>Providers\<close>

text \<open>The interface \<open>Provider\<close> and its two implementations.\<close>

datatype provider = KubernetesP k8s_provider | AgonesP agones_provider

definition start_provider :: "'c cluster \<Rightarrow> provider \<Rightarrow> discovery_error option \<times> provider" where
  "start_provider w p =
     (case p of
        KubernetesP k \<Rightarrow> apsnd KubernetesP
          (k8s_start (cl_parse_labels w) (cl_rest w) (cl_k8s_client w) (cl_synced w (kpr_name k))
             (cl_cache w (kpr_name k)) k)
      | AgonesP a \<Rightarrow> apsnd AgonesP
          (agones_start (cl_accessors w) (cl_float_text w) (labels_parse w) (cl_rest w) (cl_dynamic_client w)
             (cl_synced w (ap_name a)) (cl_store w (ap_name a)) a))"

definition resolve_provider :: "'c cluster \<Rightarrow> provider \<Rightarrow> (discovery_error + backend list) \<times> provider" where
  "resolve_provider w p =
     (case p of
        KubernetesP k \<Rightarrow> (k8s_resolve k, p)
      | AgonesP a \<Rightarrow> apsnd AgonesP (agones_resolve (cl_accessors w) (cl_create w) (cl_ended w) (cl_now w) a))"

text \<open>An event of an informer, or the timer.\<close>

definition rebuild_provider :: "'c cluster \<Rightarrow> provider \<Rightarrow> provider" where
  "rebuild_provider w p =
     (case p of
        KubernetesP k \<Rightarrow> KubernetesP (k8s_rebuild (cl_parse_labels w) (cl_cache w (kpr_name k)) k)
      | AgonesP a \<Rightarrow> AgonesP (agones_rebuild (cl_accessors w) (cl_float_text w) (cl_store w (ap_name a)) a))"

section \<open>The manager\<close>

record manager =
  mgr_providers :: "string \<rightharpoonup> provider"
  mgr_started :: bool
  mgr_error :: "discovery_error option"

definition normalize_type :: "string \<Rightarrow> string" where
  "normalize_type t = to_lower (trim_space t)"

definition new_provider :: "nat \<Rightarrow> discovery_provider \<Rightarrow> discovery_error + provider" where
  "new_provider i p =
     (let t = normalize_type (dp_type p) in
      if t = ''kubernetes'' then
        (case new_kubernetes_provider (dp_name p) (dp_kubernetes p) of Inl e \<Rightarrow> Inl e | Inr k \<Rightarrow> Inr (KubernetesP k))
      else if t = ''agones'' then
        (case new_agones_provider (dp_name p) (dp_agones p) of Inl e \<Rightarrow> Inl e | Inr a \<Rightarrow> Inr (AgonesP a))
      else Inl (EntryTypeBad i))"

fun add_providers :: "nat \<Rightarrow> discovery_provider list \<Rightarrow> (string \<rightharpoonup> provider) \<Rightarrow> discovery_error + (string \<rightharpoonup> provider)" where
  "add_providers i [] m = Inr m"
| "add_providers i (p # ps) m =
     (if dp_name p = [] then Inl (EntryNameEmpty i)
      else if m (dp_name p) \<noteq> None then Inl (EntryNameTaken i)
      else (case new_provider i p of
          Inl e \<Rightarrow> Inl e
        | Inr v \<Rightarrow> add_providers (Suc i) ps (m(dp_name p \<mapsto> v))))"

definition new_manager :: "discovery_provider list option \<Rightarrow> discovery_error + manager" where
  "new_manager cfg =
     (case (case cfg of None \<Rightarrow> Inr Map.empty | Some ps \<Rightarrow> add_providers 0 ps Map.empty) of
        Inl e \<Rightarrow> Inl e
      | Inr m \<Rightarrow> Inr \<lparr>mgr_providers = m, mgr_started = False, mgr_error = None\<rparr>)"

text \<open>\<open>Start\<close>, which acts once; \<open>order\<close> are the keys of the map in the order of the iteration.\<close>

fun start_providers ::
  "'c cluster \<Rightarrow> string list \<Rightarrow> (string \<rightharpoonup> provider) \<Rightarrow> discovery_error option \<times> (string \<rightharpoonup> provider)"
where
  "start_providers w [] m = (None, m)"
| "start_providers w (n # ns) m =
     (case m n of
        None \<Rightarrow> start_providers w ns m
      | Some p \<Rightarrow>
        (case start_provider w p of
           (Some e, p') \<Rightarrow> (Some (StartFailed n e), m(n \<mapsto> p'))
         | (None, p') \<Rightarrow> start_providers w ns (m(n \<mapsto> p'))))"

definition manager_start :: "'c cluster \<times> string list \<Rightarrow> manager \<Rightarrow> discovery_error option \<times> manager" where
  "manager_start wo m =
     (let m' =
        (if mgr_started m then m
         else case start_providers (fst wo) (snd wo) (mgr_providers m) of
           (e, ps) \<Rightarrow> m\<lparr>mgr_providers := ps, mgr_started := True, mgr_error := e\<rparr>)
      in (mgr_error m', m'))"

text \<open>\<open>Resolve\<close>: \<open>None\<close> for a name without a provider.\<close>

definition manager_resolve :: "'c cluster \<Rightarrow> string \<Rightarrow> manager \<Rightarrow> (discovery_error + backend list) option \<times> manager" where
  "manager_resolve w name m =
     (case mgr_providers m name of
        None \<Rightarrow> (None, m)
      | Some p \<Rightarrow>
        (case resolve_provider w p of
           (r, p') \<Rightarrow> (Some r, m\<lparr>mgr_providers := (mgr_providers m)(name \<mapsto> p')\<rparr>)))"

definition manager_rebuild :: "'c cluster \<Rightarrow> string \<Rightarrow> manager \<Rightarrow> manager" where
  "manager_rebuild w name m =
     (case mgr_providers m name of
        None \<Rightarrow> m
      | Some p \<Rightarrow> m\<lparr>mgr_providers := (mgr_providers m)(name \<mapsto> rebuild_provider w p)\<rparr>)"

section \<open>Starting once\<close>

text \<open>
  What \<open>sync.Once\<close> and the remembered error promise: the first start decides, and every later one
  answers the same and changes nothing.
\<close>

locale start_once =
  fixes start :: "'w \<Rightarrow> 'p \<Rightarrow> 'e option \<times> 'p"
    and started :: "'p \<Rightarrow> bool"
    and failure :: "'p \<Rightarrow> 'e option"
  assumes start_failure: "fst (start w p) = failure (snd (start w p))"
    and start_started: "started (snd (start w p))"
    and start_again: "started p \<Longrightarrow> snd (start w p) = p"
begin

lemma start_idempotent: "start v (snd (start w p)) = start w p"
  by (simp add: prod_eq_iff start_again start_started start_failure)

lemma start_fold: "fold (\<lambda>v q. snd (start v q)) ws (snd (start w p)) = snd (start w p)"
  by (induction ws) (simp_all add: start_idempotent)

end

lemma k8s_start_laws:
  "fst (k8s_start parse rest client synced cache p) = kpr_error (snd (k8s_start parse rest client synced cache p))"
  "kpr_started (snd (k8s_start parse rest client synced cache p))"
  "kpr_started p \<Longrightarrow> snd (k8s_start parse rest client synced cache p) = p"
  by (auto simp: k8s_start_def k8s_rebuild_def Let_def split: option.splits)

lemma agones_start_laws:
  "fst (agones_start acc ft ok rest client synced store p) =
     ap_error (snd (agones_start acc ft ok rest client synced store p))"
  "ap_started (snd (agones_start acc ft ok rest client synced store p))"
  "ap_started p \<Longrightarrow> snd (agones_start acc ft ok rest client synced store p) = p"
  by (auto simp: agones_start_def agones_rebuild_def Let_def split: option.splits)

interpretation k8s_once: start_once "\<lambda>(parse, rest, client, synced, cache). k8s_start parse rest client synced cache"
  kpr_started kpr_error
  by unfold_locales (auto simp: k8s_start_laws)

interpretation agones_once: start_once
  "\<lambda>(acc, ft, ok, rest, client, synced, store). agones_start acc ft ok rest client synced store"
  ap_started ap_error
  by unfold_locales (auto simp: agones_start_laws)

definition provider_started :: "provider \<Rightarrow> bool" where
  "provider_started p = (case p of KubernetesP k \<Rightarrow> kpr_started k | AgonesP a \<Rightarrow> ap_started a)"

definition provider_error_of :: "provider \<Rightarrow> discovery_error option" where
  "provider_error_of p = (case p of KubernetesP k \<Rightarrow> kpr_error k | AgonesP a \<Rightarrow> ap_error a)"

interpretation provider_once: start_once start_provider provider_started provider_error_of
  by unfold_locales
    (simp_all add: start_provider_def provider_started_def provider_error_of_def k8s_start_laws agones_start_laws
      split: provider.splits)

interpretation manager_once: start_once manager_start mgr_started mgr_error
  by unfold_locales (auto simp: manager_start_def Let_def split: prod.splits)

end
