(* ===== verification/DiscoveryRun.thy ===== *)
theory DiscoveryRun
  imports DiscoveryManager
begin

text \<open>
  What the discovery manager can answer in a run: a step relation of starts, events and resolutions, and
  the invariant that a snapshot holds only backends computed from a state of the cluster that was seen.
\<close>

section \<open>Snapshots\<close>

text \<open>
  The contract between a provider and its informers: publishing replaces the snapshot by what the present
  state of the cluster offers, once the provider is active, and changes nothing else that matters.
\<close>

locale snapshot_source =
  fixes publish :: "'w \<Rightarrow> 'p \<Rightarrow> 'p"
    and active :: "'p \<Rightarrow> bool"
    and snapshot :: "'p \<Rightarrow> backend list"
    and offers :: "'w \<Rightarrow> 'p \<Rightarrow> backend list"
  assumes publish_snapshot: "snapshot (publish w p) = (if active p then offers w p else snapshot p)"
    and publish_active: "active (publish w p) = active p"
    and publish_offers: "offers v (publish w p) = offers v p"
begin

lemma fold_offers: "offers v (fold publish ws p) = offers v p"
  by (induction ws arbitrary: p) (simp_all add: publish_offers)

lemma fold_active: "active (fold publish ws p) = active p"
  by (induction ws arbitrary: p) (simp_all add: publish_active)

text \<open>The last event decides.\<close>

lemma last_event: "active p \<Longrightarrow> snapshot (fold publish (ws @ [w]) p) = offers w p"
  by (simp add: publish_snapshot fold_active fold_offers)

lemma snapshot_publish: "set (snapshot (publish w p)) \<subseteq> set (snapshot p) \<union> set (offers w p)"
  by (simp add: publish_snapshot)

end

definition provider_active :: "provider \<Rightarrow> bool" where
  "provider_active p = (case p of KubernetesP k \<Rightarrow> kpr_factory k | AgonesP a \<Rightarrow> ap_informer a)"

definition provider_snapshot :: "provider \<Rightarrow> backend list" where
  "provider_snapshot p = (case p of KubernetesP k \<Rightarrow> kpr_snapshot k | AgonesP a \<Rightarrow> ap_snapshot a)"

definition provider_offers :: "'c cluster \<Rightarrow> provider \<Rightarrow> backend list" where
  "provider_offers w p =
     (case p of
        KubernetesP k \<Rightarrow> k8s_backends (cl_parse_labels w) (kpr_cfg k) (cl_cache w (kpr_name k))
      | AgonesP a \<Rightarrow> agones_backends (cl_accessors w) (cl_float_text w) (ap_cfg a) (cl_store w (ap_name a)))"

text \<open>What never changes: the kind, the name and the configuration.\<close>

definition provider_identity :: "provider \<Rightarrow> string \<times> (k8s_discovery + agones_discovery)" where
  "provider_identity p =
     (case p of KubernetesP k \<Rightarrow> (kpr_name k, Inl (kpr_cfg k)) | AgonesP a \<Rightarrow> (ap_name a, Inr (ap_cfg a)))"

lemmas provider_defs = provider_active_def provider_snapshot_def provider_offers_def provider_identity_def

lemma offers_identity: "provider_identity p = provider_identity q \<Longrightarrow> provider_offers w p = provider_offers w q"
  by (auto simp: provider_identity_def provider_offers_def split: provider.splits)

interpretation published: snapshot_source rebuild_provider provider_active provider_snapshot provider_offers
  by unfold_locales
    (auto simp: provider_defs rebuild_provider_def k8s_rebuild_def agones_rebuild_def split: provider.splits)

lemma rebuild_identity [simp]: "provider_identity (rebuild_provider w p) = provider_identity p"
  by (auto simp: provider_identity_def rebuild_provider_def k8s_rebuild_def agones_rebuild_def split: provider.splits)

text \<open>A start publishes at most once.\<close>

lemma k8s_start_effect:
  "kpr_name (snd (k8s_start parse rest client synced cache k)) = kpr_name k \<and>
   kpr_cfg (snd (k8s_start parse rest client synced cache k)) = kpr_cfg k \<and>
   kpr_snapshot (snd (k8s_start parse rest client synced cache k)) \<in>
     {kpr_snapshot k, k8s_backends parse (kpr_cfg k) cache}"
  by (auto simp: k8s_start_def k8s_rebuild_def Let_def split: option.splits)

lemma agones_start_effect:
  "ap_name (snd (agones_start acc ft ok rest client synced store a)) = ap_name a \<and>
   ap_cfg (snd (agones_start acc ft ok rest client synced store a)) = ap_cfg a \<and>
   ap_snapshot (snd (agones_start acc ft ok rest client synced store a)) \<in>
     {ap_snapshot a, agones_backends acc ft (ap_cfg a) store}"
  by (auto simp: agones_start_def agones_rebuild_def Let_def split: option.splits)

lemma start_identity [simp]: "provider_identity (snd (start_provider w p)) = provider_identity p"
  by (simp add: provider_identity_def start_provider_def k8s_start_effect agones_start_effect split: provider.split)

lemma start_snapshot:
  "set (provider_snapshot (snd (start_provider w p))) \<subseteq> set (provider_snapshot p) \<union> set (provider_offers w p)"
proof (cases p)
  case (KubernetesP k)
  with k8s_start_effect [of "cl_parse_labels w" "cl_rest w" "cl_k8s_client w" "cl_synced w (kpr_name k)"
      "cl_cache w (kpr_name k)" k]
  show ?thesis by (auto simp: provider_defs start_provider_def)
next
  case (AgonesP a)
  with agones_start_effect [of "cl_accessors w" "cl_float_text w" "labels_parse w" "cl_rest w"
      "cl_dynamic_client w" "cl_synced w (ap_name a)" "cl_store w (ap_name a)" a]
  show ?thesis by (auto simp: provider_defs start_provider_def)
qed

lemma agones_allocate_keeps:
  "ap_name (snd (agones_allocate acc create ended now a)) = ap_name a"
  "ap_cfg (snd (agones_allocate acc create ended now a)) = ap_cfg a"
  "ap_snapshot (snd (agones_allocate acc create ended now a)) = ap_snapshot a"
  by (auto simp: agones_allocate_def reserve_allocate_slot_def Let_def split: sum.split option.split)

lemma resolve_keeps [simp]:
  "provider_identity (snd (resolve_provider w p)) = provider_identity p"
  "provider_snapshot (snd (resolve_provider w p)) = provider_snapshot p"
  by (auto simp: provider_defs resolve_provider_def agones_resolve_def Let_def agones_allocate_keeps
      split: provider.split)

section \<open>Runs\<close>

inductive manager_step :: "'c cluster \<Rightarrow> manager \<Rightarrow> manager \<Rightarrow> bool" where
  Starts: "manager_step w m (snd (manager_start (w, order) m))"
| Event: "manager_step w m (manager_rebuild w name m)"
| Resolves: "manager_step w m (snd (manager_resolve w name m))"

text \<open>The states of the cluster that were seen, the latest first.\<close>

inductive manager_reach :: "manager \<Rightarrow> 'c cluster list \<Rightarrow> manager \<Rightarrow> bool" for m0 where
  reach_init: "manager_reach m0 [] m0"
| reach_step: "manager_reach m0 ws m \<Longrightarrow> manager_step w m m' \<Longrightarrow> manager_reach m0 (w # ws) m'"

inductive_cases manager_stepE: "manager_step w m m'"

definition seen_only :: "(string \<rightharpoonup> provider) \<Rightarrow> 'c cluster list \<Rightarrow> (string \<rightharpoonup> provider) \<Rightarrow> bool" where
  "seen_only m0 ws m \<longleftrightarrow> (\<forall>n p. m n = Some p \<longrightarrow>
     (\<exists>p0. m0 n = Some p0 \<and> provider_identity p = provider_identity p0) \<and>
     set (provider_snapshot p) \<subseteq> (\<Union>w \<in> set ws. set (provider_offers w p)))"

lemma seen_onlyI:
  assumes "seen_only m0 ws m" "m n = Some p" "provider_identity p' = provider_identity p"
    and "set (provider_snapshot p') \<subseteq> set (provider_snapshot p) \<union> set (provider_offers w p)"
  shows "seen_only m0 (w # ws) (m(n \<mapsto> p'))"
proof -
  have snap: "set (provider_snapshot q) \<subseteq> (\<Union>v \<in> set (w # ws). set (provider_offers v q))"
    if "m k = Some q" for k q
    using assms(1) that unfolding seen_only_def by fastforce
  have "set (provider_snapshot p') \<subseteq> (\<Union>v \<in> set (w # ws). set (provider_offers v p'))"
    using snap [OF assms(2)] assms(4) by (auto simp: offers_identity [OF assms(3)])
  with assms(1-3) snap show ?thesis unfolding seen_only_def by simp
qed

lemma seen_only_more: "seen_only m0 ws m \<Longrightarrow> seen_only m0 (w # ws) m"
  by (fastforce simp: seen_only_def)

lemma seen_only_again: "seen_only m0 (w # w # ws) m \<Longrightarrow> seen_only m0 (w # ws) m"
  by (simp add: seen_only_def)

lemma start_providers_seen:
  "seen_only m0 (w # ws) m \<Longrightarrow> seen_only m0 (w # ws) (snd (start_providers w ns m))"
proof (induction ns arbitrary: m)
  case (Cons n ns)
  show ?case
  proof (cases "m n")
    case (Some p)
    have "seen_only m0 (w # ws) (m(n \<mapsto> snd (start_provider w p)))"
      by (rule seen_only_again, rule seen_onlyI [OF Cons.prems Some]) (simp, rule start_snapshot)
    then show ?thesis
      using Cons.IH [of "m(n \<mapsto> snd (start_provider w p))"] Some
      by (cases "start_provider w p"; cases "fst (start_provider w p)") (simp_all del: fun_upd_apply)
  qed (use Cons in simp)
qed simp

lemma manager_step_seen:
  assumes "manager_step w m m'" "seen_only m0 ws (mgr_providers m)"
  shows "seen_only m0 (w # ws) (mgr_providers m')"
  using assms(1)
proof (rule manager_stepE)
  fix order assume "m' = snd (manager_start (w, order) m)"
  with start_providers_seen [OF seen_only_more [OF assms(2)], of w order] seen_only_more [OF assms(2), of w]
  show ?thesis by (auto simp: manager_start_def Let_def split: prod.split)
next
  fix name assume m': "m' = manager_rebuild w name m"
  show ?thesis
  proof (cases "mgr_providers m name")
    case None
    with m' seen_only_more [OF assms(2)] show ?thesis by (simp add: manager_rebuild_def)
  next
    case (Some p)
    with m' seen_onlyI [OF assms(2) Some rebuild_identity published.snapshot_publish] show ?thesis
      by (simp add: manager_rebuild_def)
  qed
next
  fix name assume m': "m' = snd (manager_resolve w name m)"
  show ?thesis
  proof (cases "mgr_providers m name")
    case None
    with m' seen_only_more [OF assms(2)] show ?thesis by (simp add: manager_resolve_def)
  next
    case (Some p)
    have "seen_only m0 (w # ws) ((mgr_providers m)(name \<mapsto> snd (resolve_provider w p)))"
      by (rule seen_onlyI [OF assms(2) Some]) simp_all
    with m' Some show ?thesis
      by (cases "resolve_provider w p") (simp add: manager_resolve_def del: fun_upd_apply)
  qed
qed

text \<open>The entry a provider was built from.\<close>

definition entry_identity :: "discovery_provider \<Rightarrow> provider \<Rightarrow> bool" where
  "entry_identity e p \<longleftrightarrow>
     (normalize_type (dp_type e) = ''kubernetes'' \<and>
        (\<exists>c. dp_kubernetes e = Some c \<and> provider_identity p = (dp_name e, Inl c))) \<or>
     (normalize_type (dp_type e) = ''agones'' \<and>
        (\<exists>c. dp_agones e = Some c \<and> provider_identity p = (dp_name e, Inr c)))"

lemma new_provider_entry:
  "new_provider i e = Inr p \<Longrightarrow> entry_identity e p \<and> provider_snapshot p = []"
  by (auto simp: new_provider_def new_kubernetes_provider_def new_agones_provider_def entry_identity_def provider_defs
      Let_def split: if_splits sum.splits option.splits)

definition fresh_from :: "discovery_provider list \<Rightarrow> (string \<rightharpoonup> provider) \<Rightarrow> bool" where
  "fresh_from ps m \<longleftrightarrow> (\<forall>n p. m n = Some p \<longrightarrow>
     (\<exists>e \<in> set ps. dp_name e = n \<and> entry_identity e p) \<and> provider_snapshot p = [])"

lemma add_providers_fresh:
  "add_providers i ps m = Inr m' \<Longrightarrow> fresh_from qs m \<Longrightarrow> fresh_from (qs @ ps) m'"
proof (induction i ps m arbitrary: qs rule: add_providers.induct)
  case (2 i e ps m)
  from 2(2) obtain v where v: "dp_name e \<noteq> []" "m (dp_name e) = None" "new_provider i e = Inr v"
    "add_providers (Suc i) ps (m(dp_name e \<mapsto> v)) = Inr m'"
    by (auto split: if_splits sum.splits)
  have fresh: "fresh_from (qs @ [e]) (m(dp_name e \<mapsto> v))"
    using 2(3) new_provider_entry [OF v(3)] by (fastforce simp: fresh_from_def)
  have "fresh_from ((qs @ [e]) @ ps) m'"
    by (rule 2(1) [OF _ _ v(3) v(4) fresh]) (use v in simp_all)
  then show ?case by simp
qed simp

lemma new_manager_fresh: "new_manager (Some ps) = Inr m \<Longrightarrow> fresh_from ps (mgr_providers m)"
  using add_providers_fresh [of 0 ps Map.empty _ "[]"]
  by (auto simp: new_manager_def fresh_from_def split: sum.splits)

lemma fresh_seen: "fresh_from ps m \<Longrightarrow> seen_only m [] m"
  by (simp add: fresh_from_def seen_only_def)

text \<open>The invariant of every run of a manager built from a configuration.\<close>

lemma manager_reach_seen:
  assumes "new_manager (Some ps) = Inr m0" "manager_reach m0 ws m"
  shows "seen_only (mgr_providers m0) ws (mgr_providers m)"
  using assms(2)
  by induction (use fresh_seen [OF new_manager_fresh [OF assms(1)]] manager_step_seen in auto)

lemma reach_provider:
  assumes "new_manager (Some ps) = Inr m0" "manager_reach m0 ws m" "mgr_providers m n = Some p"
  obtains e where "e \<in> set ps" "dp_name e = n" "entry_identity e p"
    "set (provider_snapshot p) \<subseteq> (\<Union>w \<in> set ws. set (provider_offers w p))"
proof -
  from manager_reach_seen [OF assms(1,2)] assms(3) obtain p0
    where p0: "mgr_providers m0 n = Some p0" "provider_identity p = provider_identity p0"
      and snap: "set (provider_snapshot p) \<subseteq> (\<Union>w \<in> set ws. set (provider_offers w p))"
    unfolding seen_only_def by blast
  from new_manager_fresh [OF assms(1)] p0(1) obtain e where "e \<in> set ps" "dp_name e = n" "entry_identity e p0"
    unfolding fresh_from_def by blast
  with p0(2) snap that show thesis by (simp add: entry_identity_def)
qed

text \<open>The set of providers is that of the start.\<close>

lemma start_providers_dom: "dom (snd (start_providers w ns m)) = dom m"
proof (induction ns arbitrary: m)
  case (Cons n ns)
  show ?case
  proof (cases "m n")
    case (Some p)
    then have "insert n (dom m) = dom m" by auto
    then show ?thesis
      using Some Cons.IH [of "m(n \<mapsto> snd (start_provider w p))"]
      by (cases "start_provider w p"; cases "fst (start_provider w p)") (simp_all del: fun_upd_apply)
  qed (use Cons in simp)
qed simp

lemma manager_step_dom: "manager_step w m m' \<Longrightarrow> dom (mgr_providers m') = dom (mgr_providers m)"
proof (erule manager_stepE)
  fix order assume "m' = snd (manager_start (w, order) m)"
  then show ?thesis
    using start_providers_dom [of w order "mgr_providers m"]
    by (cases "start_providers w order (mgr_providers m)") (simp add: manager_start_def Let_def)
next
  fix name assume "m' = manager_rebuild w name m"
  then show ?thesis by (auto simp: manager_rebuild_def split: option.splits)
next
  fix name assume "m' = snd (manager_resolve w name m)"
  then show ?thesis by (auto simp: manager_resolve_def split: option.splits prod.splits)
qed

lemma manager_reach_dom: "manager_reach m0 ws m \<Longrightarrow> dom (mgr_providers m) = dom (mgr_providers m0)"
  by (induction rule: manager_reach.induct) (simp_all add: manager_step_dom)

end
