(* ===== verification/DiscoveryOffers.thy ===== *)
theory DiscoveryOffers
  imports DiscoveryRun RoutingFilters
begin

text \<open>
  What the two providers may offer, stated over the objects of the cluster, and the lemmas that their
  computations offer nothing else; the slots of the rate limit; the metadata a game server carries.
\<close>

section \<open>Kubernetes\<close>

text \<open>The namespaces in which a resource is looked for.\<close>

definition searched_namespaces :: "k8s_discovery \<Rightarrow> string set" where
  "searched_namespaces cfg = (if kd_namespaces cfg = [] then {[]} else set (kd_namespaces cfg))"

text \<open>The backend is a pod that the filters and a selector allow, at the positive port of the resource.\<close>

definition pod_offer :: "(string \<Rightarrow> label_selector option) \<Rightarrow> k8s_discovery \<Rightarrow> k8s_cache \<Rightarrow> backend \<Rightarrow> bool" where
  "pod_offer parse cfg cache b \<longleftrightarrow>
     (\<exists>r \<in> set (kd_resources cfg). \<exists>ns \<in> searched_namespaces cfg. \<exists>pods. \<exists>p \<in> set pods.
        kc_pods cache ns (label_selector_of parse (kr_selector r)) = Some pods \<and>
        pod_allowed (kd_filters cfg) p (kr_selector r) \<and>
        b_host b = pod_ip p \<and> b_host b \<noteq> [] \<and> resolve_pod_port p (kr_port r) = Some (b_port b) \<and> 0 < b_port b)"

text \<open>
  The backend is an address of an endpoint that is not known to be unready, where that is asked for, in the
  namespace of the service or a searched one.
\<close>

definition slice_offer :: "(string \<Rightarrow> label_selector option) \<Rightarrow> k8s_discovery \<Rightarrow> k8s_cache \<Rightarrow> backend \<Rightarrow> bool" where
  "slice_offer parse cfg cache b \<longleftrightarrow>
     (\<exists>r \<in> set (kd_resources cfg). \<exists>ns ess. \<exists>es \<in> set ess. \<exists>ep \<in> set (es_endpoints es).
        (ns \<in> searched_namespaces cfg \<or> (\<exists>svc. kr_service r = Some svc \<and> ns = ksr_namespace svc \<and> ns \<noteq> [])) \<and>
        kc_slices cache ns (\<lambda>_. True) = Some ess \<and> slice_allowed parse r es \<and>
        (kf_endpoint_ready (kd_filters cfg) \<longrightarrow> ep_ready ep \<noteq> Some False) \<and>
        b_host b \<in> set (ep_addresses ep) \<and> resolve_endpoint_slice_port es (kr_port r) = Some (b_port b))"

lemma first_weight_address [simp]:
  "b_host (first_weight v w b) = b_host b" "b_port (first_weight v w b) = b_port b" "b_meta (first_weight v w b) = b_meta b"
  by (auto simp: first_weight_def split: option.split)

lemma pod_backend_address [simp]: "b_host (pod_backend cfg p port) = pod_ip p" "b_port (pod_backend cfg p port) = port"
  by (simp_all add: pod_backend_def apply_weight_from_maps_def Let_def)

lemma slice_backend_address [simp]: "b_host (slice_backend cfg es port addr) = addr"
  "b_port (slice_backend cfg es port addr) = port"
  by (simp_all add: slice_backend_def apply_weight_from_maps_def Let_def)

lemma named_port_pos: "named_port n ps = Some k \<Longrightarrow> 0 < k"
  by (induction n ps rule: named_port.induct) (auto split: if_splits)

lemma resolve_pod_port_pos: "resolve_pod_port p cfg = Some k \<Longrightarrow> 0 < k"
  by (auto simp: resolve_pod_port_def dest: named_port_pos split: if_splits)

lemma pod_allowed_ip: "pod_allowed f p s \<Longrightarrow> pod_ip p \<noteq> []"
  by (auto simp: pod_allowed_def)

lemma in_map_filter: "y \<in> set (List.map_filter f xs) \<longleftrightarrow> (\<exists>x \<in> set xs. f x = Some y)"
  by (induction xs) (auto simp: map_filter_simps split: option.splits)

lemma pod_backends_offer:
  assumes "b \<in> set (pod_backends parse cfg cache nss r)" "r \<in> set (kd_resources cfg)" "set nss = searched_namespaces cfg"
  shows "pod_offer parse cfg cache b"
proof -
  from assms(1) obtain ns pods p port where "ns \<in> set nss"
    "kc_pods cache ns (label_selector_of parse (kr_selector r)) = Some pods" "p \<in> set pods"
    "pod_allowed (kd_filters cfg) p (kr_selector r)" "resolve_pod_port p (kr_port r) = Some port"
    "b = pod_backend cfg p port"
    by (auto simp: pod_backends_def in_map_filter split: option.splits if_splits) metis
  with assms(2,3) show ?thesis
    unfolding pod_offer_def using pod_allowed_ip resolve_pod_port_pos by fastforce
qed

lemma slice_backends_offer:
  assumes "b \<in> set (slice_backends parse cfg cache nss r)" "r \<in> set (kd_resources cfg)" "set nss = searched_namespaces cfg"
  shows "slice_offer parse cfg cache b"
proof -
  let ?nss = "case kr_service r of None \<Rightarrow> nss | Some svc \<Rightarrow> if ksr_namespace svc \<noteq> [] then [ksr_namespace svc] else nss"
  from assms(1) obtain ns ess es port where e: "ns \<in> set ?nss" "kc_slices cache ns (\<lambda>_. True) = Some ess" "es \<in> set ess"
    "slice_allowed parse r es" "resolve_endpoint_slice_port es (kr_port r) = Some port"
    "b \<in> set (endpoint_backends cfg es port)"
    unfolding slice_backends_def set_concat set_map by (auto split: option.splits if_splits) (metis+)
  from e(6) obtain ep where "ep \<in> set (es_endpoints es)" "kf_endpoint_ready (kd_filters cfg) \<longrightarrow> ep_ready ep \<noteq> Some False"
    "b_host b \<in> set (ep_addresses ep)" "b_port b = port"
    by (auto simp: endpoint_backends_def split: if_splits)
  moreover have "ns \<in> searched_namespaces cfg \<or> (\<exists>svc. kr_service r = Some svc \<and> ns = ksr_namespace svc \<and> ns \<noteq> [])"
    using e(1) assms(3) by (auto split: option.splits if_splits)
  ultimately show ?thesis using e assms(2) unfolding slice_offer_def by blast
qed

lemma k8s_backends_offer:
  assumes "b \<in> set (k8s_backends parse cfg cache)"
  shows "pod_offer parse cfg cache b \<or> slice_offer parse cfg cache b"
proof -
  let ?nss = "if length (kd_namespaces cfg) = 0 then [[]] else kd_namespaces cfg"
  have "set ?nss = searched_namespaces cfg" by (simp add: searched_namespaces_def)
  moreover from assms obtain r where "r \<in> set (kd_resources cfg)"
    "b \<in> set (pod_backends parse cfg cache ?nss r) \<or> b \<in> set (slice_backends parse cfg cache ?nss r)"
    by (auto simp: k8s_backends_def resource_backends_def Let_def split: if_splits)
  ultimately show ?thesis using pod_backends_offer slice_backends_offer by blast
qed

section \<open>Agones\<close>

text \<open>
  The backend is a game server of an allowed namespace with the wanted annotations, in an allowed state that
  is not Shutdown, at the address the configuration selects and a positive port.
\<close>

definition server_offer ::
  "accessors \<Rightarrow> agones_discovery \<Rightarrow> game_server option list \<Rightarrow> backend \<Rightarrow> bool"
where
  "server_offer acc cfg store b \<longleftrightarrow>
     (\<exists>u. Some u \<in> set store \<and>
        (allowed_namespaces cfg = {} \<or> gs_namespace u \<in> allowed_namespaces cfg) \<and>
        (\<forall>s. ad_selector cfg = Some s \<longrightarrow> annotations_match (gs_annotations u) (sel_annotations s)) \<and>
        (let status = nested_map acc (gs_object u) ''status'';
             state = to_lower (trim_space (nested_string acc status ''state''))
         in state \<in> allowed_states cfg \<and> state \<noteq> ''shutdown'' \<and>
            b_host b = resolve_agones_address acc status cfg \<and> b_host b \<noteq> [] \<and>
            b_port b = resolve_agones_ports (nested_slice acc status ''ports'') (ad_port cfg) \<and> 0 < b_port b))"

lemma allowed_states_not_empty: "allowed_states cfg \<noteq> {}"
  by (simp add: allowed_states_def Let_def)

lemma scan_ports_nonneg: "0 \<le> scan_ports want ps"
  by (induction want ps rule: scan_ports.induct) (auto simp: Let_def split: option.split)

lemma resolve_agones_ports_nonneg: "0 \<le> resolve_agones_ports ports cfg"
  by (simp add: resolve_agones_ports_def scan_ports_nonneg)

lemma observed_backend_Some:
  "observed_backend acc ft cfg (Some u) = Some b \<Longrightarrow>
   (allowed_namespaces cfg = {} \<or> gs_namespace u \<in> allowed_namespaces cfg) \<and>
   (\<forall>s. ad_selector cfg = Some s \<longrightarrow> annotations_match (gs_annotations u) (sel_annotations s)) \<and>
   (\<exists>b0. to_backend acc ft cfg (allowed_states cfg) u = Some b0 \<and> b = apply_weight b0)"
  by (auto simp: observed_backend_def split: if_splits option.splits)

lemma agones_backends_offer:
  assumes "b \<in> set (agones_backends acc ft cfg store)"
  shows "server_offer acc cfg store b"
proof -
  from assms obtain e where e: "e \<in> set store" "observed_backend acc ft cfg e = Some b"
    by (auto simp: agones_backends_def in_map_filter)
  from e(2) obtain u where "e = Some u" by (cases e rule: option.exhaust) (simp_all add: observed_backend_def)
  with e observed_backend_Some [of acc ft cfg u b] obtain b0 where u: "Some u \<in> set store"
    "allowed_namespaces cfg = {} \<or> gs_namespace u \<in> allowed_namespaces cfg"
    "\<forall>s. ad_selector cfg = Some s \<longrightarrow> annotations_match (gs_annotations u) (sel_annotations s)"
    "to_backend acc ft cfg (allowed_states cfg) u = Some b0" "b = apply_weight b0"
    by blast
  from u(4) allowed_states_not_empty [of cfg]
    resolve_agones_ports_nonneg [of "nested_slice acc (nested_map acc (gs_object u) ''status'') ''ports''" "ad_port cfg"]
  have "let status = nested_map acc (gs_object u) ''status'';
         state = to_lower (trim_space (nested_string acc status ''state''))
     in state \<in> allowed_states cfg \<and> state \<noteq> ''shutdown'' \<and>
        b_host b0 = resolve_agones_address acc status cfg \<and> b_host b0 \<noteq> [] \<and>
        b_port b0 = resolve_agones_ports (nested_slice acc status ''ports'') (ad_port cfg) \<and> 0 < b_port b0"
    by (auto simp: to_backend_def Let_def split: if_splits)
  with u show ?thesis unfolding server_offer_def by (intro exI [of _ u]) (simp add: apply_weight_def)
qed

section \<open>The rate limit\<close>

text \<open>The times at which a sequence of callers, arriving at the given times, may allocate.\<close>

fun allocation_slots :: "int \<Rightarrow> int list \<Rightarrow> agones_provider \<Rightarrow> int list" where
  "allocation_slots d [] p = []"
| "allocation_slots d (now # nows) p =
     (case reserve_allocate_slot d now p of (wait, p') \<Rightarrow> (now + wait) # allocation_slots d nows p')"

lemma allocation_slots_spaced:
  assumes "0 < d" "\<forall>now \<in> set nows. 0 \<le> now \<and> now + d * int (length nows) < 2 ^ 63"
    and "\<forall>t. ap_next p = Some t \<longrightarrow> 0 \<le> t \<and> t + d * int (length nows) < 2 ^ 63"
  shows "sorted_wrt (\<lambda>s t. s + d \<le> t) (allocation_slots d nows p) \<and>
    list_all2 (\<le>) nows (allocation_slots d nows p) \<and>
    (\<forall>t s. ap_next p = Some t \<longrightarrow> s \<in> set (allocation_slots d nows p) \<longrightarrow> t \<le> s)"
  using assms(2,3)
proof (induction nows arbitrary: p)
  case (Cons now nows)
  let ?n = "int (length nows)"
  define slot where "slot = (case ap_next p of None \<Rightarrow> now | Some t \<Rightarrow> max now t)"
  have step: "reserve_allocate_slot d now p = (slot - now, p\<lparr>ap_next := Some (slot + d)\<rparr>)"
  proof (cases "ap_next p")
    case (Some t)
    have "0 \<le> d * (1 + ?n)" using assms(1) by simp
    with Some Cons.prems(2) have "0 \<le> t" "t < 2 ^ 63" by fastforce+
    with Some Cons.prems(1) show ?thesis by (auto simp: reserve_allocate_slot_def slot_def time_sub_def max_def)
  qed (simp add: reserve_allocate_slot_def slot_def)
  have slot: "now \<le> slot" "\<forall>t. ap_next p = Some t \<longrightarrow> t \<le> slot" "0 \<le> slot" "slot + d * (1 + ?n) < 2 ^ 63"
    using Cons.prems by (auto simp: slot_def max_def split: option.splits)
  have "now' + d * ?n < 2 ^ 63" if "now' \<in> set nows" for now'
    using Cons.prems(1) that assms(1) by (fastforce simp: algebra_simps)
  moreover have "slot + d + d * ?n < 2 ^ 63" using slot(4) by (simp add: algebra_simps)
  ultimately have ih: "sorted_wrt (\<lambda>s t. s + d \<le> t) (allocation_slots d nows (p\<lparr>ap_next := Some (slot + d)\<rparr>)) \<and>
      list_all2 (\<le>) nows (allocation_slots d nows (p\<lparr>ap_next := Some (slot + d)\<rparr>)) \<and>
      (\<forall>s. s \<in> set (allocation_slots d nows (p\<lparr>ap_next := Some (slot + d)\<rparr>)) \<longrightarrow> slot + d \<le> s)"
    using Cons.IH [of "p\<lparr>ap_next := Some (slot + d)\<rparr>"] Cons.prems(1) slot(3) assms(1) by simp
  with step slot(1,2) assms(1) show ?case by fastforce
qed simp

section \<open>The lists of a game server\<close>

text \<open>The entry of a list in the metadata is written once: no other list has its name.\<close>

lemma add_list_other:
  "fst kv \<noteq> n \<Longrightarrow> add_list acc ft kv meta (''list.'' @ n @ ''.values'') = meta (''list.'' @ n @ ''.values'')"
proof -
  assume ne: "fst kv \<noteq> n"
  have "''list.'' @ n @ ''.values'' \<noteq> ''list.'' @ fst kv @ ''.capacity''"
  proof
    assume "''list.'' @ n @ ''.values'' = ''list.'' @ fst kv @ ''.capacity''"
    then have "last (''list.'' @ n @ ''.values'') = last (''list.'' @ fst kv @ ''.capacity'')" by (rule arg_cong)
    then show False by simp
  qed
  with ne show ?thesis by (auto simp: add_list_def Let_def split: option.split)
qed

lemma add_list_fold_other:
  "n \<notin> fst ` set kvs \<Longrightarrow> fold (add_list acc ft) kvs meta (''list.'' @ n @ ''.values'') = meta (''list.'' @ n @ ''.values'')"
proof (induction kvs arbitrary: meta)
  case (Cons kv kvs)
  then have "fst kv \<noteq> n" "n \<notin> fst ` set kvs" by auto
  with Cons.IH [of "add_list acc ft kv meta"] add_list_other [of kv n acc ft meta] show ?case by simp
qed simp

lemma add_list_values:
  assumes "nested_slice acc (Some kvs) ''values'' \<noteq> []"
  shows "add_list acc ft (n, VMap kvs) meta (''list.'' @ n @ ''.values'') =
    Some (marshal_strings (strings_of (nested_slice acc (Some kvs) ''values'')))"
proof -
  have "''list.'' @ n @ ''.values'' \<noteq> ''list.'' @ n @ ''.capacity''" by simp
  with assms show ?thesis by (auto simp: add_list_def as_map_def Let_def split: option.split)
qed

lemma append_agones_lists_values:
  assumes "entries (nested_map acc status ''lists'') = pre @ (n, VMap kvs) # post" "n \<notin> fst ` set post"
    and "status \<noteq> None" "nested_slice acc (Some kvs) ''values'' \<noteq> []"
  shows "append_agones_lists acc ft status meta (''list.'' @ n @ ''.values'') =
    Some (marshal_strings (strings_of (nested_slice acc (Some kvs) ''values'')))"
proof -
  have eq: "append_agones_lists acc ft status meta =
      fold (add_list acc ft) post (add_list acc ft (n, VMap kvs) (fold (add_list acc ft) pre meta))"
    using assms(1,3) by (auto simp: append_agones_lists_def)
  show ?thesis unfolding eq add_list_fold_other [OF assms(2)] by (rule add_list_values [OF assms(4)])
qed

text \<open>Trimming leaves the JSON text alone.\<close>

lemma trim_space_bracketed: "trim_space (CHR ''['' # s @ [CHR '']'']) = CHR ''['' # s @ [CHR '']'']"
proof -
  have "left_trimmed (CHR ''['' # s @ [CHR '']''])" by (simp add: left_trimmed_def is_space_def del: decode_rune.simps)
  moreover have "right_trimmed (CHR ''['' # s @ [CHR '']''])" by (simp add: right_trimmed_def space_suffix_def is_space_def)
  ultimately show ?thesis by (simp only: trim_space_def trim_left_id trim_right_id)
qed

lemma list_contains_marshal: "list_contains (marshal_strings xs) want \<longleftrightarrow> want \<in> as_utf8 ` set xs"
  using trim_space_bracketed json_string_list_marshal [of xs]
  by (simp add: list_contains_def marshal_strings_def Let_def image_iff del: trim_left.simps)

end
