(* ===== verification/DiscoveryProperties.thy ===== *)
theory DiscoveryProperties
  imports DiscoveryOffers
begin

text \<open>The properties of discovery (\<^verbatim>\<open>internal/discovery\<close>).\<close>

section \<open>A small cluster\<close>

definition ex_accessors :: accessors where
  "ex_accessors =
     \<lparr>nested_map = (\<lambda>m k. case obj_get m k of Some v \<Rightarrow> as_map v | None \<Rightarrow> None),
      nested_slice = (\<lambda>m k. case obj_get m k of Some (VSlice vs) \<Rightarrow> vs | _ \<Rightarrow> []),
      nested_string = (\<lambda>m k. as_string (obj_get m k))\<rparr>"

definition ex_pod :: pod where
  "ex_pod = \<lparr>pod_namespace = ''ns'', pod_name = ''p'', pod_node = [], pod_ip = ''10.0.0.1'', pod_phase = ''Running'',
     pod_conditions = [(''Ready'', ''True'')], pod_ports = [], pod_labels = None, pod_annotations = None\<rparr>"

definition ex_k8s :: k8s_discovery where
  "ex_k8s = \<lparr>kd_kubeconfig = [], kd_namespaces = [],
     kd_resources = [\<lparr>kr_kind = ''pods'', kr_service = None, kr_selector = None,
       kr_port = \<lparr>kp_name = [], kp_number = 5520, kp_container = 0\<rparr>\<rparr>],
     kd_filters = \<lparr>kf_pod_ready = True, kf_pod_phase = [], kf_endpoint_ready = True\<rparr>,
     kd_metadata = \<lparr>km_labels = [], km_annotations = []\<rparr>\<rparr>"

definition ex_server_object :: "(string \<times> any_value) list" where
  "ex_server_object = [(''status'', VMap [
     (''state'', VString ''Ready''), (''address'', VString ''10.0.0.2''),
     (''ports'', VSlice [VMap [(''name'', VString ''game''), (''port'', VInt 7000)]]),
     (''lists'', VMap [(''players'', VMap [(''values'', VSlice [VString ''u1'', VString ''u2''])])])])]"

definition ex_game_server :: game_server where
  "ex_game_server = \<lparr>gs_namespace = ''ns'', gs_name = ''g'', gs_labels = Some [''hyrouter/gate'' \<mapsto> ''true''],
     gs_annotations = None, gs_object = Some ex_server_object\<rparr>"

definition ex_agones :: agones_discovery where
  "ex_agones = \<lparr>ad_kubeconfig = [], ad_namespaces = [], ad_mode = [], ad_min_interval = ''1s'', ad_state = [],
     ad_selector = None, ad_metadata = \<lparr>km_labels = [''hyrouter/gate''], km_annotations = []\<rparr>, ad_address = None,
     ad_port = \<lparr>kp_name = [], kp_number = 0, kp_container = 0\<rparr>\<rparr>"

definition ex_cluster :: "unit cluster" where
  "ex_cluster = \<lparr>cl_parse_labels = (\<lambda>_. None), cl_rest = (\<lambda>_. Inr ()), cl_k8s_client = (\<lambda>_. None),
     cl_dynamic_client = (\<lambda>_. None), cl_synced = (\<lambda>_. True),
     cl_cache = (\<lambda>_. \<lparr>kc_pods = (\<lambda>_ _. Some [ex_pod]), kc_slices = (\<lambda>_ _. None)\<rparr>),
     cl_store = (\<lambda>_. [Some ex_game_server]), cl_accessors = ex_accessors, cl_float_text = (\<lambda>_. []),
     cl_create = (\<lambda>_ _. Inl []), cl_ended = (\<lambda>_. None), cl_now = 0\<rparr>"

definition ex_providers :: "discovery_provider list" where
  "ex_providers = [
     \<lparr>dp_name = ''pods'', dp_type = ''kubernetes'', dp_kubernetes = Some ex_k8s, dp_agones = None\<rparr>,
     \<lparr>dp_name = ''fleet'', dp_type = ''agones'', dp_kubernetes = None, dp_agones = Some ex_agones\<rparr>]"

definition ex_manager :: manager where
  "ex_manager = (case new_manager (Some ex_providers) of Inr m \<Rightarrow> m | Inl _ \<Rightarrow>
     \<lparr>mgr_providers = Map.empty, mgr_started = False, mgr_error = None\<rparr>)"

definition ex_started :: manager where
  "ex_started = snd (manager_start (ex_cluster, [''pods'', ''fleet'']) ex_manager)"

lemma ex_new_manager: "new_manager (Some ex_providers) = Inr ex_manager"
  by (simp add: ex_manager_def new_manager_def ex_providers_def new_provider_def new_kubernetes_provider_def
      new_agones_provider_def normalize_type_def string_eval)

lemma ex_reach: "manager_reach ex_manager [ex_cluster] ex_started"
  unfolding ex_started_def by (rule reach_step [OF reach_init Starts])

lemma ex_pods_provider: "mgr_providers ex_manager ''pods'' = Some (KubernetesP
    \<lparr>kpr_name = ''pods'', kpr_cfg = ex_k8s, kpr_started = False, kpr_factory = False, kpr_error = None, kpr_snapshot = []\<rparr>)"
  and ex_fleet_provider: "mgr_providers ex_manager ''fleet'' = Some (AgonesP
    \<lparr>ap_name = ''fleet'', ap_cfg = ex_agones, ap_client = False, ap_informer = False, ap_snapshot = [],
     ap_next = None, ap_started = False, ap_error = None\<rparr>)"
  by (simp_all add: ex_manager_def new_manager_def ex_providers_def new_provider_def new_kubernetes_provider_def
      new_agones_provider_def normalize_type_def string_eval)

lemma ex_manager_unstarted [simp]: "\<not> mgr_started ex_manager"
  by (simp add: ex_manager_def new_manager_def split: sum.split)

lemma ex_pods_started: "\<exists>k. mgr_providers ex_started ''pods'' = Some (KubernetesP k) \<and> kpr_snapshot k = [pod_backend ex_k8s ex_pod 5520]"
  by (simp add: ex_started_def manager_start_def ex_manager_unstarted ex_pods_provider ex_fleet_provider Let_def
      start_provider_def k8s_start_def k8s_connect_def k8s_rebuild_def ex_cluster_def ex_k8s_def ex_pod_def
      k8s_backends_def resource_backends_def pod_backends_def pod_allowed_def pod_ready_def resolve_pod_port_def
      map_filter_simps string_eval split: option.splits prod.splits)

section \<open>Kubernetes\<close>

text \<open>C8: Whatever a Kubernetes provider answers, in any state a manager reaches, is an allowed pod with an IP
  address at a positive port, or an address of an endpoint slice that the resource selects and that is not
  known to be unready (where that is asked for), in a state of the cluster that was seen.\<close>

theorem kubernetes_offers:
  assumes "new_manager (Some ps) = Inr m0" "manager_reach m0 ws m"
    and "mgr_providers m n = Some (KubernetesP k)" "fst (manager_resolve w n m) = Some (Inr bs)" "b \<in> set bs"
  shows "\<exists>v \<in> set ws. \<exists>e \<in> set ps. dp_name e = n \<and> dp_kubernetes e = Some (kpr_cfg k) \<and>
    (pod_offer (cl_parse_labels v) (kpr_cfg k) (cl_cache v n) b \<or>
     slice_offer (cl_parse_labels v) (kpr_cfg k) (cl_cache v n) b)"
proof -
  from reach_provider [OF assms(1-3)] obtain e where e: "e \<in> set ps" "dp_name e = n" "entry_identity e (KubernetesP k)"
    and snap: "set (kpr_snapshot k) \<subseteq> (\<Union>v \<in> set ws. set (provider_offers v (KubernetesP k)))"
    by (auto simp: provider_snapshot_def)
  then have id: "dp_kubernetes e = Some (kpr_cfg k)" "kpr_name k = n"
    by (auto simp: entry_identity_def provider_identity_def)
  from assms(3-5) have "b \<in> set (kpr_snapshot k)"
    by (auto simp: manager_resolve_def resolve_provider_def k8s_resolve_def)
  with snap obtain v where "v \<in> set ws" "b \<in> set (k8s_backends (cl_parse_labels v) (kpr_cfg k) (cl_cache v n))"
    using id(2) by (auto simp: provider_offers_def)
  with e id(1) k8s_backends_offer show ?thesis by blast
qed

theorem kubernetes_offers_witness:
  "\<exists>k. mgr_providers ex_started ''pods'' = Some (KubernetesP k) \<and>
    pod_offer (cl_parse_labels ex_cluster) (kpr_cfg k) (cl_cache ex_cluster ''pods'') (pod_backend ex_k8s ex_pod 5520)"
proof -
  obtain k where k: "mgr_providers ex_started ''pods'' = Some (KubernetesP k)" "kpr_snapshot k = [pod_backend ex_k8s ex_pod 5520]"
    using ex_pods_started by blast
  then have "fst (manager_resolve ex_cluster ''pods'' ex_started) = Some (Inr [pod_backend ex_k8s ex_pod 5520])"
    by (simp add: manager_resolve_def resolve_provider_def k8s_resolve_def)
  from kubernetes_offers [OF ex_new_manager ex_reach k(1) this, of "pod_backend ex_k8s ex_pod 5520"]
  have "pod_offer (cl_parse_labels ex_cluster) (kpr_cfg k) (cl_cache ex_cluster ''pods'') (pod_backend ex_k8s ex_pod 5520) \<or>
     slice_offer (cl_parse_labels ex_cluster) (kpr_cfg k) (cl_cache ex_cluster ''pods'') (pod_backend ex_k8s ex_pod 5520)"
    by auto
  moreover have "\<not> slice_offer (cl_parse_labels ex_cluster) c (cl_cache ex_cluster ''pods'') b" for c b
    by (simp add: slice_offer_def ex_cluster_def)
  ultimately show ?thesis using k(1) by blast
qed

section \<open>Agones\<close>

text \<open>C27: Whatever an Agones provider in the observing mode answers, in any state a manager reaches, is a game
  server of an allowed namespace and state, never one that shuts down, with the annotations of the selector
  and a usable address, in a state of the cluster that was seen.\<close>

theorem agones_offers:
  assumes "new_manager (Some ps) = Inr m0" "manager_reach m0 ws m"
    and "mgr_providers m n = Some (AgonesP a)" "normalize_type (ad_mode (ap_cfg a)) \<in> {[], ''observe''}"
    and "fst (manager_resolve w n m) = Some (Inr bs)" "b \<in> set bs"
  shows "\<exists>v \<in> set ws. server_offer (cl_accessors v) (ap_cfg a) (cl_store v n) b"
proof -
  from reach_provider [OF assms(1-3)] obtain e where e: "dp_name e = n" "entry_identity e (AgonesP a)"
    and snap: "set (ap_snapshot a) \<subseteq> (\<Union>v \<in> set ws. set (provider_offers v (AgonesP a)))"
    by (auto simp: provider_snapshot_def)
  then have id: "ap_name a = n" by (auto simp: entry_identity_def provider_identity_def)
  from assms(3-6) have "b \<in> set (ap_snapshot a)"
    by (auto simp: manager_resolve_def resolve_provider_def agones_resolve_def normalize_type_def)
  with snap id obtain v where "v \<in> set ws"
      "b \<in> set (agones_backends (cl_accessors v) (cl_float_text v) (ap_cfg a) (cl_store v n))"
    by (auto simp: provider_offers_def)
  then show ?thesis using agones_backends_offer by blast
qed

lemma ex_fleet_started: "\<exists>a b. mgr_providers ex_started ''fleet'' = Some (AgonesP a) \<and> ap_cfg a = ex_agones \<and>
    ap_snapshot a = [b] \<and> b_host b = ''10.0.0.2'' \<and> b_port b = 7000"
  by (simp add: ex_started_def manager_start_def ex_manager_unstarted ex_pods_provider ex_fleet_provider Let_def
      start_provider_def k8s_start_def k8s_connect_def k8s_rebuild_def agones_start_def agones_connect_def
      agones_rebuild_def agones_selector_ok_def ex_cluster_def ex_agones_def ex_game_server_def ex_server_object_def
      agones_backends_def observed_backend_def allowed_namespaces_def allowed_states_def to_backend_def
      ex_accessors_def obj_get_def as_map_def as_string_def resolve_agones_address_def resolve_agones_ports_def
      to_int_def apply_weight_def map_filter_simps string_eval split: option.splits prod.splits)

theorem agones_offers_witness:
  "\<exists>a b. mgr_providers ex_started ''fleet'' = Some (AgonesP a) \<and> b_host b = ''10.0.0.2'' \<and>
    server_offer (cl_accessors ex_cluster) (ap_cfg a) (cl_store ex_cluster ''fleet'') b"
proof -
  obtain a b where a: "mgr_providers ex_started ''fleet'' = Some (AgonesP a)" "ap_cfg a = ex_agones" "ap_snapshot a = [b]"
    "b_host b = ''10.0.0.2''"
    using ex_fleet_started by blast
  then have mode: "normalize_type (ad_mode (ap_cfg a)) \<in> {[], ''observe''}"
    by (simp add: ex_agones_def normalize_type_def string_eval)
  then have "fst (manager_resolve ex_cluster ''fleet'' ex_started) = Some (Inr [b])"
    using a by (auto simp: manager_resolve_def resolve_provider_def agones_resolve_def normalize_type_def)
  from agones_offers [OF ex_new_manager ex_reach a(1) mode this, of b] a show ?thesis by auto
qed

text \<open>C9: The rate limit of allocation: the callers of \<open>allocate\<close>, arriving at any times, get slots that are
  at least the configured interval apart, and none of them before it arrived.\<close>

theorem allocation_spacing:
  assumes "0 < d" "d * int (length nows) < 2 ^ 62" "\<forall>now \<in> set nows. 0 \<le> now \<and> now < 2 ^ 62" "ap_next p = None"
  shows "sorted_wrt (\<lambda>s t. s + d \<le> t) (allocation_slots d nows p) \<and> list_all2 (\<le>) nows (allocation_slots d nows p)"
proof -
  have "\<forall>now \<in> set nows. 0 \<le> now \<and> now + d * int (length nows) < 2 ^ 63" using assms(2,3) by auto
  moreover have "\<forall>t. ap_next p = Some t \<longrightarrow> 0 \<le> t \<and> t + d * int (length nows) < 2 ^ 63" using assms(4) by simp
  ultimately show ?thesis using allocation_slots_spaced [OF assms(1)] by blast
qed

theorem allocation_spacing_witness:
  "\<exists>p. list_all2 (\<le>) [5, 6, 0] (allocation_slots 10 [5, 6, 0] p) \<and> allocation_slots 10 [5, 6, 0] p = [5, 15, 25]"
proof -
  define p where "p = \<lparr>ap_name = ''fleet'', ap_cfg = ex_agones, ap_client = True, ap_informer = True, ap_snapshot = [],
    ap_next = None, ap_started = True, ap_error = None\<rparr>"
  from allocation_spacing [of 10 "[5, 6, 0]" p] have "list_all2 (\<le>) [5, 6, 0] (allocation_slots 10 [5, 6, 0] p)"
    by (simp add: p_def)
  moreover have "allocation_slots 10 [5, 6, 0] p = [5, 15, 25]"
    by (simp add: p_def reserve_allocate_slot_def time_sub_def)
  ultimately show ?thesis by blast
qed

section \<open>From a list of a game server to the whitelist\<close>

text \<open>C28: A list in the status of a game server, written to the metadata of its backend as JSON, is what the
  whitelist filter reads: with the filter enabled on that key, a client passes exactly if it has an identity
  and that identity is one of the strings of the list.\<close>

theorem whitelist_reads_list:
  assumes "to_backend acc ft cfg allowed u = Some b"
    and "status = nested_map acc (gs_object u) ''status''"
    and "entries (nested_map acc status ''lists'') = pre @ (n, VMap kvs) # post" "n \<notin> fst ` set post"
    and "nested_slice acc (Some kvs) ''values'' = vals" "vals \<noteq> []"
    and "normalize_strategy (f_type f) = ''whitelist''" "trim_space (f_enabled_key f) \<noteq> []"
    and "truthy (to_lower (trim_space (meta_get (b_meta b) (trim_space (f_enabled_key f)))))"
    and "trim_space (f_list_key f) = ''list.'' @ n @ ''.values''"
    and "normalize_strategy (f_subject f) \<in> {[], ''uuid'', ''username''}"
  shows "filter_matches now req b f \<longleftrightarrow>
    whitelist_subject req f \<noteq> [] \<and> whitelist_subject req f \<in> as_utf8 ` set (strings_of vals)"
proof -
  have "status \<noteq> None"
    using assms(1,2) by (auto simp: to_backend_def resolve_agones_address_def Let_def split: if_splits)
  then have "b_meta b (''list.'' @ n @ ''.values'') = Some (marshal_strings (strings_of vals))"
    using assms(1,2) append_agones_lists_values [OF assms(3,4)] assms(5,6)
    by (auto simp: to_backend_def game_server_meta_def Let_def split: if_splits)
  then have raw: "meta_get (b_meta b) (trim_space (f_list_key f)) = marshal_strings (strings_of vals)"
    unfolding assms(10) meta_get_def by simp
  have trim: "trim_space (marshal_strings (strings_of vals)) = marshal_strings (strings_of vals)"
    by (simp only: marshal_strings_def append_Cons append_Nil trim_space_bracketed)
  have ne: "marshal_strings (strings_of vals) \<noteq> []" "trim_space (f_list_key f) \<noteq> []"
    by (simp_all add: marshal_strings_def assms(10))
  have subj: "whitelist_subject req f = trim_space (if (if normalize_strategy (f_subject f) = [] then ''uuid''
      else normalize_strategy (f_subject f)) = ''uuid'' then req_uuid req else req_username req)"
    using assms(11) by (auto simp: whitelist_subject_def)
  have "filter_matches now req b f \<longleftrightarrow> whitelist_matches req b f"
    using assms(7) by (simp add: filter_matches_def)
  also have "\<dots> \<longleftrightarrow> whitelist_subject req f \<noteq> [] \<and> list_contains (marshal_strings (strings_of vals)) (whitelist_subject req f)"
    using assms(8,9,11) raw ne by (auto simp: whitelist_matches_def Let_def trim subj)
  finally show ?thesis by (simp only: list_contains_marshal)
qed

definition ex_gate :: filter_cfg where
  "ex_gate = \<lparr>f_type = ''whitelist'', f_subject = [], f_left = [], f_op = [], f_right = [],
     f_enabled_key = ''label.hyrouter/gate'', f_list_key = ''list.players.values'', f_key = []\<rparr>"

definition ex_player :: "string \<Rightarrow> request" where
  "ex_player u = \<lparr>req_sni = [], req_uuid = u, req_username = [], req_language = []\<rparr>"

definition ex_status :: obj where
  "ex_status = nested_map ex_accessors (gs_object ex_game_server) ''status''"

lemmas ex_agones_defs = ex_agones_def ex_game_server_def ex_server_object_def ex_accessors_def ex_status_def
  obj_get_def as_map_def as_string_def entries_def

lemma ex_to_backend:
  "\<exists>b. to_backend ex_accessors ft ex_agones {''ready''} ex_game_server = Some b \<and>
    b_meta b ''label.hyrouter/gate'' = Some ''true''"
  by (simp add: to_backend_def game_server_meta_def append_agones_lists_def add_list_def copy_weight_def map_get_def
      map_lookup_def copy_selected_def copy_selected_labels_def copy_selected_annotations_def fill_k8s_meta_def
      resolve_agones_address_def resolve_agones_ports_def to_int_def ex_agones_defs string_eval)

theorem whitelist_reads_list_witness:
  "\<exists>b. to_backend ex_accessors (\<lambda>_. []) ex_agones {''ready''} ex_game_server = Some b \<and>
    filter_matches 0 (ex_player ''u2'') b ex_gate \<and> \<not> filter_matches 0 (ex_player ''u3'') b ex_gate"
proof -
  obtain b where b: "to_backend ex_accessors (\<lambda>_. []) ex_agones {''ready''} ex_game_server = Some b"
    "b_meta b ''label.hyrouter/gate'' = Some ''true''"
    using ex_to_backend by blast
  have lists: "entries (nested_map ex_accessors ex_status ''lists'') =
      [] @ (''players'', VMap [(''values'', VSlice [VString ''u1'', VString ''u2''])]) # []"
    by (simp add: ex_agones_defs)
  have vals: "nested_slice ex_accessors (Some [(''values'', VSlice [VString ''u1'', VString ''u2''])]) ''values'' =
      [VString ''u1'', VString ''u2'']"
    by (simp add: ex_agones_defs)
  have "filter_matches 0 req b ex_gate \<longleftrightarrow> whitelist_subject req ex_gate \<noteq> [] \<and>
      whitelist_subject req ex_gate \<in> as_utf8 ` set (strings_of [VString ''u1'', VString ''u2''])" for req
    by (rule whitelist_reads_list [OF b(1) ex_status_def lists _ vals])
      (simp_all add: ex_gate_def b(2) meta_get_def truthy_def normalize_strategy_def replace_char_def string_eval)
  with b(1) show ?thesis
    by (simp add: whitelist_subject_def ex_gate_def ex_player_def strings_of_def map_filter_simps as_utf8_ascii
        normalize_strategy_def replace_char_def string_eval)
qed

end
