(* ===== verification/ConfigProperties.thy ===== *)
theory ConfigProperties
  imports ConfigLoad DiscoveryProperties RoutingProperties
begin

text \<open>The properties of loading and checking a configuration (\<^verbatim>\<open>internal/config/config.go\<close>).\<close>

section \<open>Annotation selectors\<close>

text \<open>The pairs an expression asks for: its non-blank tokens, cut at the first equality sign.\<close>

definition selector_tokens :: "string \<Rightarrow> string list" where
  "selector_tokens expr = filter (\<lambda>t. t \<noteq> []) (map trim_space (split_on (CHR '','') (trim_space expr)))"

definition token_pair :: "string \<Rightarrow> (string \<times> string) option" where
  "token_pair t = (case split2 (CHR ''='') t of [k, v] \<Rightarrow> Some (trim_space k, trim_space v) | _ \<Rightarrow> None)"

definition token_ok :: "string \<Rightarrow> bool" where
  "token_ok t \<longleftrightarrow> (\<exists>k v. token_pair t = Some (k, v) \<and> k \<noteq> [] \<and> v \<noteq> [])"

lemma split_on_trimmed_Nil: "trim_space expr = [] \<Longrightarrow> selector_tokens expr = []"
  by (simp add: selector_tokens_def)

lemma check_tokens_None:
  "check_tokens ps = None \<longleftrightarrow> (\<forall>t \<in> set (filter (\<lambda>t. t \<noteq> []) (map trim_space ps)). token_ok t)"
proof (induction ps)
  case (Cons p ps)
  then show ?case
    by (auto simp: Let_def token_ok_def token_pair_def split: list.splits)
qed simp

lemma validate_annotation_selector_None:
  "validate_annotation_selector expr = None \<longleftrightarrow> (\<forall>t \<in> set (selector_tokens expr). token_ok t)"
  by (simp add: validate_annotation_selector_def check_tokens_None selector_tokens_def Let_def)

lemma match_tokens_Cons:
  "match_tokens ann (p # ps) =
     (if trim_space p = [] then match_tokens ann ps
      else (case token_pair (trim_space p) of
          None \<Rightarrow> False
        | Some (k, v) \<Rightarrow> ann \<noteq> None \<and> map_get ann k = v \<and> match_tokens ann ps))"
  by (simp add: token_pair_def Let_def split: list.split)

definition token_matches :: "string_map \<Rightarrow> string \<Rightarrow> bool" where
  "token_matches ann t \<longleftrightarrow> (\<exists>k v. token_pair t = Some (k, v) \<and> ann \<noteq> None \<and> map_get ann k = v)"

lemma match_tokens_iff:
  "match_tokens ann ps \<longleftrightarrow> (\<forall>t \<in> set (filter (\<lambda>t. t \<noteq> []) (map trim_space ps)). token_matches ann t)"
proof (induction ps)
  case (Cons p ps)
  have "match_tokens ann (p # ps) \<longleftrightarrow> (trim_space p \<noteq> [] \<longrightarrow> token_matches ann (trim_space p)) \<and> match_tokens ann ps"
    unfolding token_matches_def match_tokens_Cons
    by (cases "token_pair (trim_space p)") (simp_all split: prod.split, metis)
  with Cons.IH show ?case by (simp del: match_tokens.simps)
qed simp

lemma map_get_lookup: "v \<noteq> [] \<Longrightarrow> ann \<noteq> None \<and> map_get ann k = v \<longleftrightarrow> map_lookup ann k = Some v"
  by (auto simp: map_get_def map_lookup_def split: option.splits)

text \<open>C31: The meaning of an annotation selector: an expression that passes the check matches an object
  exactly if the object has every annotation the expression names, with the value it gives.\<close>

theorem annotation_selector_meaning:
  assumes "validate_annotation_selector expr = None"
  shows "annotations_match ann expr \<longleftrightarrow>
    (\<forall>t \<in> set (selector_tokens expr). \<forall>k v. token_pair t = Some (k, v) \<longrightarrow> map_lookup ann k = Some v)"
proof -
  have ok: "\<forall>t \<in> set (selector_tokens expr). token_ok t"
    using assms by (simp add: validate_annotation_selector_None)
  have "annotations_match ann expr \<longleftrightarrow> (\<forall>t \<in> set (selector_tokens expr). token_matches ann t)"
    by (simp add: annotations_match_def Let_def match_tokens_iff selector_tokens_def)
  moreover have "token_matches ann t \<longleftrightarrow> (\<forall>k v. token_pair t = Some (k, v) \<longrightarrow> map_lookup ann k = Some v)"
    if t: "token_ok t" for t
  proof -
    from t obtain k v where kv: "token_pair t = Some (k, v)" "v \<noteq> []" unfolding token_ok_def by blast
    with map_get_lookup [OF kv(2)] show ?thesis by (simp add: token_matches_def)
  qed
  ultimately show ?thesis using ok by (simp cong: ball_cong)
qed

theorem annotation_selector_meaning_witness:
  "annotations_match (Some [''tier'' \<mapsto> ''gold'']) ''tier=gold,'' \<and> \<not> annotations_match (Some [''tier'' \<mapsto> ''tin'']) ''tier=gold,''"
proof -
  have tokens: "selector_tokens ''tier=gold,'' = [''tier=gold'']"
    by (simp add: selector_tokens_def string_eval)
  have pair: "token_pair ''tier=gold'' = Some (''tier'', ''gold'')"
    by (simp add: token_pair_def string_eval)
  have "validate_annotation_selector ''tier=gold,'' = None"
    by (simp add: validate_annotation_selector_None tokens token_ok_def pair)
  from annotation_selector_meaning [OF this] show ?thesis by (simp add: tokens pair map_lookup_def)
qed

section \<open>Well-formed configurations\<close>

definition plugin_well_formed :: "plugin_config \<Rightarrow> bool" where
  "plugin_well_formed p \<longleftrightarrow> pc_name p \<noteq> [] \<and>
     (pc_stage p = [] \<or> to_lower (pc_stage p) \<in> {''deny'', ''route'', ''mutate''}) \<and>
     (to_lower (pc_type p) = ''grpc'' \<and> (\<exists>a. pc_grpc p = Some a \<and> a \<noteq> []) \<or>
      to_lower (pc_type p) = ''wasm'' \<and> (\<exists>a. pc_wasm p = Some a \<and> a \<noteq> []))"

definition selector_well_formed :: "(string \<Rightarrow> bool) \<Rightarrow> k8s_selector option \<Rightarrow> bool" where
  "selector_well_formed labels_ok sel \<longleftrightarrow> (\<forall>s. sel = Some s \<longrightarrow>
     (trim_space (sel_labels s) \<noteq> [] \<longrightarrow> labels_ok (trim_space (sel_labels s))) \<and>
     (\<forall>t \<in> set (selector_tokens (sel_annotations s)). token_ok t))"

definition agones_well_formed :: "(string \<Rightarrow> bool) \<Rightarrow> agones_discovery \<Rightarrow> bool" where
  "agones_well_formed labels_ok d \<longleftrightarrow> selector_well_formed labels_ok (ad_selector d) \<and>
     (\<forall>a. ad_address d = Some a \<longrightarrow> to_lower (trim_space (aa_source a)) \<in> {[], ''address'', ''addresses''}) \<and>
     (trim_space (ad_min_interval d) \<noteq> [] \<longrightarrow> parse_duration (ad_min_interval d) \<noteq> None)"

definition provider_well_formed :: "(string \<Rightarrow> bool) \<Rightarrow> discovery_provider \<Rightarrow> bool" where
  "provider_well_formed labels_ok p \<longleftrightarrow> dp_name p \<noteq> [] \<and>
     (normalize_type (dp_type p) = ''kubernetes'' \<and> (\<exists>d. dp_kubernetes p = Some d \<and>
        (\<forall>r \<in> set (kd_resources d). selector_well_formed labels_ok (kr_selector r))) \<or>
      normalize_type (dp_type p) = ''agones'' \<and> (\<exists>d. dp_agones p = Some d \<and> agones_well_formed labels_ok d))"

definition pools_of :: "routing_config \<Rightarrow> pool set" where
  "pools_of r = set_option (rc_default r) \<union> r_pool ` set (rc_routes r)"

definition well_formed_config :: "(string \<Rightarrow> bool) \<Rightarrow> config \<Rightarrow> bool" where
  "well_formed_config labels_ok c \<longleftrightarrow>
     cfg_listen c \<noteq> [] \<and>
     (tls_cert (cfg_tls c) = [] \<longleftrightarrow> tls_key (cfg_tls c) = []) \<and>
     tls_alpn (cfg_tls c) \<noteq> [] \<and>
     (quic_idle (cfg_quic c) = [] \<or> parse_duration (quic_idle (cfg_quic c)) \<noteq> None) \<and>
     validate_routing (cfg_routing c) = None \<and>
     distinct (map pc_name (cfg_plugins c)) \<and> (\<forall>p \<in> set (cfg_plugins c). plugin_well_formed p) \<and>
     distinct (provider_names (cfg_discovery c)) \<and>
     (\<forall>ps. cfg_discovery c = Some ps \<longrightarrow> (\<forall>p \<in> set ps. provider_well_formed labels_ok p)) \<and>
     (\<forall>p \<in> pools_of (cfg_routing c). \<forall>d. p_discovery p = Some d \<longrightarrow>
        dr_provider d \<in> set (provider_names (cfg_discovery c)))"

lemma distinct_take: "distinct xs \<longleftrightarrow> (\<forall>i < length xs. xs ! i \<notin> set (take i xs))"
proof (induction xs rule: rev_induct)
  case (snoc x xs)
  have "(\<forall>i < Suc (length xs). (xs @ [x]) ! i \<notin> set (take i (xs @ [x]))) \<longleftrightarrow>
      (\<forall>i < length xs. xs ! i \<notin> set (take i xs)) \<and> x \<notin> set xs"
    by (auto simp: less_Suc_eq nth_append)
  with snoc show ?case by auto
qed simp

lemma check_each_ball:
  assumes "\<And>i x. f i x = None \<longleftrightarrow> P x"
  shows "check_each f xs = None \<longleftrightarrow> (\<forall>x \<in> set xs. P x)"
  by (simp add: check_each_None assms all_set_conv_all_nth)

lemma check_each_distinct:
  assumes "\<And>i x. f i x = None \<longleftrightarrow> g x \<notin> set (map g (take i xs)) \<and> P x"
  shows "check_each f xs = None \<longleftrightarrow> distinct (map g xs) \<and> (\<forall>x \<in> set xs. P x)"
  using distinct_take [of "map g xs"] by (auto simp: check_each_None assms all_set_conv_all_nth take_map)

lemma validate_plugins_None:
  "check_each (validate_plugin ps) ps = None \<longleftrightarrow>
     distinct (map pc_name ps) \<and> (\<forall>p \<in> set ps. plugin_well_formed p)"
proof (rule check_each_distinct)
  show "validate_plugin ps i p = None \<longleftrightarrow> pc_name p \<notin> set (map pc_name (take i ps)) \<and> plugin_well_formed p" for i p
    by (auto simp: validate_plugin_def plugin_well_formed_def Let_def)
qed

lemma validate_selector_None:
  "validate_selector labels_ok e f s = None \<longleftrightarrow> selector_well_formed labels_ok (Some s)"
proof -
  have "validate_annotation_selector (trim_space x) = validate_annotation_selector x" for x
    by (simp add: validate_annotation_selector_def)
  moreover have "trim_space (sel_annotations s) = [] \<Longrightarrow> selector_tokens (sel_annotations s) = []"
    by (rule split_on_trimmed_Nil)
  ultimately show ?thesis
    by (auto simp: validate_selector_def Let_def selector_well_formed_def validate_annotation_selector_None)
qed

lemma selector_case_None:
  "(case sel of None \<Rightarrow> None | Some s \<Rightarrow> validate_selector labels_ok e f s) = None \<longleftrightarrow> selector_well_formed labels_ok sel"
  by (cases sel) (simp_all add: validate_selector_None, simp add: selector_well_formed_def)

lemma validate_provider_None:
  "validate_provider labels_ok ps i p = None \<longleftrightarrow>
     dp_name p \<notin> set (map dp_name (take i ps)) \<and> provider_well_formed labels_ok p"
proof -
  have k: "validate_kubernetes labels_ok i k = None \<longleftrightarrow>
      (\<exists>d. k = Some d \<and> (\<forall>r \<in> set (kd_resources d). selector_well_formed labels_ok (kr_selector r)))" for k
    unfolding validate_kubernetes_def
    by (cases k) (simp_all add: check_each_ball [OF selector_case_None])
  have a: "validate_agones labels_ok i a = None \<longleftrightarrow> (\<exists>d. a = Some d \<and> agones_well_formed labels_ok d)" for a
    by (cases a)
      (auto simp: validate_agones_def agones_well_formed_def selector_case_None Let_def split: option.splits)
  show ?thesis
    by (auto simp: validate_provider_def provider_well_formed_def normalize_type_def k a Let_def)
qed

lemma validate_discovery_None:
  "validate_discovery labels_ok d = None \<longleftrightarrow> distinct (provider_names d) \<and>
     (\<forall>ps. d = Some ps \<longrightarrow> (\<forall>p \<in> set ps. provider_well_formed labels_ok p))"
  by (cases d) (simp_all add: validate_discovery_def provider_names_def check_each_distinct [OF validate_provider_None])

lemma check_pool_None:
  "check_pool names path i p = None \<longleftrightarrow> (\<forall>d. p_discovery p = Some d \<longrightarrow> dr_provider d \<in> set names)"
  by (auto simp: check_pool_def split: option.split)

lemma validate_discovery_refs_None:
  "validate_discovery_refs r names = None \<longleftrightarrow>
     (\<forall>p \<in> pools_of r. \<forall>d. p_discovery p = Some d \<longrightarrow> dr_provider d \<in> set names)"
  by (cases "rc_default r")
    (simp_all add: validate_discovery_refs_def pools_of_def check_pool_None check_each_ball [OF check_pool_None])

text \<open>The check of a configuration is exactly the declared notion of a well-formed one.\<close>

lemma validate_config_None: "validate_config labels_ok c = None \<longleftrightarrow> well_formed_config labels_ok c"
  by (auto simp: validate_config_def well_formed_config_def validate_plugins_None validate_discovery_None
      validate_discovery_refs_None)

lemma loaded_config_fine:
  assumes "load_config read_file yaml json labels_ok path = Inr c"
  shows "well_formed_config labels_ok c \<and> msg_locales (cfg_messages c) \<noteq> None"
proof -
  from assms obtain c0 where "c = fill_locales c0" "validate_config labels_ok c = None"
    by (auto simp: load_config_def Let_def split: sum.splits option.splits if_splits)
  moreover have "msg_locales (cfg_messages (fill_locales c0)) \<noteq> None" by (simp add: fill_locales_def)
  ultimately show ?thesis using validate_config_None by blast
qed

text \<open>C6: A configuration that loads is well formed, whatever the file, the decoder and the label parser are,
  and has localized messages.\<close>

theorem loaded_config_well_formed:
  assumes "load_config read_file yaml json labels_ok path = Inr c"
  shows "well_formed_config labels_ok c \<and> msg_locales (cfg_messages c) \<noteq> None"
  using assms by (rule loaded_config_fine)

lemma default_idle: "parse_duration ''30s'' = Some 30000000000"
  by (simp add: parse_duration_def duration_items.simps duration_item_def digit_of_def is_digit_def duration_unit_def
      string_eval)

lemma default_config_well_formed: "well_formed_config labels_ok (fill_locales default_config)"
  by (simp add: well_formed_config_def fill_locales_def default_config_def validate_routing_def provider_names_def
      pools_of_def default_idle)

lemma well_formed_loads:
  assumes "well_formed_config labels_ok c" "msg_locales (cfg_messages c) = Some l"
  shows "load_config (\<lambda>_. Inr []) (\<lambda>_ _. Inr c) json labels_ok ''config.yaml'' = Inr c"
proof -
  have "validate_config labels_ok c = None" using assms(1) by (simp add: validate_config_None)
  with assms(2) show ?thesis by (simp add: load_config_def path_ext_def fill_locales_def string_eval)
qed

lemma default_loads:
  "load_config (\<lambda>_. Inr []) (\<lambda>_ _. Inr (fill_locales default_config)) json labels_ok ''config.yaml'' =
     Inr (fill_locales default_config)"
  by (rule well_formed_loads [OF default_config_well_formed]) (simp add: fill_locales_def default_config_def)

theorem loaded_config_well_formed_witness:
  "well_formed_config (\<lambda>_. True) (fill_locales default_config)"
  using loaded_config_well_formed [OF default_loads] by blast

text \<open>The default locales are told apart whatever the case, so that the order of the map is immaterial.\<close>

lemma default_locales_order:
  "set l = set default_locales \<Longrightarrow> lookup_disconnect_locale l lang = lookup_disconnect_locale default_locales lang"
proof (rule lookup_order_independent)
  have "map fst default_locales = [''de'', ''fr'', ''es'', ''pt'', ''pt-BR'', ''it'']" by (simp add: default_locales_def)
  then have "distinct (map (\<lambda>k. map rune_fold (runes k)) (map fst default_locales))"
    by (simp add: runes_ascii rune_fold_def ascii_lower_def)
  then have "distinct (map (\<lambda>x. map rune_fold (runes (fst x))) default_locales)"
    by (simp only: map_map comp_def)
  moreover assume "set l = set default_locales"
  ultimately show "keys_differ l" by (auto simp: keys_differ_def equal_fold_def distinct_map dest: inj_onD)
qed

section \<open>Providers\<close>

text \<open>Of a well-formed list of providers a manager is made that knows exactly the names.\<close>

lemma well_formed_provider_new:
  assumes "provider_well_formed labels_ok p"
  shows "\<exists>v. new_provider i p = Inr v"
  using assms
  by (auto simp: provider_well_formed_def new_provider_def new_kubernetes_provider_def new_agones_provider_def)

lemma add_providers_ok:
  "\<forall>p \<in> set ps. provider_well_formed labels_ok p \<Longrightarrow> distinct (map dp_name ps) \<Longrightarrow>
   \<forall>p \<in> set ps. m (dp_name p) = None \<Longrightarrow>
   \<exists>m'. add_providers i ps m = Inr m' \<and> dom m' = dom m \<union> set (map dp_name ps)"
proof (induction i ps m rule: add_providers.induct)
  case (2 i p ps m)
  from 2(2) obtain v where v: "new_provider i p = Inr v" using well_formed_provider_new [of labels_ok p i] by auto
  from 2(2) have name: "dp_name p \<noteq> []" by (simp add: provider_well_formed_def)
  from 2(4) have fresh: "m (dp_name p) = None" by simp
  have "\<exists>m'. add_providers (Suc i) ps (m(dp_name p \<mapsto> v)) = Inr m' \<and>
      dom m' = dom (m(dp_name p \<mapsto> v)) \<union> set (map dp_name ps)"
  proof (rule 2(1) [OF name _ v])
    show "\<forall>q \<in> set ps. (m(dp_name p \<mapsto> v)) (dp_name q) = None" using 2(3,4) by (auto simp: image_iff)
  qed (use 2 fresh in auto)
  with name fresh v show ?case by auto
qed simp

lemma well_formed_manager:
  assumes "well_formed_config labels_ok c" "cfg_discovery c = Some ps"
  shows "\<exists>m. new_manager (Some ps) = Inr m \<and> dom (mgr_providers m) = set (provider_names (cfg_discovery c))"
proof -
  have "\<exists>m'. add_providers 0 ps Map.empty = Inr m' \<and> dom m' = dom (Map.empty :: string \<rightharpoonup> provider) \<union> set (map dp_name ps)"
    by (rule add_providers_ok) (use assms in \<open>auto simp: well_formed_config_def provider_names_def\<close>)
  with assms(2) show ?thesis by (auto simp: new_manager_def provider_names_def)
qed

end
