(* ===== verification/Tls.thy ===== *)
theory Tls
  imports ConfigTypes GoCrypto GoSort GoStrings
begin

text \<open>
  \<^verbatim>\<open>internal/server/tls.go\<close>: the TLS configuration, the selection of the application protocol, and the
  fingerprint of a client certificate. Reading a key pair and making a self-signed one are arguments.
\<close>

section \<open>Application protocols\<close>

definition hytale_prefix :: string where
  "hytale_prefix = ''hytale/''"

text \<open>\<open>hytale/*\<close> stands for every Hytale version; the other names are taken as they are.\<close>

definition strict_protos :: "string list \<Rightarrow> bool \<times> string list" where
  "strict_protos alpn =
     (let next_protos = (if length alpn = 0 then [''hytale/*''] else alpn);
          ps = filter (\<lambda>p. p \<noteq> []) (map trim_space next_protos);
          strict = filter (\<lambda>p. p \<noteq> ''hytale/*'') ps
      in (''hytale/*'' \<in> set ps, if length strict = 0 then [''hytale/2'', ''hytale/1''] else strict))"

definition parse_hytale_version :: "string \<Rightarrow> int \<times> bool" where
  "parse_hytale_version alpn =
     (if \<not> has_prefix alpn hytale_prefix then (0, False)
      else let s = trim_prefix alpn hytale_prefix in
        if s = [] then (0, False)
        else (case atoi s of (v, ok) \<Rightarrow> if ok then (v, True) else (0, False)))"

record alpn_item =
  ai_proto :: string
  ai_version :: int
  ai_ok :: bool

definition alpn_item_of :: "string \<Rightarrow> alpn_item" where
  "alpn_item_of p = (case parse_hytale_version p of (v, ok) \<Rightarrow> \<lparr>ai_proto = p, ai_version = v, ai_ok = ok\<rparr>)"

definition alpn_less :: "alpn_item \<Rightarrow> alpn_item \<Rightarrow> bool" where
  "alpn_less a b =
     (if ai_ok a \<and> ai_ok b then
        (if ai_version a \<noteq> ai_version b then ai_version a > ai_version b else ai_proto a > ai_proto b)
      else if ai_ok a \<noteq> ai_ok b then ai_ok a
      else ai_proto a > ai_proto b)"

text \<open>The loop over the offered names.\<close>

fun alpn_items :: "string set \<Rightarrow> string list \<Rightarrow> alpn_item list" where
  "alpn_items seen [] = []"
| "alpn_items seen (p0 # ps) =
     (let p = trim_space p0 in
      if p = [] then alpn_items seen ps
      else if p \<in> seen then alpn_items seen ps
      else if \<not> has_prefix p hytale_prefix then alpn_items (insert p seen) ps
      else alpn_item_of p # alpn_items (insert p seen) ps)"

definition select_hytale_alpn :: "string list \<Rightarrow> string list" where
  "select_hytale_alpn offered =
     (if length offered = 0 then []
      else let items = alpn_items {} offered in
        if length items = 0 then [] else map ai_proto (stable_sort alpn_less items))"

text \<open>\<open>GetConfigForClient\<close>: the protocols the server supports towards a client.\<close>

definition config_for_client :: "bool \<times> string list \<Rightarrow> string list \<Rightarrow> string list" where
  "config_for_client protos offered =
     (case protos of (allow_any, strict) \<Rightarrow>
        if allow_any then
          (let selected = select_hytale_alpn offered in if 0 < length selected then selected else strict)
        else strict)"

definition has_string_intersection :: "string list \<Rightarrow> string list \<Rightarrow> bool" where
  "has_string_intersection a b =
     (if length a = 0 \<or> length b = 0 then False else list_ex (\<lambda>s. s \<in> set a) b)"

section \<open>Certificates\<close>

text \<open>A key pair from the files, or a generated one.\<close>

definition load_certificate :: "(string \<Rightarrow> string \<Rightarrow> 'e + 'k) \<Rightarrow> ('e + 'k) \<Rightarrow> tls_config \<Rightarrow> 'e + 'k" where
  "load_certificate load_pair self_signed cfg =
     (if tls_cert cfg \<noteq> [] \<or> tls_key cfg \<noteq> [] then load_pair (tls_cert cfg) (tls_key cfg) else self_signed)"

record 'k tls_setup =
  ts_certificate :: 'k
  ts_next_protos :: "string list"
  ts_request_client_cert :: bool
  ts_for_client :: "string list \<Rightarrow> string list"

definition build_tls_config :: "(string \<Rightarrow> string \<Rightarrow> 'e + 'k) \<Rightarrow> ('e + 'k) \<Rightarrow> tls_config \<Rightarrow> 'e + 'k tls_setup" where
  "build_tls_config load_pair self_signed cfg =
     (case load_certificate load_pair self_signed cfg of
        Inl e \<Rightarrow> Inl e
      | Inr cert \<Rightarrow>
        let protos = strict_protos (tls_alpn cfg) in
        Inr \<lparr>ts_certificate = cert, ts_next_protos = snd protos, ts_request_client_cert = True,
          ts_for_client = config_for_client protos\<rparr>)"

text \<open>\<open>base64.RawURLEncoding\<close>.\<close>

definition b64url_char :: "nat \<Rightarrow> char" where
  "b64url_char n =
     (if n < 26 then char_of (65 + n) else if n < 52 then char_of (71 + n) else if n < 62 then char_of (n - 4)
      else if n = 62 then CHR ''-'' else CHR ''_'')"

fun base64_raw_url :: "bytes \<Rightarrow> string" where
  "base64_raw_url [] = []"
| "base64_raw_url [a] = (let n = unat a * 16 in [b64url_char (n div 64), b64url_char (n mod 64)])"
| "base64_raw_url [a, b] =
     (let n = (unat a * 256 + unat b) * 4 in
      [b64url_char (n div 4096), b64url_char (n div 64 mod 64), b64url_char (n mod 64)])"
| "base64_raw_url (a # b # c # bs) =
     (let n = (unat a * 256 + unat b) * 256 + unat c in
      [b64url_char (n div 262144), b64url_char (n div 4096 mod 64), b64url_char (n div 64 mod 64), b64url_char (n mod 64)]
      @ base64_raw_url bs)"

text \<open>A certificate is its raw bytes; \<open>None\<close> is nil.\<close>

definition certificate_fingerprint :: "bytes option \<Rightarrow> string" where
  "certificate_fingerprint cert = (case cert of None \<Rightarrow> [] | Some raw \<Rightarrow> base64_raw_url (sha256 raw))"

section \<open>The order of the protocols\<close>

lemma alpn_item_of_simps [simp]: "ai_proto (alpn_item_of p) = p"
  "ai_ok (alpn_item_of p) = snd (parse_hytale_version p)"
  "ai_version (alpn_item_of p) = fst (parse_hytale_version p)"
  by (simp_all add: alpn_item_of_def split: prod.split)

interpretation alpn: weak_order alpn_less UNIV
  by unfold_locales (auto simp: alpn_less_def split: if_splits)

lemma set_alpn_items:
  "set (alpn_items seen ps) =
     alpn_item_of ` {p \<in> trim_space ` set ps. p \<noteq> [] \<and> p \<notin> seen \<and> has_prefix p hytale_prefix}"
proof (induction ps arbitrary: seen)
  case (Cons p0 ps)
  let ?p = "trim_space p0"
  consider "?p = [] \<or> ?p \<in> seen" | "?p \<noteq> []" "?p \<notin> seen" "\<not> has_prefix ?p hytale_prefix"
    | "?p \<noteq> []" "?p \<notin> seen" "has_prefix ?p hytale_prefix" by blast
  then show ?case by cases (auto simp: Cons.IH Let_def)
qed simp

lemma set_select_hytale_alpn:
  "set (select_hytale_alpn offered) = {p \<in> trim_space ` set offered. p \<noteq> [] \<and> has_prefix p hytale_prefix}"
proof -
  have "set (select_hytale_alpn offered) = ai_proto ` set (alpn_items {} offered)"
    by (simp add: select_hytale_alpn_def Let_def)
  then show ?thesis by (simp add: set_alpn_items image_image)
qed

text \<open>Protocol names in the order of preference: no name is preferred to one before it.\<close>

lemma select_hytale_alpn_sorted:
  "sorted_wrt (\<lambda>p q. \<not> alpn_less (alpn_item_of q) (alpn_item_of p)) (select_hytale_alpn offered)"
proof -
  have "sorted_wrt (\<lambda>x y. \<not> alpn_less y x) (stable_sort alpn_less (alpn_items {} offered))"
    by (rule alpn.stable_sort_ordered) simp
  moreover have "\<forall>x \<in> set (stable_sort alpn_less (alpn_items {} offered)). x = alpn_item_of (ai_proto x)"
    by (auto simp: set_alpn_items)
  ultimately have "sorted_wrt (\<lambda>x y. \<not> alpn_less (alpn_item_of (ai_proto y)) (alpn_item_of (ai_proto x)))
      (stable_sort alpn_less (alpn_items {} offered))"
    by (metis (mono_tags, lifting) sorted_wrt_mono_rel)
  then show ?thesis by (simp add: select_hytale_alpn_def Let_def sorted_wrt_map)
qed

lemma versioned_prefix: "parse_hytale_version p = (v, True) \<Longrightarrow> has_prefix p hytale_prefix"
  by (simp add: parse_hytale_version_def split: if_splits)

text \<open>A name with a version is first only behind names with a version that is not lower.\<close>

lemma select_head:
  assumes "p \<in> trim_space ` set offered" "parse_hytale_version p = (v, True)"
  shows "\<exists>q qs w. select_hytale_alpn offered = q # qs \<and> parse_hytale_version q = (w, True) \<and> v \<le> w"
proof -
  have "p \<in> set (select_hytale_alpn offered)"
    using assms versioned_prefix [OF assms(2)] by (auto simp: set_select_hytale_alpn hytale_prefix_def)
  then obtain q qs where q: "select_hytale_alpn offered = q # qs" "p = q \<or> p \<in> set qs"
    by (cases "select_hytale_alpn offered") auto
  then have "\<not> alpn_less (alpn_item_of p) (alpn_item_of q)"
    using select_hytale_alpn_sorted [of offered] alpn.irrefl [of "alpn_item_of p"] by auto
  with assms(2) q(1) show ?thesis
    by (cases "parse_hytale_version q") (auto simp: alpn_less_def split: if_splits)
qed

section \<open>The fingerprint\<close>

lemma b64url_char_inject: "m < 64 \<Longrightarrow> n < 64 \<Longrightarrow> b64url_char m = b64url_char n \<longleftrightarrow> m = n"
proof -
  assume lt: "m < 64" "n < 64"
  have code: "code (b64url_char k) = (if k < 26 then 65 + k else if k < 52 then 71 + k else if k < 62 then k - 4
      else if k = 62 then 45 else 95)" if "k < 64" for k
    using that by (simp add: b64url_char_def take_bit_eq_mod)
  show ?thesis
  proof
    assume "b64url_char m = b64url_char n"
    then have "code (b64url_char m) = code (b64url_char n)" by simp
    with lt show "m = n" by (simp add: code split: if_splits)
  qed simp
qed

lemma byte_eqI: "unat a = unat b \<Longrightarrow> a = b" for a b :: byte
  by (rule word_unat_eq_iff [THEN iffD2])

lemma digits_eqI: "n div k = m div k \<Longrightarrow> n mod k = m mod k \<Longrightarrow> n = m" for n m k :: nat
  by (metis div_mult_mod_eq)

lemma sextets_eqI:
  "n div 4096 = m div 4096 \<Longrightarrow> n div 64 mod 64 = m div 64 mod 64 \<Longrightarrow> n mod 64 = m mod 64 \<Longrightarrow> n = m" for n m :: nat
  using digits_eqI [of "n div 64" 64 "m div 64"] digits_eqI [of n 64 m] by (simp flip: div_mult2_eq)

lemma octets_eqI: "a * 256 + b = a' * 256 + b' \<Longrightarrow> b < 256 \<Longrightarrow> b' < 256 \<Longrightarrow> a = a' \<and> b = b'" for a b a' b' :: nat
proof -
  assume eq: "a * 256 + b = a' * 256 + b'" and lt: "b < 256" "b' < 256"
  have "(a * 256 + b) mod 256 = b" "(a' * 256 + b') mod 256 = b'" using lt by simp_all
  with eq show ?thesis by simp
qed

lemma base64_raw_url_length:
  "length (base64_raw_url bs) = length bs div 3 * 4 + (if length bs mod 3 = 0 then 0 else length bs mod 3 + 1)"
  by (induction bs rule: base64_raw_url.induct) (simp_all add: Let_def)

lemma base64_raw_url_inject: "base64_raw_url x = base64_raw_url y \<longleftrightarrow> x = y"
proof
  show "base64_raw_url x = base64_raw_url y \<Longrightarrow> x = y"
  proof (induction x arbitrary: y rule: base64_raw_url.induct)
    case 1
    then show ?case by (cases y rule: base64_raw_url.cases) (simp_all add: Let_def)
  next
    case (2 a)
    then obtain a' where y: "y = [a']" by (cases y rule: base64_raw_url.cases) (simp_all add: Let_def)
    have "unat a < 256" "unat a' < 256" using unsigned_less [of a] unsigned_less [of a'] by simp_all
    with 2 y have "unat a * 16 div 64 = unat a' * 16 div 64" "unat a * 16 mod 64 = unat a' * 16 mod 64"
      by (simp_all add: Let_def b64url_char_inject)
    then have "unat a * 16 = unat a' * 16" by (rule digits_eqI)
    then show ?case using y by (simp add: byte_eqI)
  next
    case (3 a b)
    then obtain a' b' where y: "y = [a', b']" by (cases y rule: base64_raw_url.cases) (simp_all add: Let_def)
    define n m where nm: "n = (unat a * 256 + unat b) * 4" "m = (unat a' * 256 + unat b') * 4"
    have lt: "unat a < 256" "unat a' < 256" "unat b < 256" "unat b' < 256"
      using unsigned_less [of a] unsigned_less [of a'] unsigned_less [of b] unsigned_less [of b'] by simp_all
    then have "n < 64 * 4096" "m < 64 * 4096" by (simp_all add: nm)
    then have "n div 4096 < 64" "m div 4096 < 64" by (simp_all add: less_mult_imp_div_less)
    moreover have "base64_raw_url [a, b] = [b64url_char (n div 4096), b64url_char (n div 64 mod 64), b64url_char (n mod 64)]"
      "base64_raw_url [a', b'] = [b64url_char (m div 4096), b64url_char (m div 64 mod 64), b64url_char (m mod 64)]"
      by (simp_all only: base64_raw_url.simps Let_def nm)
    ultimately have "n div 4096 = m div 4096" "n div 64 mod 64 = m div 64 mod 64" "n mod 64 = m mod 64"
      using 3 y by (simp_all add: b64url_char_inject)
    then have "n = m" by (rule sextets_eqI)
    then have "unat a * 256 + unat b = unat a' * 256 + unat b'" by (simp add: nm)
    with lt octets_eqI have "unat a = unat a'" "unat b = unat b'" by blast+
    then show ?case using y by (simp add: byte_eqI)
  next
    case (4 a b c bs)
    then obtain a' b' c' bs' where y: "y = a' # b' # c' # bs'"
      by (cases y rule: base64_raw_url.cases) (simp_all add: Let_def)
    define n m where nm: "n = (unat a * 256 + unat b) * 256 + unat c" "m = (unat a' * 256 + unat b') * 256 + unat c'"
    have lt: "unat a < 256" "unat a' < 256" "unat b < 256" "unat b' < 256" "unat c < 256" "unat c' < 256"
      using unsigned_less [of a] unsigned_less [of a'] unsigned_less [of b] unsigned_less [of b']
        unsigned_less [of c] unsigned_less [of c'] by simp_all
    then have "n < 64 * 262144" "m < 64 * 262144" by (simp_all add: nm)
    then have "n div 262144 < 64" "m div 262144 < 64" by (simp_all add: less_mult_imp_div_less)
    moreover have "base64_raw_url (a # b # c # bs) = [b64url_char (n div 262144), b64url_char (n div 4096 mod 64),
        b64url_char (n div 64 mod 64), b64url_char (n mod 64)] @ base64_raw_url bs"
      "base64_raw_url (a' # b' # c' # bs') = [b64url_char (m div 262144), b64url_char (m div 4096 mod 64),
        b64url_char (m div 64 mod 64), b64url_char (m mod 64)] @ base64_raw_url bs'"
      by (simp_all only: base64_raw_url.simps Let_def nm)
    ultimately have d: "n div 262144 = m div 262144" "n div 4096 mod 64 = m div 4096 mod 64"
      "n div 64 mod 64 = m div 64 mod 64" "n mod 64 = m mod 64" and bs: "base64_raw_url bs = base64_raw_url bs'"
      using 4(2) y by (simp_all add: b64url_char_inject)
    have "n div 64 = m div 64"
      by (rule sextets_eqI) (use d in \<open>simp_all flip: div_mult2_eq\<close>)
    with d(4) have "n = m" by (rule digits_eqI [rotated])
    with lt octets_eqI [of "unat a * 256 + unat b" "unat c" "unat a' * 256 + unat b'" "unat c'"]
    have "unat a * 256 + unat b = unat a' * 256 + unat b'" "unat c = unat c'" by (simp_all add: nm)
    with lt octets_eqI have "unat a = unat a'" "unat b = unat b'" "unat c = unat c'" by blast+
    then show ?case using y 4(1) [OF _ bs] by (simp add: byte_eqI)
  qed
qed simp

end
