(* ===== verification/PluginHosts.thy ===== *)
theory PluginHosts
  imports PluginManager HytaleCodec
begin

text \<open>
  \<^verbatim>\<open>internal/plugins/grpc_plugin.go\<close> and \<^verbatim>\<open>wasm_plugin.go\<close>: the two kinds of plugin. The gRPC client and
  the WebAssembly runtime are arguments, and so are the two directions of \<^verbatim>\<open>encoding/json\<close> on the
  messages, which theory \<open>PluginMessages\<close> defines.
\<close>

section \<open>gRPC\<close>

text \<open>\<open>invoke\<close> is the remote call over a connection.\<close>

definition grpc_on_connect ::
  "('k \<Rightarrow> connect_request \<Rightarrow> string + connect_response) \<Rightarrow> 'k \<Rightarrow> connect_request \<Rightarrow> string + connect_response"
where
  "grpc_on_connect invoke conn req = (case invoke conn req of Inl e \<Rightarrow> Inl e | Inr resp \<Rightarrow> Inr resp)"

definition new_grpc_plugin ::
  "(string \<Rightarrow> string + 'k) \<Rightarrow> ('k \<Rightarrow> connect_request \<Rightarrow> string + connect_response) \<Rightarrow> plugin_config \<Rightarrow> string + plugin"
where
  "new_grpc_plugin new_client invoke c =
     (case pc_grpc c of
        None \<Rightarrow> Inl ''grpc.address must not be empty''
      | Some address \<Rightarrow>
        if address = [] then Inl ''grpc.address must not be empty''
        else (case new_client address of
            Inl e \<Rightarrow> Inl e
          | Inr conn \<Rightarrow> Inr \<lparr>pl_name = pc_name c, pl_on_connect = grpc_on_connect invoke conn\<rparr>))"

section \<open>WebAssembly\<close>

text \<open>
  A module with its memory in the state \<open>'m\<close>: the two exported functions, which answer their results or an
  error, and the access to the memory.
\<close>

record 'm wasm_module =
  wm_alloc :: "u64 \<Rightarrow> 'm \<Rightarrow> (string + u64 list) \<times> 'm"
  wm_on_connect :: "u64 \<Rightarrow> u64 \<Rightarrow> 'm \<Rightarrow> (string + u64 list) \<times> 'm"
  wm_write :: "u32 \<Rightarrow> bytes \<Rightarrow> 'm \<Rightarrow> 'm option"
  wm_read :: "u32 \<Rightarrow> u32 \<Rightarrow> 'm \<Rightarrow> bytes option"

text \<open>The pointer and the length in the result of \<open>on_connect\<close>.\<close>

definition unpack_result :: "u64 \<Rightarrow> u32 \<times> u32" where
  "unpack_result packed = (ucast (drop_bit 32 packed), ucast (packed AND 0xFFFFFFFF))"

definition read_response ::
  "'m wasm_module \<Rightarrow> (bytes \<Rightarrow> string + connect_response) \<Rightarrow> u64 \<Rightarrow> 'm \<Rightarrow> string + connect_response"
where
  "read_response w unmarshal packed m =
     (case unpack_result packed of (ptr, len) \<Rightarrow>
        (case wm_read w ptr len m of
           None \<Rightarrow> Inl ''memory read failed''
         | Some b \<Rightarrow> unmarshal b))"

text \<open>\<open>OnConnect\<close>; \<open>None\<close> where the code panics: the results of a function that has none are indexed.\<close>

definition wasm_on_connect ::
  "'m wasm_module \<Rightarrow> (connect_request \<Rightarrow> string + bytes) \<Rightarrow> (bytes \<Rightarrow> string + connect_response) \<Rightarrow> 'm \<Rightarrow>
   connect_request \<Rightarrow> ((string + connect_response) \<times> 'm) option"
where
  "wasm_on_connect w marshal unmarshal m req =
     (case marshal req of
        Inl e \<Rightarrow> Some (Inl e, m)
      | Inr b \<Rightarrow>
        (case wm_alloc w (of_nat (length b)) m of
           (Inl e, m1) \<Rightarrow> Some (Inl e, m1)
         | (Inr [], m1) \<Rightarrow> None
         | (Inr (res # _), m1) \<Rightarrow>
           let ptr = (ucast res :: u32) in
           (case wm_write w ptr b m1 of
              None \<Rightarrow> Some (Inl ''memory write failed'', m1)
            | Some m2 \<Rightarrow>
              (case wm_on_connect w (ucast ptr) (of_nat (length b)) m2 of
                 (Inl e, m3) \<Rightarrow> Some (Inl e, m3)
               | (Inr [], m3) \<Rightarrow> None
               | (Inr (packed # _), m3) \<Rightarrow> Some (read_response w unmarshal packed m3, m3)))))"

text \<open>
  \<open>newWASMPlugin\<close>: the module is instantiated with the start function \<open>_initialize\<close>, or without a start
  function when that fails; both exports must be there.
\<close>

definition instantiate_module :: "('p \<Rightarrow> bool \<Rightarrow> string + 'i) \<Rightarrow> 'p \<Rightarrow> string + 'i" where
  "instantiate_module instantiate compiled =
     (case instantiate compiled True of Inr i \<Rightarrow> Inr i | Inl _ \<Rightarrow> instantiate compiled False)"

definition new_wasm_plugin ::
  "(string \<Rightarrow> string + bytes) \<Rightarrow> (bytes \<Rightarrow> string + 'p) \<Rightarrow> ('p \<Rightarrow> bool \<Rightarrow> string + 'i) \<Rightarrow> ('i \<Rightarrow> string \<Rightarrow> bool) \<Rightarrow>
   plugin_config \<Rightarrow> string + 'i"
where
  "new_wasm_plugin read_file compile instantiate exports c =
     (case pc_wasm c of
        None \<Rightarrow> Inl ''wasm.path must not be empty''
      | Some path \<Rightarrow>
        if path = [] then Inl ''wasm.path must not be empty''
        else (case read_file path of
            Inl e \<Rightarrow> Inl e
          | Inr b \<Rightarrow>
            (case compile b of
               Inl e \<Rightarrow> Inl e
             | Inr compiled \<Rightarrow>
               (case instantiate_module instantiate compiled of
                  Inl e \<Rightarrow> Inl e
                | Inr i \<Rightarrow>
                  if \<not> exports i ''alloc'' then Inl ''missing export: alloc''
                  else if \<not> exports i ''on_connect'' then Inl ''missing export: on_connect''
                  else Inr i))))"

section \<open>Properties\<close>

text \<open>A guest packs the pointer of its answer into the upper and the length into the lower 32 bits.\<close>

definition pack_result :: "u32 \<Rightarrow> u32 \<Rightarrow> u64" where
  "pack_result ptr len = push_bit 32 (ucast ptr) OR ucast len"

lemma unpack_pack_result: "unpack_result (pack_result ptr len) = (ptr, len)"
proof -
  have "ucast (drop_bit 32 (pack_result ptr len)) = ptr"
    by (rule bit_word_eqI) (auto simp: pack_result_def bit_simps dest: bit_imp_le_length)
  moreover have "ucast (pack_result ptr len AND 0xFFFFFFFF) = len"
  proof -
    have m: "(0xFFFFFFFF :: u64) = mask 32" by (simp add: mask_eq_exp_minus_1)
    show ?thesis
      unfolding m by (rule bit_word_eqI) (auto simp: pack_result_def bit_simps dest: bit_imp_le_length)
  qed
  ultimately show ?thesis by (simp add: unpack_result_def)
qed

text \<open>
  An exchange with a guest that keeps the convention: what it wrote at its pointer is what the router decodes.
\<close>

lemma wasm_exchange:
  assumes "marshal req = Inr b" "wm_alloc w (of_nat (length b)) m = (Inr (p # ps), m1)"
    and "wm_write w (ucast p) b m1 = Some m2"
    and "wm_on_connect w (ucast (ucast p :: u32)) (of_nat (length b)) m2 = (Inr (pack_result ptr len # qs), m3)"
    and "wm_read w ptr len m3 = Some answer"
  shows "wasm_on_connect w marshal unmarshal m req = Some (unmarshal answer, m3)"
  using assms by (simp add: wasm_on_connect_def read_response_def unpack_pack_result)

lemma new_wasm_plugin_exports:
  "new_wasm_plugin rf compile inst exports c = Inr i \<Longrightarrow> exports i ''alloc'' \<and> exports i ''on_connect''"
  by (auto simp: new_wasm_plugin_def split: option.splits sum.splits if_splits)

end
