(* ===== verification/ServerRun.thy ===== *)
theory ServerRun
  imports Streams ConfigLoad DiscoveryManager Tls PluginOrder PluginHosts
begin

text \<open>
  \<^verbatim>\<open>internal/server/server.go\<close> and \<^verbatim>\<open>cmd/hyrouter/main.go\<close>: building the server from a configuration,
  the start, the acceptance of connections and streams, and the command. The network, the loading of
  plugins and of key files are arguments; logging and the closing of the plugins are left out.
\<close>

section \<open>The server\<close>

datatype init_error = InitDiscovery discovery_error | InitSecret referral_error

text \<open>
  The fields of \<open>Server\<close>. \<open>ss_callback\<close> tells that the engine was given the discovery callback, a closure
  over the manager.
\<close>

record server_state =
  ss_cfg :: "config option"
  ss_router :: "engine option"
  ss_discovery :: "manager option"
  ss_callback :: bool
  ss_init_error :: "init_error option"
  ss_plugin_cfgs :: "plugin_config list"
  ss_plugins :: "plugin list option"
  ss_key_id :: byte
  ss_secret :: "bytes option"

definition init_discovery :: "config \<Rightarrow> discovery_error option \<times> manager option" where
  "init_discovery c =
     (case cfg_discovery c of
        None \<Rightarrow> (None, None)
      | Some ps \<Rightarrow> (case new_manager (Some ps) of Inl e \<Rightarrow> (Some e, None) | Inr m \<Rightarrow> (None, Some m)))"

definition init_secret :: "config \<Rightarrow> byte \<times> (referral_error + bytes option)" where
  "init_secret c =
     (case cfg_referral c of
        None \<Rightarrow> (0, Inr None)
      | Some r \<Rightarrow>
        (ref_key_id r,
         if trim_space (ref_secret r) = [] then Inr None
         else (case decode_secret (ref_secret r) of Inl e \<Rightarrow> Inl e | Inr b \<Rightarrow> Inr (Some b))))"

text \<open>The first error is kept.\<close>

definition new_server :: "config option \<Rightarrow> (nat \<Rightarrow> nat) \<Rightarrow> server_state" where
  "new_server cfg rng =
     (case cfg of
        None \<Rightarrow>
          \<lparr>ss_cfg = None, ss_router = None, ss_discovery = None, ss_callback = False, ss_init_error = None,
           ss_plugin_cfgs = [], ss_plugins = None, ss_key_id = 0, ss_secret = None\<rparr>
      | Some c \<Rightarrow>
        (case (init_discovery c, init_secret c) of
           ((derr, dm), (key_id, secret)) \<Rightarrow>
             \<lparr>ss_cfg = Some c,
              ss_router = Some (new_static_engine (cfg_routing c) rng),
              ss_discovery = dm,
              ss_callback = (dm \<noteq> None),
              ss_init_error = (case derr of
                  Some e \<Rightarrow> Some (InitDiscovery e)
                | None \<Rightarrow> (case secret of Inl e \<Rightarrow> Some (InitSecret e) | Inr _ \<Rightarrow> None)),
              ss_plugin_cfgs = cfg_plugins c,
              ss_plugins = None,
              ss_key_id = key_id,
              ss_secret = (case secret of Inl _ \<Rightarrow> None | Inr b \<Rightarrow> b)\<rparr>))"

text \<open>The closure handed to the engine; \<open>render\<close> is the text of an error.\<close>

definition discovery_callback :: "(discovery_error \<Rightarrow> string) \<Rightarrow> 'c cluster \<Rightarrow> manager \<Rightarrow> discovery_fn" where
  "discovery_callback render w m provider =
     (case fst (manager_resolve w provider m) of
        None \<Rightarrow> Inl (render (UnknownProvider provider))
      | Some (Inl e) \<Rightarrow> Inl (render e)
      | Some (Inr bs) \<Rightarrow> Inr bs)"

text \<open>
  What a stream sees of the server: the state of the world, of the manager and of the plugins at each packet.
\<close>

definition stream_server ::
  "(discovery_error \<Rightarrow> string) \<Rightarrow> (string \<Rightarrow> string) \<Rightarrow> (nat \<Rightarrow> 'c cluster) \<Rightarrow> (nat \<Rightarrow> manager) \<Rightarrow>
   (nat \<Rightarrow> plugin \<Rightarrow> plugin) \<Rightarrow> server_state \<Rightarrow> server"
where
  "stream_server render quote world managers answering s =
     \<lparr>srv_router = (ss_router s \<noteq> None),
      srv_now = (\<lambda>n. cl_now (world n) div 1000000),
      srv_discovery = (\<lambda>n. if ss_callback s then Some (discovery_callback render (world n) (managers n)) else None),
      srv_plugins = map_option (\<lambda>ps n. map (answering n) ps) (ss_plugins s),
      srv_messages = map_option cfg_messages (ss_cfg s),
      srv_key_id = ss_key_id s,
      srv_secret = ss_secret s,
      srv_quote = quote\<rparr>"

section \<open>The start\<close>

datatype start_error =
    StartInit init_error | StartTls string | StartDiscovery discovery_error
  | StartPluginOrder string | StartPluginLoad load_error | StartIdle | StartListen string | StartAccept string

text \<open>The environment of the start.\<close>

record ('c, 'k) environment =
  en_load_pair :: "string \<Rightarrow> string \<Rightarrow> string + 'k"
  en_self_signed :: "string + 'k"
  en_cluster :: "'c cluster"
  en_provider_order :: "string list"
  en_stage_order :: "string list"
  en_new_grpc :: "plugin_config \<Rightarrow> string + plugin"
  en_new_wasm :: "plugin_config \<Rightarrow> string + plugin"
  en_listen :: "string \<Rightarrow> 'k tls_setup \<Rightarrow> int \<Rightarrow> string option"

definition init_plugins :: "('c, 'k) environment \<Rightarrow> server_state \<Rightarrow> start_error option \<times> server_state" where
  "init_plugins env s =
     (if ss_plugins s \<noteq> None then (None, s)
      else if length (ss_plugin_cfgs s) = 0 then (None, s)
      else (case order_plugin_configs (en_stage_order env) (ss_plugin_cfgs s) of
          Inl e \<Rightarrow> (Some (StartPluginOrder e), s)
        | Inr ordered \<Rightarrow>
          (case load_all (en_new_grpc env) (en_new_wasm env) ordered of
             Inl e \<Rightarrow> (Some (StartPluginLoad e), s)
           | Inr pls \<Rightarrow> (None, s\<lparr>ss_plugins := Some pls\<rparr>))))"

definition start_discovery :: "('c, 'k) environment \<Rightarrow> server_state \<Rightarrow> start_error option \<times> server_state" where
  "start_discovery env s =
     (case ss_discovery s of
        None \<Rightarrow> (None, s)
      | Some m \<Rightarrow>
        (case manager_start (en_cluster env, en_provider_order env) m of
           (e, m') \<Rightarrow> (map_option StartDiscovery e, s\<lparr>ss_discovery := Some m'\<rparr>)))"

text \<open>In nanoseconds.\<close>

definition max_idle_timeout :: "config \<Rightarrow> int option" where
  "max_idle_timeout c =
     (if quic_idle (cfg_quic c) = [] then Some 30000000000 else parse_duration (quic_idle (cfg_quic c)))"

text \<open>\<open>Run\<close> up to the listener; \<open>None\<close> where it panics, for want of a configuration.\<close>

definition prepare :: "('c, 'k) environment \<Rightarrow> server_state \<Rightarrow> (start_error option \<times> server_state) option" where
  "prepare env s =
     (case ss_init_error s of
        Some e \<Rightarrow> Some (Some (StartInit e), s)
      | None \<Rightarrow>
        (case ss_cfg s of
           None \<Rightarrow> None
         | Some c \<Rightarrow>
           (case build_tls_config (en_load_pair env) (en_self_signed env) (cfg_tls c) of
              Inl e \<Rightarrow> Some (Some (StartTls e), s)
            | Inr tls \<Rightarrow>
              (case start_discovery env s of
                 (Some e, s1) \<Rightarrow> Some (Some e, s1)
               | (None, s1) \<Rightarrow>
                 (case init_plugins env s1 of
                    (Some e, s2) \<Rightarrow> Some (Some e, s2)
                  | (None, s2) \<Rightarrow>
                    (case max_idle_timeout c of
                       None \<Rightarrow> Some (Some StartIdle, s2)
                     | Some d \<Rightarrow> Some (map_option StartListen (en_listen env (cfg_listen c) tls d), s2)))))))"

text \<open>
  The accept loop. An event is a connection or an error, with whether the context has ended (or the error
  says so). The answer is the connections handled and the result of \<open>Run\<close>, \<open>None\<close> while it runs.
\<close>

datatype 'n accept_event = Accepted 'n | AcceptFails string bool

fun accept_loop :: "'n accept_event list \<Rightarrow> 'n list \<times> start_error option option" where
  "accept_loop [] = ([], None)"
| "accept_loop (Accepted conn # evs) = apfst (Cons conn) (accept_loop evs)"
| "accept_loop (AcceptFails e ended # evs) = ([], Some (if ended then None else Some (StartAccept e)))"

definition run_server ::
  "('c, 'k) environment \<Rightarrow> 'n accept_event list \<Rightarrow> server_state \<Rightarrow>
   (('n list \<times> start_error option option) \<times> server_state) option"
where
  "run_server env evs s =
     (case prepare env s of
        None \<Rightarrow> None
      | Some (Some e, s') \<Rightarrow> Some (([], Some (Some e)), s')
      | Some (None, s') \<Rightarrow> Some (accept_loop evs, s'))"

section \<open>Connections and streams\<close>

text \<open>What \<open>handleConn\<close> reads from the state of a connection.\<close>

record peer =
  pe_server_name :: string
  pe_certificates :: "bytes list"

definition base_event :: "peer \<Rightarrow> connect_event" where
  "base_event pe =
     \<lparr>ev_sni = pe_server_name pe,
      ev_fingerprint = (if 0 < length (pe_certificates pe) then certificate_fingerprint (Some (pe_certificates pe ! 0)) else []),
      ev_hash = [], ev_client_type = 0, ev_uuid = [], ev_username = [], ev_language = [], ev_identity = False\<rparr>"

text \<open>
  All streams of all connections run at the same time and share the engine. A live stream has what
  \<open>dumpFrames\<close> was called with (of the writer, its state at that time), its buffer, its variables, and
  whether the function has returned.
\<close>

record 'w live_stream =
  ls_io :: "'w stream_io"
  ls_event :: connect_event
  ls_start :: 'w
  ls_buffer :: bytes
  ls_vars :: "'w stream"
  ls_done :: bool

record 'w system =
  sy_engine :: engine
  sy_streams :: "nat \<Rightarrow> 'w live_stream option"

text \<open>\<open>acceptBidiStreams\<close> and \<open>acceptUniStreams\<close>: a new stream of a peer.\<close>

definition accept_stream :: "nat \<Rightarrow> peer \<Rightarrow> 'w stream_io \<Rightarrow> 'w \<Rightarrow> 'w system \<Rightarrow> 'w system" where
  "accept_stream k pe io w sy =
     sy\<lparr>sy_streams := (sy_streams sy)(k \<mapsto>
       \<lparr>ls_io = io, ls_event = base_event pe, ls_start = w, ls_buffer = [],
        ls_vars = open_stream no_decision None (sy_engine sy) w, ls_done = False\<rparr>)\<rparr>"

definition update_stream :: "nat \<Rightarrow> 'w live_stream \<Rightarrow> engine \<Rightarrow> 'w system \<Rightarrow> 'w system" where
  "update_stream k l e sy = sy\<lparr>sy_engine := e, sy_streams := (sy_streams sy)(k \<mapsto> l)\<rparr>"

text \<open>A packet of a stream is handled with the engine as all streams have left it.\<close>

definition stream_packet :: "server \<Rightarrow> 'w live_stream \<Rightarrow> engine \<Rightarrow> int \<Rightarrow> bytes \<Rightarrow> (bool \<times> 'w stream) option" where
  "stream_packet srv l e i p = handle_packet srv (ls_io l) (ls_event l) i p ((ls_vars l)\<lparr>st_engine := e\<rparr>)"

text \<open>
  A step of the system: a stream is accepted; a stream whose buffer holds no whole frame reads more, or
  fails to; a packet is handled; a frame is invalid. Handling one packet is atomic.
\<close>

inductive system_step :: "server \<Rightarrow> 'w system \<Rightarrow> 'w system \<Rightarrow> bool" for srv where
  Accept: "sy_streams sy k = None \<Longrightarrow> system_step srv sy (accept_stream k pe io w sy)"
| Reads: "sy_streams sy k = Some l \<Longrightarrow> \<not> ls_done l \<Longrightarrow> cut_frame (ls_buffer l) = NeedMore \<Longrightarrow>
    system_step srv sy (update_stream k (l\<lparr>ls_buffer := ls_buffer l @ chunk\<rparr>) (sy_engine sy) sy)"
| ReadFails: "sy_streams sy k = Some l \<Longrightarrow> \<not> ls_done l \<Longrightarrow> cut_frame (ls_buffer l) = NeedMore \<Longrightarrow>
    system_step srv sy (update_stream k (l\<lparr>ls_done := True\<rparr>) (sy_engine sy) sy)"
| Packet: "sy_streams sy k = Some l \<Longrightarrow> \<not> ls_done l \<Longrightarrow> cut_frame (ls_buffer l) = NextFrame i p rest \<Longrightarrow>
    stream_packet srv l (sy_engine sy) i p = Some (stop, st) \<Longrightarrow>
    system_step srv sy (update_stream k (l\<lparr>ls_buffer := rest, ls_vars := st, ls_done := stop\<rparr>) (st_engine st) sy)"
| Invalid: "sy_streams sy k = Some l \<Longrightarrow> \<not> ls_done l \<Longrightarrow> cut_frame (ls_buffer l) = InvalidFrame \<Longrightarrow>
    system_step srv sy (update_stream k (l\<lparr>ls_done := True\<rparr>) (sy_engine sy) sy)"

inductive system_run :: "server \<Rightarrow> 'w system \<Rightarrow> 'w system \<Rightarrow> bool" for srv where
  run_nil: "system_run srv sy sy"
| run_step: "system_run srv sy sy' \<Longrightarrow> system_step srv sy' sy'' \<Longrightarrow> system_run srv sy sy''"

inductive_cases system_stepE: "system_step srv sy sy'"

section \<open>The command\<close>

datatype log_level = LevelDebug | LevelInfo | LevelWarn | LevelError

definition parse_log_level :: "string \<Rightarrow> log_level option" where
  "parse_log_level s =
     (let l = to_lower (trim_space s) in
      if l = ''debug'' then Some LevelDebug
      else if l = ''info'' then Some LevelInfo
      else if l = ''warn'' \<or> l = ''warning'' then Some LevelWarn
      else if l = ''error'' then Some LevelError
      else None)"

text \<open>
  \<open>parse_flags\<close> is package \<^verbatim>\<open>flag\<close> with the two flags of the command: the path and the level. The answer is
  whether the command fails.
\<close>

definition run_command ::
  "(string list \<Rightarrow> (string \<times> string) option) \<Rightarrow> (string \<Rightarrow> config_error + config) \<Rightarrow> (config \<Rightarrow> bool) \<Rightarrow> string list \<Rightarrow> bool"
where
  "run_command parse_flags load serve_fails args =
     (case parse_flags args of
        None \<Rightarrow> True
      | Some (path, level) \<Rightarrow>
        (case parse_log_level level of
           None \<Rightarrow> True
         | Some _ \<Rightarrow> (case load path of Inl _ \<Rightarrow> True | Inr c \<Rightarrow> serve_fails c)))"

definition main_main ::
  "(string list \<Rightarrow> (string \<times> string) option) \<Rightarrow> (string \<Rightarrow> config_error + config) \<Rightarrow> (config \<Rightarrow> bool) \<Rightarrow> string list \<Rightarrow> int"
where
  "main_main parse_flags load serve_fails args = (if run_command parse_flags load serve_fails args then 1 else 0)"

end
