(* ===== verification/ServerSystem.thy ===== *)
theory ServerSystem
  imports ServerRun StreamSession RoutingFair
begin

text \<open>
  The concurrent streams of \<^verbatim>\<open>internal/server\<close>: whatever the interleaving of their packets, the engine
  sees one sequence of decisions, and every stream is a session of its own.
\<close>

section \<open>Sequences of decisions\<close>

lemma run_decides_append:
  "run_decides cs e = Some (rs, e') \<Longrightarrow> run_decides ds e' = Some (ss, e'') \<Longrightarrow>
   run_decides (cs @ ds) e = Some (rs @ ss, e'')"
proof (induction cs arbitrary: e rs)
  case (Cons c cs)
  obtain disc now rq where c: "c = (disc, now, rq)" by (cases c)
  from Cons.prems(1) obtain r e1 rs1 where
    "decide disc now rq e = Some (r, e1)" "run_decides cs e1 = Some (rs1, e')" "rs = r # rs1"
    by (auto simp: c split: option.splits prod.splits)
  with Cons.IH Cons.prems(2) show ?case by (simp add: c)
qed simp

text \<open>
  Between two states the engine has made some decisions, and the decision of a stream is the old one or
  one of them.
\<close>

definition decided :: "engine \<Rightarrow> decision \<Rightarrow> engine \<Rightarrow> decision \<Rightarrow> bool" where
  "decided e d e' d' \<longleftrightarrow> (\<exists>calls rs. run_decides calls e = Some (rs, e') \<and> (d' = d \<or> Inr d' \<in> set rs))"

lemma decided_refl: "decided e d e d"
  unfolding decided_def by (intro exI [of _ "[]"]) simp

lemma route_connect_decided:
  assumes "route_connect srv rq st = Some st'"
  shows "decided (st_engine st) (st_decision st) (st_engine st') (st_decision st')"
proof (cases "srv_router srv")
  case True
  with assms obtain r e where
    r: "decide (srv_discovery srv (st_count st)) (srv_now srv (st_count st)) rq (st_engine st) = Some (r, e)"
    by (auto simp: route_connect_def split: bind_splits)
  then have "run_decides [(srv_discovery srv (st_count st), srv_now srv (st_count st), rq)] (st_engine st) = Some ([r], e)"
    by simp
  moreover have "st_engine st' = e \<and> (st_decision st' = st_decision st \<or> Inr (st_decision st') = r)"
    using assms True r by (cases r) (auto simp: route_connect_def)
  ultimately show ?thesis unfolding decided_def by fastforce
next
  case False
  with assms show ?thesis by (simp add: route_connect_def decided_refl)
qed

lemma answers_decision:
  "send_disconnect io reason st = Some st' \<Longrightarrow> st_decision st' = st_decision st"
  "send_referral srv io st = Some st' \<Longrightarrow> st_decision st' = st_decision st"
  by (auto simp: send_disconnect_def send_referral_def split: option.splits sum.splits if_splits bind_splits)

lemma answer_connect_keeps:
  "answer_connect srv io sni lang decoded st = Some (stop, st') \<Longrightarrow>
   st_engine st' = st_engine st \<and> st_decision st' = st_decision st"
  using answer_connect_engine [of srv io sni lang decoded st stop st']
  by (auto simp: answer_connect_def refuse_def Let_def answers_decision split: bind_splits if_splits)

lemma handle_connect_decided:
  assumes "handle_connect srv io base info st0 = Some (stop, st')"
  shows "decided (st_engine st0) (st_decision st0) (st_engine st') (st_decision st')"
proof -
  from assms obtain st where st: "route_connect srv (connect_request_of base info) st0 = Some st"
    by (auto simp: handle_connect_eq split: bind_splits)
  with assms have "st_engine st' = st_engine st \<and> st_decision st' = st_decision st"
    by (auto simp: handle_connect_eq answers_engine answers_decision split: option.splits if_splits bind_splits
        dest!: answer_connect_keeps)
  with route_connect_decided [OF st] show ?thesis by simp
qed

lemma handle_unreadable_decided:
  assumes "handle_unreadable srv io base st0 = Some (stop, st')"
  shows "decided (st_engine st0) (st_decision st0) (st_engine st') (st_decision st')"
proof -
  from assms obtain rq st lang where st: "route_connect srv rq st0 = Some st"
    "answer_connect srv io (ev_sni base) lang False st = Some (stop, st')"
    by (auto simp: handle_unreadable_def split: bind_splits)
  from route_connect_decided [OF st(1)] answer_connect_keeps [OF st(2)] show ?thesis by simp
qed

lemma handle_packet_decided:
  assumes "handle_packet srv io base i p st = Some (stop, st')"
  shows "decided (st_engine st) (st_decision st) (st_engine st') (st_decision st')"
  using assms
  by (auto simp: handle_packet_def count_packet_def decided_refl split: if_splits bind_splits
      dest: handle_connect_decided handle_unreadable_decided)

section \<open>The invariants of the system\<close>

definition linear :: "engine \<Rightarrow> 'w system \<Rightarrow> bool" where
  "linear e0 sy \<longleftrightarrow> (\<exists>calls rs. run_decides calls e0 = Some (rs, sy_engine sy) \<and>
     (\<forall>k l. sy_streams sy k = Some l \<longrightarrow>
        st_decision (ls_vars l) = no_decision \<or> Inr (st_decision (ls_vars l)) \<in> set rs))"

lemma linear_keep:
  assumes "linear e0 sy" "\<And>j q. sy_streams sy' j = Some q \<Longrightarrow>
      st_decision (ls_vars q) = no_decision \<or> (\<exists>l. sy_streams sy j = Some l \<and> st_decision (ls_vars q) = st_decision (ls_vars l))"
    and "sy_engine sy' = sy_engine sy"
  shows "linear e0 sy'"
  using assms unfolding linear_def by metis

lemma linear_step:
  assumes "linear e0 sy" "sy_streams sy k = Some l"
    and "decided (sy_engine sy) (st_decision (ls_vars l)) e' (st_decision (ls_vars l'))"
  shows "linear e0 (update_stream k l' e' sy)"
proof -
  from assms(1) obtain calls rs where run: "run_decides calls e0 = Some (rs, sy_engine sy)"
    and ds: "\<forall>j q. sy_streams sy j = Some q \<longrightarrow> st_decision (ls_vars q) = no_decision \<or> Inr (st_decision (ls_vars q)) \<in> set rs"
    unfolding linear_def by blast
  from assms(3) obtain more ss where more: "run_decides more (sy_engine sy) = Some (ss, e')"
    "st_decision (ls_vars l') = st_decision (ls_vars l) \<or> Inr (st_decision (ls_vars l')) \<in> set ss"
    unfolding decided_def by blast
  have all: "st_decision (ls_vars q) = no_decision \<or> Inr (st_decision (ls_vars q)) \<in> set (rs @ ss)"
    if "sy_streams (update_stream k l' e' sy) j = Some q" for j q
  proof (cases "j = k")
    case True
    with that have "q = l'" by (simp add: update_stream_def)
    moreover from ds assms(2) have "st_decision (ls_vars l) = no_decision \<or> Inr (st_decision (ls_vars l)) \<in> set rs" by blast
    ultimately show ?thesis using more(2) by auto
  next
    case False
    with that have "sy_streams sy j = Some q" by (simp add: update_stream_def)
    with ds show ?thesis by auto
  qed
  have "run_decides (calls @ more) e0 = Some (rs @ ss, sy_engine (update_stream k l' e' sy))"
    using run_decides_append [OF run more(1)] by (simp add: update_stream_def)
  with all show ?thesis unfolding linear_def by blast
qed

lemma system_step_linear:
  assumes "system_step srv sy sy'" "linear e0 sy"
  shows "linear e0 sy'"
  using assms(1)
proof (rule system_stepE)
  fix k pe io w assume "sy' = accept_stream k pe io w sy" "sy_streams sy k = None"
  then show ?thesis
    by (intro linear_keep [OF assms(2)]) (auto simp: accept_stream_def open_stream_def split: if_splits)
next
  fix k l chunk assume s: "sy' = update_stream k (l\<lparr>ls_buffer := ls_buffer l @ chunk\<rparr>) (sy_engine sy) sy" "sy_streams sy k = Some l"
  show ?thesis unfolding s(1) by (rule linear_step [OF assms(2) s(2)]) (simp add: decided_refl)
next
  fix k l assume s: "sy' = update_stream k (l\<lparr>ls_done := True\<rparr>) (sy_engine sy) sy" "sy_streams sy k = Some l"
  show ?thesis unfolding s(1) by (rule linear_step [OF assms(2) s(2)]) (simp add: decided_refl)
  show ?thesis unfolding s(1) by (rule linear_step [OF assms(2) s(2)]) (simp add: decided_refl)
next
  fix k l i p rest stop st
  assume s: "sy' = update_stream k (l\<lparr>ls_buffer := rest, ls_vars := st, ls_done := stop\<rparr>) (st_engine st) sy"
    "sy_streams sy k = Some l" "stream_packet srv l (sy_engine sy) i p = Some (stop, st)"
  show ?thesis unfolding s(1)
    by (rule linear_step [OF assms(2) s(2)]) (use handle_packet_decided s(3) in \<open>fastforce simp: stream_packet_def\<close>)
qed

lemma system_run_linear: "system_run srv sy sy' \<Longrightarrow> linear e0 sy \<Longrightarrow> linear e0 sy'"
  by (induction rule: system_run.induct) (auto intro: system_step_linear)

definition idle_system :: "engine \<Rightarrow> 'w system" where
  "idle_system e = \<lparr>sy_engine = e, sy_streams = (\<lambda>_. None)\<rparr>"

lemma idle_linear [simp]: "linear e (idle_system e)"
  by (simp add: linear_def idle_system_def) (rule exI [of _ "[]"], simp)

section \<open>Sessions\<close>

text \<open>A stream has been a session, with answers of a kind, since it was opened.\<close>

definition in_session :: "('w \<Rightarrow> bytes) \<Rightarrow> (answer \<Rightarrow> bool) \<Rightarrow> 'w live_stream \<Rightarrow> bool" where
  "in_session written ok l \<longleftrightarrow>
     (\<exists>e. advances written ok (open_stream no_decision None e (ls_start l)) (ls_done l) (ls_vars l))"

lemma in_session_done: "in_session written ok l \<Longrightarrow> \<not> ls_done l \<Longrightarrow> in_session written ok (l\<lparr>ls_done := True\<rparr>)"
  by (auto simp: in_session_def intro: advances_stop)

text \<open>
  What the handling of a packet must keep of the shared engine and of the variables of a stream, so that
  all streams of a running system answer in the way of \<open>ok\<close>.
\<close>

locale safe_packets =
  fixes srv :: server
    and engine_fine :: "engine \<Rightarrow> bool"
    and vars_fine :: "'w stream \<Rightarrow> bool"
    and ok :: "answer \<Rightarrow> bool"
    and written :: "'w \<Rightarrow> bytes"
  assumes engine_kept: "handle_packet srv io base i p (st :: 'w stream) = Some (stop, st') \<Longrightarrow>
      engine_fine (st_engine st) \<Longrightarrow> engine_fine (st_engine st')"
    and vars_kept: "handle_packet srv io base i p st = Some (stop, st') \<Longrightarrow>
      engine_fine (st_engine st) \<Longrightarrow> vars_fine st \<Longrightarrow> vars_fine st'"
    and answers_fine: "handle_packet srv io base i p st = Some (stop, st') \<Longrightarrow> reliable_stream io written \<Longrightarrow>
      engine_fine (st_engine st) \<Longrightarrow> vars_fine st \<Longrightarrow> advances written ok st stop st'"
    and vars_open: "vars_fine (open_stream no_decision None e w)"
    and vars_engine: "vars_fine (st\<lparr>st_engine := e\<rparr>) = vars_fine st"
begin

definition stream_fine :: "'w live_stream \<Rightarrow> bool" where
  "stream_fine l \<longleftrightarrow> vars_fine (ls_vars l) \<and> (reliable_stream (ls_io l) written \<longrightarrow> in_session written ok l)"

definition system_fine :: "'w system \<Rightarrow> bool" where
  "system_fine sy \<longleftrightarrow> engine_fine (sy_engine sy) \<and> (\<forall>k l. sy_streams sy k = Some l \<longrightarrow> stream_fine l)"

lemma system_fine_update:
  "system_fine sy \<Longrightarrow> engine_fine e \<Longrightarrow> stream_fine l \<Longrightarrow> system_fine (update_stream k l e sy)"
  by (simp add: system_fine_def update_stream_def)

lemma stream_fine_packet:
  assumes "stream_fine l" "engine_fine e" "\<not> ls_done l" "stream_packet srv l e i p = Some (stop, st)"
  shows "stream_fine (l\<lparr>ls_buffer := rest, ls_vars := st, ls_done := stop\<rparr>)"
proof -
  note packet = assms(4) [unfolded stream_packet_def]
  have "in_session written ok (l\<lparr>ls_buffer := rest, ls_vars := st, ls_done := stop\<rparr>)"
    if rel: "reliable_stream (ls_io l) written"
  proof -
    from assms(1,3) rel obtain e0 where
      1: "advances written ok (open_stream no_decision None e0 (ls_start l)) False (ls_vars l)"
      by (auto simp: stream_fine_def in_session_def)
    have "advances written ok ((ls_vars l)\<lparr>st_engine := e\<rparr>) stop st"
      by (rule answers_fine [OF packet rel]) (use assms(1,2) in \<open>simp_all add: stream_fine_def vars_engine\<close>)
    then have "advances written ok (ls_vars l) stop st" by (rule advances_from [rotated 2]) simp_all
    with 1 have "advances written ok (open_stream no_decision None e0 (ls_start l)) stop st" by (rule advances_trans)
    then show ?thesis by (auto simp: in_session_def)
  qed
  moreover have "vars_fine st"
    by (rule vars_kept [OF packet]) (use assms(1,2) in \<open>simp_all add: stream_fine_def vars_engine\<close>)
  ultimately show ?thesis by (simp add: stream_fine_def)
qed

lemma system_step_fine:
  assumes "system_step srv sy sy'" "system_fine sy"
  shows "system_fine sy'"
  using assms(1)
proof (rule system_stepE)
  fix k pe io w assume "sy' = accept_stream k pe io w sy"
  then show ?thesis
    using assms(2) by (auto simp: system_fine_def accept_stream_def stream_fine_def in_session_def vars_open
        intro: advances_refl)
next
  fix k l chunk assume s: "sy' = update_stream k (l\<lparr>ls_buffer := ls_buffer l @ chunk\<rparr>) (sy_engine sy) sy" "sy_streams sy k = Some l"
  have "stream_fine (l\<lparr>ls_buffer := ls_buffer l @ chunk\<rparr>)"
    using assms(2) s(2) by (auto simp: system_fine_def stream_fine_def in_session_def)
  then show ?thesis
    unfolding s(1) by (rule system_fine_update [OF assms(2), rotated]) (use assms(2) in \<open>simp add: system_fine_def\<close>)
next
  fix k l assume s: "sy' = update_stream k (l\<lparr>ls_done := True\<rparr>) (sy_engine sy) sy" "sy_streams sy k = Some l" "\<not> ls_done l"
  with assms(2) have "stream_fine l" by (simp add: system_fine_def)
  with s(3) have done': "stream_fine (l\<lparr>ls_done := True\<rparr>)" by (simp add: stream_fine_def in_session_done)
  have fine: "system_fine sy'"
    unfolding s(1) by (rule system_fine_update [OF assms(2) _ done']) (use assms(2) in \<open>simp add: system_fine_def\<close>)
  show ?thesis by (rule fine)
  show ?thesis by (rule fine)
next
  fix k l i p rest stop st
  assume s: "sy' = update_stream k (l\<lparr>ls_buffer := rest, ls_vars := st, ls_done := stop\<rparr>) (st_engine st) sy"
    "sy_streams sy k = Some l" "\<not> ls_done l" "stream_packet srv l (sy_engine sy) i p = Some (stop, st)"
  from assms(2) s(2) have f: "stream_fine l" "engine_fine (sy_engine sy)" by (auto simp: system_fine_def)
  have "engine_fine (st_engine st)"
    by (rule engine_kept [OF s(4) [unfolded stream_packet_def]]) (simp add: f(2))
  with stream_fine_packet [OF f s(3,4)] show ?thesis unfolding s(1) by (intro system_fine_update assms(2))
qed

lemma system_run_fine: "system_run srv sy sy' \<Longrightarrow> system_fine sy \<Longrightarrow> system_fine sy'"
  by (induction rule: system_run.induct) (auto intro: system_step_fine)

lemma run_in_session:
  assumes "system_run srv (idle_system e) sy" "engine_fine e" "sy_streams sy k = Some l" "reliable_stream (ls_io l) written"
  shows "in_session written ok l"
proof -
  have "system_fine (idle_system e)" using assms(2) by (simp add: system_fine_def idle_system_def)
  from system_run_fine [OF assms(1) this] assms(3,4) show ?thesis by (simp add: system_fine_def stream_fine_def)
qed

lemma run_engine_fine: "system_run srv (idle_system e) (sy :: 'w system) \<Longrightarrow> engine_fine e \<Longrightarrow> engine_fine (sy_engine sy)"
  using system_run_fine [of "idle_system e" sy] by (simp add: system_fine_def idle_system_def)

end

text \<open>Every server answers in sessions.\<close>

interpretation any_server: safe_packets srv "\<lambda>_. True" "\<lambda>_. True" "\<lambda>_. True" written for srv written
  by unfold_locales (auto intro: reliable_stream.handle_packet_advances)

text \<open>The random generator stays fair.\<close>

interpretation fair_server: safe_packets srv fair "\<lambda>_. True" "\<lambda>_. True" written for srv written
  by unfold_locales (auto intro: reliable_stream.handle_packet_advances dest: handle_packet_engine
      simp: fair_def fair_draws_def same_engine_def)

end
