(* ===== verification/ServerProperties.thy ===== *)
theory ServerProperties
  imports ServerSystem ConfigProperties StreamProperties
begin

text \<open>
  The properties of the server (\<^verbatim>\<open>internal/server/server.go\<close>, \<^verbatim>\<open>tls.go\<close>): what a loaded configuration
  guarantees, the application protocol, and the streams that run at the same time.
\<close>

section \<open>A loaded configuration\<close>

lemma well_formed_init:
  assumes "well_formed_config labels_ok c"
  shows "fst (init_discovery c) = None"
  using well_formed_manager [OF assms] by (auto simp: init_discovery_def split: option.split sum.split)

lemma well_formed_idle: "well_formed_config labels_ok c \<Longrightarrow> max_idle_timeout c \<noteq> None"
  by (auto simp: well_formed_config_def max_idle_timeout_def)

lemma plugin_stage_known: "plugin_well_formed p \<Longrightarrow> plugin_stage p \<in> set known_stages"
proof -
  assume "plugin_well_formed p"
  then have "to_lower (pc_stage p) \<in> {[], ''deny'', ''route'', ''mutate''}"
    by (auto simp: plugin_well_formed_def to_lower_def)
  then show ?thesis by (auto simp: plugin_stage_def known_stages_def)
qed

lemma well_formed_stages:
  "well_formed_config labels_ok c \<Longrightarrow> \<forall>p \<in> set (cfg_plugins c). plugin_stage p \<in> set known_stages"
  by (simp add: well_formed_config_def plugin_stage_known)

lemma load_all_errors:
  "\<forall>p \<in> set ps. plugin_well_formed p \<Longrightarrow> load_all g w ps = Inl e \<Longrightarrow> \<exists>t. e = LoadFailed t"
  by (induction ps) (auto simp: plugin_well_formed_def Let_def split: sum.splits if_splits)

lemma init_plugins_errors:
  assumes "well_formed_config labels_ok c" "ss_plugin_cfgs s = cfg_plugins c" "en_stage_order env = []"
    and "init_plugins env s = (Some e, s')"
  shows "(\<exists>t. e = StartPluginOrder t) \<or> (\<exists>t. e = StartPluginLoad (LoadFailed t))"
proof -
  have ok: "\<forall>p \<in> set (cfg_plugins c). plugin_well_formed p" using assms(1) by (simp add: well_formed_config_def)
  have "\<exists>t. x = LoadFailed t" if o: "order_plugin_configs [] (cfg_plugins c) = Inr out"
    and l: "load_all (en_new_grpc env) (en_new_wasm env) out = Inl x" for out x
  proof -
    have "set out = set (cfg_plugins c)"
      using order_permutation [OF well_formed_stages [OF assms(1)] o] by (metis set_mset_mset)
    with ok l load_all_errors show ?thesis by metis
  qed
  with assms(2-4) show ?thesis
    by (auto simp: init_plugins_def split: if_splits sum.splits)
qed

text \<open>C30: A server built from a loaded configuration cannot fail to start for what the check should have
  caught: the start does not panic, and its error is a secret that does not decode, a key pair, a provider
  that cannot reach its cluster, a cycle among the plugins, a plugin that does not load, or the listener.\<close>

theorem loaded_config_start_errors:
  assumes "load_config read_file yaml json labels_ok path = Inr c" "en_stage_order env = []"
  shows "\<exists>e s. prepare env (new_server (Some c) rng) = Some (e, s) \<and>
    (\<forall>x. e = Some x \<longrightarrow> (\<exists>t. x = StartInit (InitSecret t)) \<or> (\<exists>t. x = StartTls t) \<or> (\<exists>t. x = StartDiscovery t) \<or>
      (\<exists>t. x = StartPluginOrder t) \<or> (\<exists>t. x = StartPluginLoad (LoadFailed t)) \<or> (\<exists>t. x = StartListen t))"
proof -
  let ?s = "new_server (Some c) rng"
  from assms(1) loaded_config_fine have wf: "well_formed_config labels_ok c" by blast
  have s: "ss_cfg ?s = Some c" "ss_plugin_cfgs ?s = cfg_plugins c"
    "ss_init_error ?s = None \<or> (\<exists>t. ss_init_error ?s = Some (InitSecret t))"
    using well_formed_init [OF wf]
    by (auto simp: new_server_def split: prod.split sum.split option.split)
  have d: "(\<exists>t. e = StartDiscovery t)" if "start_discovery env ?s = (Some e, s1)" for e s1
    using that by (auto simp: start_discovery_def split: option.splits prod.splits)
  have keep: "ss_plugin_cfgs s1 = cfg_plugins c" if "start_discovery env ?s = (e, s1)" for e s1
    using that s(2) by (auto simp: start_discovery_def split: option.splits prod.splits)
  show ?thesis
  proof (cases "ss_init_error ?s")
    case None
    show ?thesis
    proof (cases "build_tls_config (en_load_pair env) (en_self_signed env) (cfg_tls c)")
      case (Inr tls)
      obtain e1 s1 where 1: "start_discovery env ?s = (e1, s1)" by fastforce
      obtain e2 s2 where 2: "init_plugins env s1 = (e2, s2)" by fastforce
      obtain t where t: "max_idle_timeout c = Some t" using well_formed_idle [OF wf] by blast
      from None s(1) Inr 1 2 t have "prepare env ?s = Some
          (case e1 of Some e \<Rightarrow> (Some e, s1) | None \<Rightarrow>
            (case e2 of Some e \<Rightarrow> (Some e, s2) | None \<Rightarrow> (map_option StartListen (en_listen env (cfg_listen c) tls t), s2)))"
        by (simp add: prepare_def split: option.split)
      then show ?thesis
        using d [of _ s1] 1 init_plugins_errors [OF wf keep [OF 1] assms(2), of _ s2] 2
        by (cases e1; cases e2) auto
    qed (use None s(1) in \<open>simp add: prepare_def\<close>)
  next
    case (Some x)
    with s(3) show ?thesis by (auto simp: prepare_def)
  qed
qed

definition ex_environment :: "(unit, unit) environment" where
  "ex_environment = \<lparr>en_load_pair = (\<lambda>_ _. Inr ()), en_self_signed = Inr (), en_cluster = ex_cluster,
     en_provider_order = [], en_stage_order = [], en_new_grpc = (\<lambda>_. Inl []), en_new_wasm = (\<lambda>_. Inl []),
     en_listen = (\<lambda>_ _ _. None)\<rparr>"

theorem loaded_config_start_errors_witness:
  "\<exists>e s. prepare ex_environment (new_server (Some (fill_locales default_config)) (\<lambda>_. 0)) = Some (e, s) \<and> e \<noteq> Some StartIdle"
proof -
  have "en_stage_order ex_environment = []" by (simp add: ex_environment_def)
  from loaded_config_start_errors [OF default_loads this, of "\<lambda>_. 0"] show ?thesis by auto
qed

text \<open>A pool of a loaded configuration that draws on discovery, with a provider name without surrounding
  white space, never meets an unknown provider: the server hands the engine its manager, and the manager
  knows the provider in every state it reaches.\<close>

theorem configured_provider_known:
  assumes "load_config read_file yaml json labels_ok path = Inr c"
    and "p \<in> pools_of (cfg_routing c)" "p_discovery p = Some d" "trim_space (dr_provider d) = dr_provider d"
  shows "\<exists>m0. ss_discovery (new_server (Some c) rng) = Some m0 \<and> ss_callback (new_server (Some c) rng) \<and>
    (\<forall>ws m (w :: 'c cluster). manager_reach m0 ws m \<longrightarrow> fst (manager_resolve w (trim_space (dr_provider d)) m) \<noteq> None)"
proof -
  from assms(1) loaded_config_fine have wf: "well_formed_config labels_ok c" by blast
  with assms(2,3) have known: "dr_provider d \<in> set (provider_names (cfg_discovery c))"
    by (simp add: well_formed_config_def)
  then obtain ps where ps: "cfg_discovery c = Some ps" by (cases "cfg_discovery c") (simp_all add: provider_names_def)
  from well_formed_manager [OF wf ps] obtain m0 where
    m0: "new_manager (Some ps) = Inr m0" "dom (mgr_providers m0) = set (provider_names (cfg_discovery c))" by blast
  then have s: "ss_discovery (new_server (Some c) rng) = Some m0" "ss_callback (new_server (Some c) rng)"
    using ps by (auto simp: new_server_def init_discovery_def split: prod.split)
  have "fst (manager_resolve w (trim_space (dr_provider d)) m) \<noteq> None" if r: "manager_reach m0 ws m"
    for ws m and w :: "'c cluster"
  proof -
    have "dr_provider d \<in> dom (mgr_providers m)" using manager_reach_dom [OF r] m0(2) known by simp
    with assms(4) show ?thesis by (auto simp: manager_resolve_def split: prod.split)
  qed
  with s show ?thesis by blast
qed

text \<open>A site with one provider and a default pool that names it as it was declared.\<close>

definition ex_site_pool :: "string \<Rightarrow> pool" where
  "ex_site_pool name = \<lparr>p_strategy = ''random'', p_key = [], p_sample = 0, p_sort = [], p_limit = 0, p_filters = [],
     p_fallback = [], p_backends = [], p_discovery = Some \<lparr>dr_provider = name, dr_mode = []\<rparr>\<rparr>"

definition ex_site :: "string \<Rightarrow> config" where
  "ex_site name = (fill_locales default_config)
     \<lparr>cfg_routing := \<lparr>rc_default = Some (ex_site_pool name), rc_routes = []\<rparr>,
      cfg_discovery := Some [\<lparr>dp_name = name, dp_type = ''kubernetes'', dp_kubernetes = Some ex_k8s, dp_agones = None\<rparr>]\<rparr>"

lemma ex_site_routing: "trim_space name \<noteq> [] \<Longrightarrow> validate_routing (cfg_routing (ex_site name)) = None"
  by (simp add: ex_site_def ex_site_pool_def validate_routing_def validate_pool_def strategies_def
      keyed_strategy_def validate_discovery_ref_def string_eval)

lemma ex_site_well_formed: "trim_space name \<noteq> [] \<Longrightarrow> well_formed_config labels_ok (ex_site name)"
  using ex_site_routing [of name] default_idle
  by (cases "name = []")
    (simp_all add: well_formed_config_def ex_site_def fill_locales_def default_config_def provider_names_def
      pools_of_def provider_well_formed_def normalize_type_def ex_k8s_def selector_well_formed_def ex_site_pool_def
      string_eval)

lemma ex_site_loads:
  "trim_space name \<noteq> [] \<Longrightarrow>
   load_config (\<lambda>_. Inr []) (\<lambda>_ _. Inr (ex_site name)) json labels_ok ''config.yaml'' = Inr (ex_site name)"
  by (rule well_formed_loads [OF ex_site_well_formed]) (simp_all add: ex_site_def fill_locales_def default_config_def)

theorem configured_provider_known_witness:
  "\<exists>m0. ss_discovery (new_server (Some (ex_site ''k8s'')) (\<lambda>_. 0)) = Some m0 \<and>
    fst (manager_resolve ex_cluster ''k8s'' m0) \<noteq> None"
proof -
  have t: "trim_space ''k8s'' = ''k8s''" by (simp add: string_eval)
  then have l: "load_config (\<lambda>_. Inr []) (\<lambda>_ _. Inr (ex_site ''k8s'')) (\<lambda>_ _. Inl []) (\<lambda>_. True) ''config.yaml'' =
      Inr (ex_site ''k8s'')"
    by (intro ex_site_loads) simp
  have p: "ex_site_pool ''k8s'' \<in> pools_of (cfg_routing (ex_site ''k8s''))" by (simp add: pools_of_def ex_site_def)
  have d: "p_discovery (ex_site_pool ''k8s'') = Some \<lparr>dr_provider = ''k8s'', dr_mode = []\<rparr>" by (simp add: ex_site_pool_def)
  from configured_provider_known [OF l p d, of "\<lambda>_. 0"] t obtain m0 where
    m0: "ss_discovery (new_server (Some (ex_site ''k8s'')) (\<lambda>_. 0)) = Some m0"
      "\<forall>ws m (w :: unit cluster). manager_reach m0 ws m \<longrightarrow> fst (manager_resolve w ''k8s'' m) \<noteq> None"
    by auto
  from m0(2) reach_init have "fst (manager_resolve ex_cluster ''k8s'' m0) \<noteq> None" by blast
  with m0(1) show ?thesis by blast
qed




section \<open>The application protocol\<close>

text \<open>C12: A router that is configured for every Hytale version prefers, among the protocols a client offers,
  the highest version: if the client offers a version, the first supported protocol that it offers (the one
  TLS settles on) is one with a version that is not lower.\<close>

theorem alpn_highest:
  assumes "fst (strict_protos alpn)" "\<forall>o' \<in> set client. trim_space o' = o'"
    and "p \<in> set client" "parse_hytale_version p = (v, True)"
  shows "\<exists>q w. find (\<lambda>s. s \<in> set client) (config_for_client (strict_protos alpn) client) = Some q \<and>
    parse_hytale_version q = (w, True) \<and> v \<le> w"
proof -
  have "p \<in> trim_space ` set client" using assms(2,3) by force
  from select_head [OF this assms(4)] obtain q qs w where
    q: "select_hytale_alpn client = q # qs" "parse_hytale_version q = (w, True)" "v \<le> w" by blast
  have "q \<in> set (select_hytale_alpn client)" by (simp add: q(1))
  then have "q \<in> set client" using assms(2) by (auto simp: set_select_hytale_alpn)
  moreover have "config_for_client (strict_protos alpn) client = q # qs"
    using assms(1) q(1) by (cases "strict_protos alpn") (simp add: config_for_client_def)
  ultimately show ?thesis using q(2,3) by simp
qed

theorem alpn_highest_witness:
  "\<exists>q w. find (\<lambda>s. s \<in> {''hytale/2'', ''hytale/10''})
     (config_for_client (strict_protos [''hytale/*'']) [''hytale/2'', ''hytale/10'']) = Some q \<and>
     parse_hytale_version q = (w, True) \<and> 10 \<le> w"
proof -
  have a: "fst (strict_protos [''hytale/*''])" by (simp add: strict_protos_def string_eval)
  have t: "\<forall>o' \<in> set [''hytale/2'', ''hytale/10'']. trim_space o' = o'" by (simp add: string_eval)
  have v: "parse_hytale_version ''hytale/10'' = (10, True)"
    by (simp add: parse_hytale_version_def hytale_prefix_def trim_prefix_def atoi_def parse_int_def is_digit_def
        digits_value_def)
  from alpn_highest [OF a t _ v] show ?thesis by simp
qed

section \<open>Fingerprints\<close>

text \<open>The fingerprint of a certificate that the plugins see has 43 characters, and two certificates have
  the same one exactly if their SHA-256 digests agree; only a client without a certificate has the empty one.\<close>

theorem fingerprint_identifies:
  "(certificate_fingerprint (Some a) = certificate_fingerprint (Some b) \<longleftrightarrow> sha256 a = sha256 b) \<and>
   length (certificate_fingerprint (Some a)) = 43 \<and>
   (ev_fingerprint (base_event pe) = [] \<longleftrightarrow> pe_certificates pe = [])"
proof -
  have len: "length (certificate_fingerprint (Some x)) = 43" for x
    by (simp add: certificate_fingerprint_def base64_raw_url_length)
  then have "certificate_fingerprint (Some x) \<noteq> []" for x by (metis length_0_conv zero_neq_numeral)
  then have "ev_fingerprint (base_event pe) = [] \<longleftrightarrow> pe_certificates pe = []" by (simp add: base_event_def)
  with len show ?thesis by (simp add: certificate_fingerprint_def base64_raw_url_inject)
qed

section \<open>Streams at the same time\<close>













end
