(* ===== verification/ServerTargets.thy ===== *)
theory ServerTargets
  imports ServerSystem StreamAnswers DiscoveryOffers
begin

text \<open>
  Where a server sends its clients: the backends of a decision come from the pools of the configuration or
  from discovery, those of a plugin from its responses, and what discovery answers comes from the cluster.
\<close>

section \<open>The origin of a decision\<close>

text \<open>The address is that of a backend of some pool, or of one that discovery answers for some pool.\<close>

definition origin :: "discovery_fn option \<Rightarrow> routing_config \<Rightarrow> backend \<Rightarrow> bool" where
  "origin disc cfg b \<longleftrightarrow> (\<exists>q \<in> set (config_pools cfg).
     (\<exists>b' \<in> set (p_backends q). address b = address b') \<or>
     (\<exists>r f bs. p_discovery q = Some r \<and> disc = Some f \<and> f (trim_space (dr_provider r)) = Inr bs \<and>
        (\<exists>b' \<in> set bs. address b = address b')))"

lemma resolve_origin:
  assumes "resolve_candidates disc q = Inr bs" "b \<in> set bs" "q \<in> set (config_pools cfg)"
  shows "origin disc cfg b"
proof (cases "p_discovery q")
  case None
  with assms(1) have "bs = p_backends q" by (auto simp: resolve_candidates_def Let_def split: if_splits)
  with assms(2,3) show ?thesis by (auto simp: origin_def)
next
  case (Some r)
  with assms(1) obtain f ds where f: "disc = Some f" "f (trim_space (dr_provider r)) = Inr ds"
    by (auto simp: resolve_candidates_def Let_def split: option.splits sum.splits)
  from assms(2) have "address b \<in> address ` set bs" by (rule imageI)
  moreover have "address ` set bs \<subseteq> address ` (set ds \<union> set (p_backends q))"
    using resolve_discovered(1) [where resolve = f, OF Some f(2)] assms(1) f(1) by (auto split: if_splits)
  ultimately obtain b' where "b' \<in> set ds \<union> set (p_backends q)" "address b = address b'" by blast
  with Some f assms(3) show ?thesis unfolding origin_def by blast
qed

text \<open>The backends a decision shows to the plugins.\<close>

definition decision_backends :: "decision \<Rightarrow> backend set" where
  "decision_backends d = insert (d_backend d) (set (d_candidates d))"

lemma decide_origin:
  assumes "decide disc now req e = Some (Inr d, e')" "b \<in> decision_backends d"
  shows "b_host b = [] \<or> origin disc (e_cfg e) b"
proof (cases "routed (e_cfg e) req")
  case None
  with assms show ?thesis by (auto simp: decide_routed no_decision_def empty_backend_def decision_backends_def)
next
  case (Some cp)
  obtain c p where cp: "routed (e_cfg e) req = Some (c, p)" using Some by (cases cp) simp
  with assms(1) have dp: "decide_pool disc now req p c (c \<noteq> DefaultCounter) (counter_index c) e = Some (Inr d, e')"
    by (simp add: decide_routed)
  then show ?thesis
  proof (rule decide_pool_ok)
    fix bs sc assume r: "resolve_candidates disc p = Inr bs" "d_candidates d = offered now req sc bs"
    have "d_backend d \<in> set (d_candidates d)"
      using dp by (rule decide_pool_ok) (use strategy.chosen_member(1) in metis)
    with r(2) assms(2) have "b \<in> set bs"
      using set_offered [of now req sc bs] by (auto simp: apply_filters_eq decision_backends_def)
    with r(1) resolve_origin routed_config_pool [OF cp] show ?thesis by blast
  qed
qed

section \<open>The backends of the plugins\<close>

definition response_backends :: "connect_response \<Rightarrow> backend set" where
  "response_backends pr = (case rp_candidates pr of None \<Rightarrow> {} | Some cs \<Rightarrow> set cs) \<union> set_option (rp_backend pr)"

definition result_backends :: "apply_result \<Rightarrow> backend set" where
  "result_backends r = insert (ar_backend r) (set (ar_candidates r))"

lemma take_response_backends: "result_backends (take_response pr r) \<subseteq> result_backends r \<union> response_backends pr"
proof -
  have "result_backends (take_referral pr x) = result_backends x" for x
    by (simp add: take_referral_def result_backends_def split: option.split)
  moreover have "result_backends (default_backend x) \<subseteq> result_backends x" for x
    by (auto simp: default_backend_def result_backends_def)
  moreover have "result_backends (take_backend pr x) \<subseteq> result_backends x \<union> response_backends pr" for x
    by (auto simp: take_backend_def result_backends_def response_backends_def Let_def split: option.split)
  moreover have "result_backends (take_index pr x) \<subseteq> result_backends x" for x
    by (auto simp: take_index_def result_backends_def split: option.split)
  moreover have "result_backends (take_candidates pr x) \<subseteq> result_backends x \<union> response_backends pr" for x
    by (auto simp: take_candidates_def result_backends_def response_backends_def split: option.split)
  ultimately show ?thesis unfolding take_response_def by blast
qed

lemma apply_plugins_backends:
  assumes "\<forall>p \<in> set ps. \<forall>rq pr. pl_on_connect p rq = Inr pr \<longrightarrow> response_backends pr \<subseteq> B" "result_backends r \<subseteq> B"
  shows "result_backends (apply_plugins ev ps r) \<subseteq> B"
  using assms
proof (induction ps arbitrary: r)
  case (Cons p ps)
  show ?case
  proof (cases "pl_on_connect p (plugin_request ev r)")
    case (Inr pr)
    with Cons.prems take_response_backends [of pr r] have "result_backends (take_response pr r) \<subseteq> B" by fastforce
    with Cons Inr show ?thesis by (simp add: result_backends_def)
  qed (use Cons in simp)
qed simp

section \<open>Where clients are sent\<close>

text \<open>A backend that a plugin names at some time.\<close>

definition plugin_named :: "server \<Rightarrow> nat \<Rightarrow> backend \<Rightarrow> bool" where
  "plugin_named srv n b \<longleftrightarrow> (\<exists>ps. srv_plugins srv = Some ps \<and> (\<exists>p \<in> set (ps n). \<exists>rq pr. pl_on_connect p rq = Inr pr \<and>
     b \<in> response_backends pr))"

definition targets :: "routing_config \<Rightarrow> server \<Rightarrow> backend set" where
  "targets cfg srv = {b. b_host b = [] \<or> (\<exists>n. origin (srv_discovery srv n) cfg b \<or> plugin_named srv n b)}"

definition names_target :: "routing_config \<Rightarrow> server \<Rightarrow> answer \<Rightarrow> bool" where
  "names_target cfg srv a \<longleftrightarrow> (\<forall>h p c. a = Referral h p c \<longrightarrow>
     (\<exists>b \<in> targets cfg srv. h = b_host b \<and> p = of_int (b_port b)))"

text \<open>A server with an engine.\<close>

abbreviation routing :: "server \<Rightarrow> server" where
  "routing srv \<equiv> srv\<lparr>srv_router := True\<rparr>"

lemma targets_routing [simp]: "targets cfg (routing srv) = targets cfg srv"
  by (simp add: targets_def plugin_named_def)

lemma route_targets:
  assumes "route_connect (routing srv) rq st = Some st'" "decision_backends (st_decision st) \<subseteq> targets (e_cfg (st_engine st)) srv"
  shows "decision_backends (st_decision st') \<subseteq> targets (e_cfg (st_engine st)) srv \<and>
    st_backend st' \<in> targets (e_cfg (st_engine st)) srv"
proof -
  from assms(1) obtain r e' where
    r: "decide (srv_discovery srv (st_count st)) (srv_now srv (st_count st)) rq (st_engine st) = Some (r, e')"
    and st': "st' = (case r of
        Inr d \<Rightarrow> st\<lparr>st_engine := e', st_decision := d, st_route_err := None, st_backend := d_backend d\<rparr>
      | Inl err \<Rightarrow> st\<lparr>st_engine := e', st_route_err := Some err, st_backend := empty_backend\<rparr>)"
    by (auto simp: route_connect_def split: bind_splits)
  show ?thesis
  proof (cases r)
    case (Inl err)
    with st' assms(2) show ?thesis by (simp add: targets_def empty_backend_def)
  next
    case (Inr d)
    with decide_origin r have "decision_backends d \<subseteq> targets (e_cfg (st_engine st)) srv"
      unfolding targets_def by blast
    with st' Inr show ?thesis by (simp add: decision_backends_def)
  qed
qed

lemma planned_target:
  assumes "decision_backends (st_decision st) \<subseteq> targets cfg srv" "st_backend st \<in> targets cfg srv"
    and "r = None \<or> (\<exists>ev. r = plugin_result srv ev st)"
  shows "st_backend (planned r st) \<in> targets cfg srv"
proof (cases r)
  case None
  with assms(2) show ?thesis by (simp add: planned_def)
next
  case (Some res)
  with assms(3) obtain ev ps where ps: "srv_plugins srv = Some ps"
    "res = apply_plugins ev (ps (st_count st)) (initial_result (st_decision st) (st_content st))"
    by (cases "srv_plugins srv") (auto simp: plugin_result_def apply_on_connect_def)
  have "result_backends res \<subseteq> targets cfg srv"
    unfolding ps(2)
  proof (rule apply_plugins_backends)
    show "\<forall>p \<in> set (ps (st_count st)). \<forall>rq pr. pl_on_connect p rq = Inr pr \<longrightarrow> response_backends pr \<subseteq> targets cfg srv"
      using ps(1) by (fastforce simp: targets_def plugin_named_def)
    show "result_backends (initial_result (st_decision st) (st_content st)) \<subseteq> targets cfg srv"
      using assms(1) by (simp add: result_backends_def initial_result_def decision_backends_def)
  qed
  with Some show ?thesis by (simp add: planned_def result_backends_def)
qed

text \<open>A packet leaves the decision as its routing did.\<close>

lemma handle_packet_decision:
  assumes "handle_packet srv io base i p st = Some (stop, st')"
  shows "st_decision st' = st_decision st \<or>
    (\<exists>rq st1. route_connect srv rq st = Some st1 \<and> st_decision st' = st_decision st1)"
  using assms
  by (auto simp: handle_packet_def count_packet_def handle_connect_eq handle_unreadable_def answers_decision
      split: if_splits bind_splits option.splits dest!: answer_connect_keeps) blast+

interpretation routed: safe_packets "routing srv" "\<lambda>e. e_cfg e = cfg"
  "\<lambda>st. decision_backends (st_decision st) \<subseteq> targets cfg srv" "names_target cfg srv" written
  for srv cfg written
proof unfold_locales
  fix io base i p and st st' :: "'a stream" and stop
  assume h: "handle_packet (routing srv) io base i p st = Some (stop, st')" and cfg: "e_cfg (st_engine st) = cfg"
  show "e_cfg (st_engine st') = cfg" using handle_packet_engine [OF h] cfg by (simp add: same_engine_def)
  assume d: "decision_backends (st_decision st) \<subseteq> targets cfg srv"
  show "decision_backends (st_decision st') \<subseteq> targets cfg srv"
    using handle_packet_decision [OF h] route_targets [of srv _ st] d cfg by fastforce
  assume rel: "reliable_stream io written"
  show "advances written (names_target cfg srv) st stop st'"
    using h
  proof (rule reliable_stream.handle_packet_advances [OF rel])
    show "names_target cfg srv (Refusal r)" for r by (simp add: names_target_def)
  next
    fix rq st1 r
    assume "route_connect (routing srv) rq st = Some st1" "r = None \<or> (\<exists>ev. r = plugin_result (routing srv) ev st1)"
    with route_targets [of srv rq st st1] planned_target [of st1 cfg "routing srv" r] d cfg
    show "names_target cfg srv (referral_of (routing srv) (planned r st1))"
      by (auto simp: names_target_def referral_of_def)
  qed
next
  show "decision_backends (st_decision (open_stream no_decision None e w)) \<subseteq> targets cfg srv" for e w
    by (simp add: open_stream_def no_decision_def decision_backends_def targets_def empty_backend_def)
qed simp_all

section \<open>The origin of a discovered backend\<close>

text \<open>A game server that the cluster allocated on request.\<close>

definition allocated_from :: "'c cluster \<Rightarrow> agones_discovery \<Rightarrow> backend \<Rightarrow> bool" where
  "allocated_from w cfg b \<longleftrightarrow>
     (\<exists>ns state labels created. cl_create w ns (allocation_object state labels) = Inr created \<and>
        (let status = nested_map (cl_accessors w) (snd created) ''status'' in
         b_host b = resolve_agones_address (cl_accessors w) status cfg \<and> b_host b \<noteq> [] \<and>
         b_port b = resolve_agones_ports (nested_slice (cl_accessors w) status ''ports'') (ad_port cfg) \<and> 0 < b_port b))"

text \<open>What an entry of the configuration may answer in a state of the cluster.\<close>

definition entry_offer :: "'c cluster \<Rightarrow> discovery_provider \<Rightarrow> backend \<Rightarrow> bool" where
  "entry_offer w e b \<longleftrightarrow>
     (normalize_type (dp_type e) = ''kubernetes'' \<and> (\<exists>cfg. dp_kubernetes e = Some cfg \<and>
        (pod_offer (cl_parse_labels w) cfg (cl_cache w (dp_name e)) b \<or>
         slice_offer (cl_parse_labels w) cfg (cl_cache w (dp_name e)) b))) \<or>
     (normalize_type (dp_type e) = ''agones'' \<and> (\<exists>cfg. dp_agones e = Some cfg \<and>
        (server_offer (cl_accessors w) cfg (cl_store w (dp_name e)) b \<or>
         normalize_type (ad_mode cfg) = ''allocate'' \<and> allocated_from w cfg b)))"

lemma provider_offers_entry:
  assumes "entry_identity e p" "b \<in> set (provider_offers v p)"
  shows "entry_offer v e b"
proof (cases p)
  case (KubernetesP k)
  with assms k8s_backends_offer show ?thesis
    by (auto simp: entry_identity_def provider_identity_def provider_offers_def entry_offer_def)
next
  case (AgonesP a)
  with assms agones_backends_offer show ?thesis
    by (auto simp: entry_identity_def provider_identity_def provider_offers_def entry_offer_def)
qed

lemma allocated_backend_offer:
  assumes "cl_create w ns (allocation_object state labels) = Inr created"
    and "allocated_backend (cl_accessors w) cfg ns created = Inr bs" "b \<in> set bs"
  shows "allocated_from w cfg b"
  using assms resolve_agones_ports_nonneg
    [of "nested_slice (cl_accessors w) (nested_map (cl_accessors w) (snd created) ''status'') ''ports''" "ad_port cfg"]
  unfolding allocated_from_def
  by (intro exI [of _ ns] exI [of _ state] exI [of _ labels] exI [of _ created])
    (auto simp: allocated_backend_def Let_def split: if_splits)

lemma allocate_now_offer:
  assumes "allocate_now (cl_accessors w) (cl_create w) cfg = Inr bs" "b \<in> set bs"
  shows "allocated_from w cfg b"
  using assms allocated_backend_offer by (fastforce simp: allocate_now_def Let_def split: sum.splits)

lemma resolve_provider_offer:
  assumes "entry_identity e p" "set (provider_snapshot p) \<subseteq> (\<Union>v \<in> set ws. set (provider_offers v p))"
    and "fst (resolve_provider w p) = Inr bs" "b \<in> set bs"
  shows "\<exists>v \<in> insert w (set ws). entry_offer v e b"
proof (cases "b \<in> set (provider_snapshot p)")
  case True
  with assms(2) provider_offers_entry [OF assms(1)] show ?thesis by blast
next
  case False
  with assms(3,4) obtain a where a: "p = AgonesP a" "normalize_type (ad_mode (ap_cfg a)) = ''allocate''"
    "allocate_now (cl_accessors w) (cl_create w) (ap_cfg a) = Inr bs"
    by (auto simp: resolve_provider_def provider_snapshot_def k8s_resolve_def agones_resolve_def agones_allocate_def
        normalize_type_def Let_def split: provider.splits if_splits sum.splits option.splits prod.splits)
  with assms(1) allocate_now_offer [OF a(3) assms(4)] have "entry_offer w e b"
    by (auto simp: entry_identity_def provider_identity_def entry_offer_def)
  then show ?thesis by blast
qed

lemma manager_resolve_offer:
  assumes "new_manager (Some ps) = Inr m0" "manager_reach m0 ws m"
    and "fst (manager_resolve w n m) = Some (Inr bs)" "b \<in> set bs"
  shows "\<exists>e \<in> set ps. dp_name e = n \<and> (\<exists>v \<in> insert w (set ws). entry_offer v e b)"
proof -
  from assms(3) obtain p where p: "mgr_providers m n = Some p" "fst (resolve_provider w p) = Inr bs"
    by (auto simp: manager_resolve_def split: option.splits prod.splits)
  from reach_provider [OF assms(1,2) p(1)] obtain e where e: "e \<in> set ps" "dp_name e = n" "entry_identity e p"
    "set (provider_snapshot p) \<subseteq> (\<Union>v \<in> set ws. set (provider_offers v p))" by blast
  from resolve_provider_offer [OF e(3,4) p(2) assms(4)] e(1,2) show ?thesis by blast
qed

end
