(* ===== verification/SystemProperties.thy ===== *)
theory SystemProperties
  imports ServerProperties ServerTargets
begin

text \<open>
  Properties of the whole router, from the configuration file to the bytes a client receives.
\<close>

section \<open>A started server\<close>








section \<open>Where clients are sent\<close>











end
