(* ===== verification/GoJsonTree.thy ===== *)
theory GoJsonTree
  imports GoMarshal
begin

text \<open>
  JSON texts as trees: the syntax \<^verbatim>\<open>json.Unmarshal\<close> accepts, the text \<^verbatim>\<open>json.Marshal\<close> writes, and the
  proof that the one reads the other. How a tree is stored into a Go value is up to the types, see
  \<open>PluginMessages\<close>. A number is its literal.
\<close>

datatype json = JNull | JBool bool | JNum string | JStr string | JArr "json list" | JObj "(string \<times> json) list"

section \<open>Reading\<close>

text \<open>The scanner of numbers: sign, whole part, fraction, exponent. The literal and the unread text.\<close>

definition scan_digits :: "string \<Rightarrow> (string \<times> string) option" where
  "scan_digits s = (case takeWhile is_digit s of [] \<Rightarrow> None | d # ds \<Rightarrow> Some (d # ds, dropWhile is_digit s))"

definition number_exponent :: "string \<Rightarrow> (string \<times> string) option" where
  "number_exponent s =
     (case s of [] \<Rightarrow> Some ([], [])
      | e # t \<Rightarrow>
        if e = CHR ''e'' \<or> e = CHR ''E'' then
          (case t of
             [] \<Rightarrow> None
           | c # u \<Rightarrow>
             if c = CHR ''+'' \<or> c = CHR ''-'' then map_option (apfst (\<lambda>ds. e # c # ds)) (scan_digits u)
             else map_option (apfst (Cons e)) (scan_digits t))
        else Some ([], s))"

definition number_fraction :: "string \<Rightarrow> (string \<times> string) option" where
  "number_fraction s =
     (case s of [] \<Rightarrow> Some ([], [])
      | c # t \<Rightarrow>
        if c = CHR ''.'' then
          (case scan_digits t of None \<Rightarrow> None
           | Some (ds, u) \<Rightarrow> map_option (apfst (\<lambda>x. c # ds @ x)) (number_exponent u))
        else number_exponent s)"

definition number_whole :: "string \<Rightarrow> (string \<times> string) option" where
  "number_whole s =
     (case s of [] \<Rightarrow> None
      | c # t \<Rightarrow>
        if c = CHR ''0'' then map_option (apfst (Cons c)) (number_fraction t)
        else (case scan_digits s of None \<Rightarrow> None
              | Some (ds, u) \<Rightarrow> map_option (apfst (\<lambda>x. ds @ x)) (number_fraction u)))"

definition json_number :: "string \<Rightarrow> (string \<times> string) option" where
  "json_number s =
     (case s of [] \<Rightarrow> None
      | c # t \<Rightarrow> if c = CHR ''-'' then map_option (apfst (Cons c)) (number_whole t) else number_whole s)"

text \<open>
  The elements of an array or the members of an object up to the closing bracket. The test of the length
  only makes the recursion visible: an element is not empty.
\<close>

function json_items :: "(string \<Rightarrow> ('a \<times> string) option) \<Rightarrow> char \<Rightarrow> string \<Rightarrow> ('a list \<times> string) option" where
  "json_items item close s =
     (case item s of None \<Rightarrow> None
      | Some (v, rest) \<Rightarrow>
        (case skip_white rest of [] \<Rightarrow> None
         | c # t \<Rightarrow>
           if c = close then Some ([v], t)
           else if c = CHR '','' \<and> length t < length s then map_option (apfst (Cons v)) (json_items item close t)
           else None))"
  by pat_completeness auto
termination
  by (relation "measure (\<lambda>(item, close, s). length s)") auto

declare json_items.simps [simp del]

definition json_block :: "(string \<Rightarrow> ('a \<times> string) option) \<Rightarrow> char \<Rightarrow> string \<Rightarrow> ('a list \<times> string) option" where
  "json_block item close s =
     (case skip_white s of [] \<Rightarrow> None
      | c # t \<Rightarrow> if c = close then Some ([], t) else json_items item close s)"

definition json_member :: "(string \<Rightarrow> (json \<times> string) option) \<Rightarrow> string \<Rightarrow> ((string \<times> json) \<times> string) option" where
  "json_member value s =
     (case skip_white s of [] \<Rightarrow> None
      | c # t \<Rightarrow>
        if c = CHR 0x22 then
          (case json_string t of None \<Rightarrow> None
           | Some (k, u) \<Rightarrow>
             (case skip_white u of [] \<Rightarrow> None
              | c' # v \<Rightarrow> if c' = CHR '':'' then map_option (apfst (Pair k)) (value v) else None))
        else None)"

definition json_literal :: "string \<Rightarrow> json \<Rightarrow> string \<Rightarrow> (json \<times> string) option" where
  "json_literal name v s = (if has_prefix s name then Some (v, drop (length name) s) else None)"

text \<open>A value; \<open>d\<close> is how deep arrays and objects may still be nested.\<close>

fun json_value :: "nat \<Rightarrow> string \<Rightarrow> (json \<times> string) option" where
  "json_value d s =
     (case skip_white s of [] \<Rightarrow> None
      | c # t \<Rightarrow>
        if c = CHR 0x22 then map_option (apfst JStr) (json_string t)
        else if c = CHR ''['' then
          (if d = 0 then None else map_option (apfst JArr) (json_block (json_value (d - 1)) (CHR '']'') t))
        else if c = CHR ''{'' then
          (if d = 0 then None else map_option (apfst JObj) (json_block (json_member (json_value (d - 1))) (CHR ''}'') t))
        else if c = CHR ''n'' then json_literal ''null'' JNull (c # t)
        else if c = CHR ''t'' then json_literal ''true'' (JBool True) (c # t)
        else if c = CHR ''f'' then json_literal ''false'' (JBool False) (c # t)
        else map_option (apfst JNum) (json_number (c # t)))"

declare json_value.simps [simp del]

text \<open>The limit of \<^verbatim>\<open>encoding/json\<close>.\<close>

definition max_nesting :: nat where
  "max_nesting = 10000"

definition json_parse :: "string \<Rightarrow> json option" where
  "json_parse s =
     (case json_value max_nesting s of None \<Rightarrow> None
      | Some (v, rest) \<Rightarrow> if skip_white rest = [] then Some v else None)"

section \<open>Writing\<close>

fun json_text :: "json \<Rightarrow> string" where
  "json_text JNull = ''null''"
| "json_text (JBool b) = (if b then ''true'' else ''false'')"
| "json_text (JNum n) = n"
| "json_text (JStr s) = quote_string s"
| "json_text (JArr xs) = CHR ''['' # comma_separated (map json_text xs) @ [CHR '']'']"
| "json_text (JObj ms) =
     CHR ''{'' # comma_separated (map (\<lambda>(k, v). quote_string k @ CHR '':'' # json_text v) ms) @ [CHR ''}'']"


section \<open>A written number is read back\<close>

text \<open>What may stand after a value.\<close>

definition follows :: "string \<Rightarrow> bool" where
  "follows t \<longleftrightarrow> t = [] \<or> hd t \<in> {CHR '','', CHR '']'', CHR ''}''}"

lemma follows_simps [simp]:
  "follows []" "follows (CHR '','' # t)" "follows (CHR '']'' # t)" "follows (CHR ''}'' # t)"
  by (simp_all add: follows_def)

lemma follows_fraction: "follows t \<Longrightarrow> number_fraction t = Some ([], t)"
  by (auto simp: follows_def number_fraction_def number_exponent_def split: list.splits)

lemma follows_no_digit: "follows (c # t) \<Longrightarrow> \<not> is_digit c"
  by (auto simp: follows_def is_digit_def)

lemma scan_digits_append:
  assumes "list_all is_digit ds" "ds \<noteq> []" "follows t"
  shows "scan_digits (ds @ t) = Some (ds, t)"
proof -
  from assms(3) have "takeWhile is_digit t = []" "dropWhile is_digit t = t"
    by (cases t; simp add: follows_no_digit)+
  with assms(1,2) show ?thesis
    by (auto simp: scan_digits_def list_all_iff takeWhile_append2 dropWhile_append2 split: list.split)
qed

lemma digit_char_zero: "d < 10 \<Longrightarrow> digit_char d = CHR ''0'' \<longleftrightarrow> d = 0"
proof
  assume "d < 10" "digit_char d = CHR ''0''"
  then have "48 + d = code (CHR ''0'')" by (metis code_digit_char)
  then show "d = 0" by simp
next
  have "digit_char 0 = CHR ''0''" by code_simp
  then show "d = 0 \<Longrightarrow> digit_char d = CHR ''0''" by simp
qed

lemma nat_digits_head: "0 < n \<Longrightarrow> hd (nat_digits n) \<noteq> CHR ''0''"
proof (induction n rule: nat_digits.induct)
  case (1 n)
  then show ?case
    by (cases "n < 10") (auto simp: nat_digits.simps [of n] digit_char_zero)
qed

lemma number_whole_digits:
  assumes "follows t"
  shows "number_whole (nat_digits n @ t) = Some (nat_digits n, t)"
proof (cases "n = 0")
  case True
  have "nat_digits 0 = [CHR ''0'']" by (simp add: nat_digits.simps [of 0] digit_char_zero)
  with True assms show ?thesis by (simp add: number_whole_def follows_fraction)
next
  case False
  obtain c ds where c: "nat_digits n = c # ds" by (cases "nat_digits n") simp_all
  with False nat_digits_head [of n] have "c \<noteq> CHR ''0''" by simp
  moreover have "scan_digits (c # ds @ t) = Some (c # ds, t)"
    using scan_digits_append [OF nat_digits_digits [of n] _ assms] c by simp
  ultimately show ?thesis using assms c by (simp add: number_whole_def follows_fraction)
qed

lemma json_number_itoa:
  assumes "follows t"
  shows "json_number (itoa i @ t) = Some (itoa i, t)"
proof -
  have "json_number (nat_digits n @ t) = number_whole (nat_digits n @ t)" for n
    using nat_digits_digits [of n] digit_not_sign by (cases "nat_digits n") (auto simp: json_number_def)
  with assms show ?thesis
    by (auto simp: itoa_def number_whole_digits) (simp add: json_number_def number_whole_digits)
qed

lemma itoa_head: "\<exists>c s. itoa i = c # s \<and> (is_digit c \<or> c = CHR ''-'')"
proof (cases "i < 0")
  case False
  with nat_digits_digits [of "nat i"] show ?thesis by (cases "nat_digits (nat i)") (auto simp: itoa_def)
qed (simp add: itoa_def)

section \<open>A written tree is read back\<close>

text \<open>The trees that are written without loss: valid UTF-8, integers, and not nested too deeply.\<close>

fun json_fits :: "nat \<Rightarrow> json \<Rightarrow> bool" where
  "json_fits d JNull = True"
| "json_fits d (JBool b) = True"
| "json_fits d (JNum n) = (\<exists>i. n = itoa i)"
| "json_fits d (JStr s) = valid_utf8 s"
| "json_fits d (JArr xs) = (0 < d \<and> (\<forall>x \<in> set xs. json_fits (d - 1) x))"
| "json_fits d (JObj ms) = (0 < d \<and> (\<forall>(k, v) \<in> set ms. valid_utf8 k \<and> json_fits (d - 1) v))"

lemma json_fits_mono: "json_fits d j \<Longrightarrow> d \<le> e \<Longrightarrow> json_fits e j"
proof (induction d j arbitrary: e rule: json_fits.induct)
  case (5 d xs)
  then show ?case by (auto simp: le_diff_conv)
next
  case (6 d ms)
  then show ?case by (fastforce simp: le_diff_conv)
qed auto

text \<open>How the text of a value begins.\<close>

definition value_start :: "char \<Rightarrow> bool" where
  "value_start c \<longleftrightarrow> \<not> json_white c \<and> c \<noteq> CHR '']'' \<and> c \<noteq> CHR ''}''"

lemma digit_value_start: "is_digit c \<or> c = CHR ''-'' \<Longrightarrow>
    value_start c \<and> c \<noteq> CHR 0x22 \<and> c \<noteq> CHR ''['' \<and> c \<noteq> CHR ''{'' \<and> c \<noteq> CHR ''n'' \<and> c \<noteq> CHR ''t'' \<and> c \<noteq> CHR ''f''"
  by (auto simp: value_start_def json_white_def is_digit_def)

lemma json_text_start: "json_fits d j \<Longrightarrow> \<exists>c s. json_text j = c # s \<and> value_start c"
  using itoa_head digit_value_start
  by (cases j) (fastforce simp: value_start_def json_white_def quote_string_def)+

lemma skip_white_start: "\<not> json_white c \<Longrightarrow> skip_white (c # s) = c # s"
  by (simp add: skip_white_def)

lemma json_items_text:
  assumes "\<And>x t. x \<in> set xs \<Longrightarrow> follows t \<Longrightarrow> item (text x @ t) = Some (x, t)" "xs \<noteq> []"
    and "close = CHR '']'' \<or> close = CHR ''}''"
  shows "json_items item close (comma_separated (map text xs) @ close # t) = Some (xs, t)"
  using assms(1,2)
proof (induction xs rule: induct_list012)
  case (2 x)
  have "follows (close # t)" "skip_white (close # t) = close # t"
    using assms(3) by (auto simp: skip_white_start json_white_def)
  with 2 show ?case by (subst json_items.simps) simp
next
  case (3 x y xs)
  let ?rest = "comma_separated (map text (y # xs)) @ close # t"
  have "skip_white (CHR '','' # ?rest) = CHR '','' # ?rest" by (simp add: skip_white_start json_white_def)
  moreover have "item (text x @ CHR '','' # ?rest) = Some (x, CHR '','' # ?rest)" using 3(3) by simp
  moreover have "json_items item close ?rest = Some (y # xs, t)" using 3 by simp
  ultimately show ?case using assms(3) by (subst json_items.simps) auto
qed simp

lemma json_block_text:
  assumes "\<And>x t. x \<in> set xs \<Longrightarrow> follows t \<Longrightarrow> item (text x @ t) = Some (x, t)"
    and "\<And>x. x \<in> set xs \<Longrightarrow> \<exists>c s. text x = c # s \<and> value_start c"
    and "close = CHR '']'' \<or> close = CHR ''}''"
  shows "json_block item close (comma_separated (map text xs) @ close # t) = Some (xs, t)"
proof (cases xs)
  case Nil
  with assms(3) show ?thesis by (auto simp: json_block_def skip_white_start json_white_def)
next
  case (Cons x ys)
  with assms(2) [of x] obtain c s where "text x = c # s" "value_start c" by auto
  then have "\<exists>u. comma_separated (map text xs) @ close # t = c # u"
    using Cons by (cases ys) simp_all
  then obtain u where u: "comma_separated (map text xs) @ close # t = c # u" ..
  have "json_items item close (c # u) = Some (xs, t)"
    unfolding u [symmetric] by (rule json_items_text [OF assms(1) _ assms(3)]) (simp_all add: Cons)
  moreover have "skip_white (c # u) = c # u" "c \<noteq> close"
    using \<open>value_start c\<close> assms(3) by (auto simp: value_start_def skip_white_start)
  ultimately show ?thesis by (simp add: json_block_def u)
qed

lemma json_string_quoted: "json_string (escape_string s @ [CHR 0x22] @ t) = Some (as_utf8 s, t)"
  using json_string_escape [of s t] by (simp del: json_string.simps)

lemma json_member_text:
  assumes "valid_utf8 k" "value (json_text v @ t) = Some (v, t)"
  shows "json_member value ((quote_string k @ CHR '':'' # json_text v) @ t) = Some ((k, v), t)"
  using assms json_string_escape [of k "CHR '':'' # json_text v @ t"]
  by (simp add: json_member_def quote_string_def skip_white_start json_white_def valid_utf8_def del: json_string.simps)

lemma json_value_text: "json_fits d j \<Longrightarrow> follows t \<Longrightarrow> json_value d (json_text j @ t) = Some (j, t)"
proof (induction d j arbitrary: t rule: json_fits.induct)
  case (3 d n)
  then obtain i c s where n: "n = itoa i" "itoa i = c # s" "is_digit c \<or> c = CHR ''-''" using itoa_head by fastforce
  with json_number_itoa [OF 3(2), of i] digit_value_start [OF n(3)] show ?case
    by (subst json_value.simps) (simp add: value_start_def skip_white_start)
next
  case (4 d s)
  then show ?case using json_string_escape [of s t]
    by (subst json_value.simps)
      (simp add: quote_string_def skip_white_start json_white_def valid_utf8_def del: json_string.simps)
next
  case (5 d xs)
  have "json_block (json_value (d - 1)) (CHR '']'') (comma_separated (map json_text xs) @ CHR '']'' # t) = Some (xs, t)"
    using 5 json_text_start by (intro json_block_text) auto
  with 5(2) show ?case
    by (subst json_value.simps) (simp add: skip_white_start json_white_def)
next
  case (6 d ms)
  let ?text = "\<lambda>(k, v). quote_string k @ CHR '':'' # json_text v"
  have "json_block (json_member (json_value (d - 1))) (CHR ''}'') (comma_separated (map ?text ms) @ CHR ''}'' # t) = Some (ms, t)"
  proof (rule json_block_text)
    fix m t' assume m: "m \<in> set ms" "follows t'"
    obtain k v where kv: "m = (k, v)" by fastforce
    with 6 m have "valid_utf8 k" "json_value (d - 1) (json_text v @ t') = Some (v, t')" by auto
    then show "json_member (json_value (d - 1)) (?text m @ t') = Some (m, t')"
      using json_member_text [of k "json_value (d - 1)" v t'] kv by simp
  qed (auto simp: quote_string_def value_start_def json_white_def split: prod.splits)
  with 6(2) show ?case
    by (subst json_value.simps) (simp add: skip_white_start json_white_def)
qed (subst json_value.simps, simp add: skip_white_start json_white_def json_literal_def)+

theorem json_round_trip: "json_fits max_nesting j \<Longrightarrow> json_parse (json_text j) = Some j"
  using json_value_text [of max_nesting j "[]"] by (simp add: json_parse_def skip_white_def)

end
