(* ===== verification/GoBase64.thy ===== *)
theory GoBase64
  imports GoCrypto
begin

text \<open>
  \<open>base64.StdEncoding.EncodeToString\<close>, as \<^verbatim>\<open>encoding/json\<close> writes a \<open>[]byte\<close>, and that decoding inverts it.
\<close>

definition b64_char :: "nat \<Rightarrow> char" where
  "b64_char n =
     (if n < 26 then char_of (65 + n) else if n < 52 then char_of (71 + n) else if n < 62 then char_of (n - 4)
      else if n = 62 then CHR ''+'' else CHR ''/'')"

fun base64_encode :: "bytes \<Rightarrow> string" where
  "base64_encode [] = []"
| "base64_encode [a] = (let n = unat a * 16 in [b64_char (n div 64), b64_char (n mod 64), CHR ''='', CHR ''=''])"
| "base64_encode [a, b] =
     (let n = (unat a * 256 + unat b) * 4 in
      [b64_char (n div 4096), b64_char (n div 64 mod 64), b64_char (n mod 64), CHR ''=''])"
| "base64_encode (a # b # c # bs) =
     (let n = (unat a * 256 + unat b) * 256 + unat c in
      [b64_char (n div 262144), b64_char (n div 4096 mod 64), b64_char (n div 64 mod 64), b64_char (n mod 64)]
      @ base64_encode bs)"

lemma code_b64_char: "n < 64 \<Longrightarrow> code (b64_char n) = (if n < 26 then 65 + n else if n < 52 then 71 + n else if n < 62 then n - 4
      else if n = 62 then 43 else 47)"
  by (simp add: b64_char_def take_bit_eq_mod)

lemma b64_value_char: "n < 64 \<Longrightarrow> b64_value (b64_char n) = Some n"
  by (auto simp: b64_value_def code_b64_char Let_def)

lemma b64_char_plain:
  assumes "n < 64"
  shows "b64_char n \<noteq> CHR ''=''"
    "code (b64_char n) \<noteq> 10" "code (b64_char n) \<noteq> 13"
  using code_b64_char [OF assms] assms by (auto split: if_splits)

lemma b64_char_range: "n < 64 \<Longrightarrow> 13 < code (b64_char n) \<and> code (b64_char n) < 128"
  by (auto simp: code_b64_char)

lemma unat_byte: "unat a < 256" for a :: byte
  using unsigned_less [of a, where ?'a = nat] by simp

text \<open>Three octets as four groups of six bits, by way of the digits to the bases 4 and 16.\<close>

lemma group_eqs:
  fixes q r :: nat assumes "r < 64"
  shows "(q * 64 + r) div 64 = q" "(q * 64 + r) mod 64 = r"
  using assms by simp_all

lemma split_octet: "0 < k \<Longrightarrow> \<exists>q r. n = q * k + r \<and> r < k" for n k :: nat
  by (metis div_mult_mod_eq mod_less_divisor)

lemma octets3:
  fixes a b c :: nat assumes "a < 256" "b < 256" "c < 256" "n = (a * 256 + b) * 256 + c"
  shows "4 * (n div 262144) + n div 4096 mod 64 div 16 = a"
    "16 * (n div 4096 mod 64 mod 16) + n div 64 mod 64 div 4 = b"
    "64 * (n div 64 mod 64 mod 4) + n mod 64 = c"
    "n div 262144 < 64"
proof -
  obtain a1 a0 where a: "a = a1 * 4 + a0" "a0 < 4" using split_octet [of 4 a] by fastforce
  obtain b1 b0 where b: "b = b1 * 16 + b0" "b0 < 16" using split_octet [of 16 b] by fastforce
  obtain c1 c0 where c: "c = c1 * 64 + c0" "c0 < 64" using split_octet [of 64 c] by fastforce
  from a b c assms have lt: "a1 < 64" "b1 < 16" "c1 < 4" by linarith+
  have n: "n = ((a1 * 64 + (a0 * 16 + b1)) * 64 + (b0 * 4 + c1)) * 64 + c0" using a b c assms(4) by simp
  have g: "a0 * 16 + b1 < 64" "b0 * 4 + c1 < 64" using a b lt by linarith+
  have 0: "n mod 64 = c0" "n div 64 = (a1 * 64 + (a0 * 16 + b1)) * 64 + (b0 * 4 + c1)"
    unfolding n by (rule group_eqs [OF c(2)])+
  have 1: "n div 64 mod 64 = b0 * 4 + c1" "n div 64 div 64 = a1 * 64 + (a0 * 16 + b1)"
    unfolding 0 by (rule group_eqs [OF g(2)])+
  have 2: "n div 64 div 64 mod 64 = a0 * 16 + b1" "n div 64 div 64 div 64 = a1"
    unfolding 1 by (rule group_eqs [OF g(1)])+
  have d: "n div 4096 = n div 64 div 64" "n div 262144 = n div 64 div 64 div 64"
    by (simp_all flip: div_mult2_eq)
  show "4 * (n div 262144) + n div 4096 mod 64 div 16 = a" unfolding d 2 using a lt by simp
  show "16 * (n div 4096 mod 64 mod 16) + n div 64 mod 64 div 4 = b" unfolding d 2 1(1) using b lt by simp
  show "64 * (n div 64 mod 64 mod 4) + n mod 64 = c" unfolding 1(1) 0(1) using c lt by simp
  show "n div 262144 < 64" unfolding d 2 by (rule lt)
qed

lemma octets2:
  fixes a b :: nat assumes "a < 256" "b < 256" "n = (a * 256 + b) * 4"
  shows "4 * (n div 4096) + n div 64 mod 64 div 16 = a" "16 * (n div 64 mod 64 mod 16) + n mod 64 div 4 = b"
    "n div 4096 < 64"
proof -
  have "(a * 256 + b) * 256 + 0 = n * 64" using assms(3) by simp
  note o = octets3 [OF assms(1,2), of 0 "n * 64", OF _ this [symmetric]]
  have d: "n * 64 div 64 = n" "n * 64 div 4096 = n div 64" "n * 64 div 262144 = n div 4096" by simp_all
  show "4 * (n div 4096) + n div 64 mod 64 div 16 = a" "16 * (n div 64 mod 64 mod 16) + n mod 64 div 4 = b"
    "n div 4096 < 64"
    using o(1,2,4) unfolding d by simp_all
qed

lemma octet1:
  fixes a :: nat assumes "a < 256" "n = a * 16"
  shows "4 * (n div 64) + n mod 64 div 16 = a" "n div 64 < 64"
proof -
  have "(a * 256 + 0) * 4 = n * 64" using assms(2) by simp
  note o = octets2 [OF assms(1), of 0 "n * 64", OF _ this [symmetric]]
  have d: "n * 64 div 64 = n" "n * 64 div 4096 = n div 64" by simp_all
  show "4 * (n div 64) + n mod 64 div 16 = a" "n div 64 < 64" using o(1,3) unfolding d by simp_all
qed

lemma b64_quanta_encode: "b64_quanta (base64_encode bs) = Some bs"
proof (induction bs rule: base64_encode.induct)
  case (2 a)
  define n where "n = unat a * 16"
  note o = octet1 [OF unat_byte n_def]
  have "b64_quanta (base64_encode [a]) = Some [of_nat (4 * (n div 64) + n mod 64 div 16)]"
    by (simp add: b64_value_char b64_char_plain o(2) flip: n_def)
  with o(1) show ?case by simp
next
  case (3 a b)
  define n where "n = (unat a * 256 + unat b) * 4"
  note o = octets2 [OF unat_byte unat_byte n_def]
  have "b64_quanta (base64_encode [a, b]) =
      Some [of_nat (4 * (n div 4096) + n div 64 mod 64 div 16), of_nat (16 * (n div 64 mod 64 mod 16) + n mod 64 div 4)]"
    by (simp only: base64_encode.simps n_def [symmetric] Let_def) (simp add: b64_value_char b64_char_plain o(3))
  with o(1,2) show ?case by simp
next
  case (4 a b c bs)
  define n where "n = (unat a * 256 + unat b) * 256 + unat c"
  note o = octets3 [OF unat_byte unat_byte unat_byte n_def]
  have "b64_quanta (base64_encode (a # b # c # bs)) =
      Some ([of_nat (4 * (n div 262144) + n div 4096 mod 64 div 16), of_nat (16 * (n div 4096 mod 64 mod 16) + n div 64 mod 64 div 4),
        of_nat (64 * (n div 64 mod 64 mod 4) + n mod 64)] @ bs)"
    by (simp only: base64_encode.simps n_def [symmetric] Let_def) (simp add: b64_value_char b64_char_plain o(4) 4)
  with o(1-3) show ?case by simp
qed simp

lemma base64_encode_plain: "c \<in> set (base64_encode bs) \<Longrightarrow> 13 < code c \<and> code c < 128"
proof (induction bs rule: base64_encode.induct)
  case (2 a)
  then show ?case using octet1(2) [OF unat_byte refl, of a] b64_char_range by (auto simp: Let_def)
next
  case (3 a b)
  then show ?case using octets2(3) [OF unat_byte unat_byte refl, of a b] b64_char_range by (auto simp: Let_def)
next
  case (4 a b c bs)
  then show ?case using octets3(4) [OF unat_byte unat_byte unat_byte refl, of a b c] b64_char_range by (auto simp: Let_def)
qed simp

lemma base64_decode_encode: "base64_decode (base64_encode bs) = Some bs"
proof -
  have "filter (\<lambda>c. code c \<noteq> 10 \<and> code c \<noteq> 13) (base64_encode bs) = base64_encode bs"
    using base64_encode_plain by (fastforce simp: filter_id_conv)
  then show ?thesis by (simp add: base64_decode_def b64_quanta_encode)
qed

lemma base64_encode_ascii: "ascii_string (base64_encode bs)"
  using base64_encode_plain by (auto simp: ascii_string_def list_all_iff)

end
