(* ===== verification/PluginMessages.thy ===== *)
theory PluginMessages
  imports PluginManager GoJsonTree GoBase64
begin

text \<open>
  The messages between the router and its plugins, as \<^verbatim>\<open>encoding/json\<close> writes and reads the structs of
  \<^verbatim>\<open>internal/plugins/types.go\<close> with their tags. Decoding stores into what is there: a key may occur twice,
  \<^verbatim>\<open>null\<close> leaves most values as they are, and a slice keeps the memory behind its end. Any error discards
  the message, so a decoder answers \<open>None\<close>, and the text of the error is left out.
\<close>

section \<open>Decoding\<close>

type_synonym 'a decoder = "json \<Rightarrow> 'a \<Rightarrow> 'a option"

fun fold_opt :: "('x \<Rightarrow> 's \<Rightarrow> 's option) \<Rightarrow> 'x list \<Rightarrow> 's \<Rightarrow> 's option" where
  "fold_opt f [] s = Some s"
| "fold_opt f (x # xs) s = (case f x s of None \<Rightarrow> None | Some s' \<Rightarrow> fold_opt f xs s')"

definition decode_string :: "string decoder" where
  "decode_string j x = (case j of JNull \<Rightarrow> Some x | JStr s \<Rightarrow> Some s | _ \<Rightarrow> None)"

definition decode_bool :: "bool decoder" where
  "decode_bool j x = (case j of JNull \<Rightarrow> Some x | JBool b \<Rightarrow> Some b | _ \<Rightarrow> None)"

definition decode_int :: "int decoder" where
  "decode_int j x =
     (case j of JNull \<Rightarrow> Some x
      | JNum n \<Rightarrow> (case parse_int n of (i, ok) \<Rightarrow> if ok then Some i else None)
      | _ \<Rightarrow> None)"

text \<open>A \<^verbatim>\<open>uint8\<close>, by \<open>strconv.ParseUint\<close>, which takes no sign.\<close>

definition decode_byte :: "byte decoder" where
  "decode_byte j x =
     (case j of JNull \<Rightarrow> Some x
      | JNum n \<Rightarrow> if n \<noteq> [] \<and> list_all is_digit n \<and> digits_value n < 256 then Some (of_int (digits_value n)) else None
      | _ \<Rightarrow> None)"

text \<open>A pointer is set to nil by \<^verbatim>\<open>null\<close>, and to a new value if it was nil.\<close>

definition decode_pointer :: "'a decoder \<Rightarrow> 'a \<Rightarrow> 'a option decoder" where
  "decode_pointer dec zero j p =
     (case j of JNull \<Rightarrow> Some None
      | _ \<Rightarrow> map_option Some (dec j (case p of None \<Rightarrow> zero | Some x \<Rightarrow> x)))"

text \<open>A map keeps its entries; each value is decoded anew.\<close>

definition decode_map :: "(string \<rightharpoonup> string) decoder" where
  "decode_map j m =
     (case j of JNull \<Rightarrow> Some Map.empty
      | JObj ms \<Rightarrow> fold_opt (\<lambda>(k, v) m. map_option (\<lambda>s. m(k \<mapsto> s)) (decode_string v [])) ms m
      | _ \<Rightarrow> None)"

text \<open>
  A slice that is not nil: its memory, as far as it was ever written, and its length. Elements are
  decoded into the memory that is there, zero values after it.
\<close>

type_synonym 'a slice = "('a list \<times> nat) option"

definition slice_value :: "'a slice \<Rightarrow> 'a list option" where
  "slice_value s = map_option (\<lambda>(m, n). take n m) s"

fun decode_elements :: "'a decoder \<Rightarrow> 'a \<Rightarrow> json list \<Rightarrow> 'a list \<Rightarrow> 'a list option" where
  "decode_elements dec zero [] m = Some m"
| "decode_elements dec zero (j # js) m =
     (case dec j (case m of [] \<Rightarrow> zero | x # _ \<Rightarrow> x) of None \<Rightarrow> None
      | Some y \<Rightarrow> map_option (Cons y) (decode_elements dec zero js (tl m)))"

definition decode_slice :: "'a decoder \<Rightarrow> 'a \<Rightarrow> 'a slice decoder" where
  "decode_slice dec zero j s =
     (case j of JNull \<Rightarrow> Some None
      | JArr js \<Rightarrow>
          if js = [] then Some (Some ([], 0))
          else map_option (\<lambda>m. Some (m, length js))
            (decode_elements dec zero js (case s of None \<Rightarrow> [] | Some (m, _) \<Rightarrow> m))
      | _ \<Rightarrow> None)"

text \<open>A \<^verbatim>\<open>[]byte\<close> is a string in base 64, or an array of numbers.\<close>

definition decode_bytes :: "byte slice decoder" where
  "decode_bytes j s =
     (case j of JStr t \<Rightarrow> map_option (\<lambda>b. Some (b, length b)) (base64_decode t)
      | _ \<Rightarrow> decode_slice decode_byte 0 j s)"

text \<open>The field of a key: by its name, otherwise by its name up to case. Other keys are ignored.\<close>

type_synonym 's fields = "(string \<times> 's decoder) list"

definition field_of :: "'s fields \<Rightarrow> string \<Rightarrow> 's decoder option" where
  "field_of fs k =
     (case map_of fs k of Some d \<Rightarrow> Some d
      | None \<Rightarrow> map_option snd (find (\<lambda>(name, _). equal_fold name k) fs))"

definition decode_member :: "'s fields \<Rightarrow> string \<times> json \<Rightarrow> 's \<Rightarrow> 's option" where
  "decode_member fs m s = (case field_of fs (fst m) of None \<Rightarrow> Some s | Some d \<Rightarrow> d (snd m) s)"

definition decode_struct :: "'s fields \<Rightarrow> 's decoder" where
  "decode_struct fs j s =
     (case j of JNull \<Rightarrow> Some s
      | JObj ms \<Rightarrow> fold_opt (decode_member fs) ms s
      | _ \<Rightarrow> None)"

definition at_field :: "('s \<Rightarrow> 'a) \<Rightarrow> ('a \<Rightarrow> 's \<Rightarrow> 's) \<Rightarrow> 'a decoder \<Rightarrow> 's decoder" where
  "at_field get put dec j s = map_option (\<lambda>x. put x s) (dec j (get s))"

definition backend_fields :: "backend fields" where
  "backend_fields =
     [(''host'', at_field b_host (\<lambda>x. b_host_update (\<lambda>_. x)) decode_string),
      (''port'', at_field b_port (\<lambda>x. b_port_update (\<lambda>_. x)) decode_int),
      (''weight'', at_field b_weight (\<lambda>x. b_weight_update (\<lambda>_. x)) decode_int),
      (''meta'', at_field b_meta (\<lambda>x. b_meta_update (\<lambda>_. x)) decode_map)]"

definition event_fields :: "connect_event fields" where
  "event_fields =
     [(''sni'', at_field ev_sni (\<lambda>x. ev_sni_update (\<lambda>_. x)) decode_string),
      (''client_cert_fingerprint'', at_field ev_fingerprint (\<lambda>x. ev_fingerprint_update (\<lambda>_. x)) decode_string),
      (''protocol_hash'', at_field ev_hash (\<lambda>x. ev_hash_update (\<lambda>_. x)) decode_string),
      (''client_type'', at_field ev_client_type (\<lambda>x. ev_client_type_update (\<lambda>_. x)) decode_byte),
      (''uuid'', at_field ev_uuid (\<lambda>x. ev_uuid_update (\<lambda>_. x)) decode_string),
      (''username'', at_field ev_username (\<lambda>x. ev_username_update (\<lambda>_. x)) decode_string),
      (''language'', at_field ev_language (\<lambda>x. ev_language_update (\<lambda>_. x)) decode_string),
      (''identity_token_present'', at_field ev_identity (\<lambda>x. ev_identity_update (\<lambda>_. x)) decode_bool)]"

text \<open>While a message is decoded, its slices are kept with their memory.\<close>

record request_draft = connect_request +
  rd_candidates :: "backend slice"
  rd_referral :: "byte slice"

record response_draft = connect_response +
  pd_candidates :: "backend slice"
  pd_referral :: "byte slice"

definition request_fields :: "request_draft fields" where
  "request_fields =
     [(''event'', at_field rq_event (\<lambda>x. rq_event_update (\<lambda>_. x)) (decode_struct event_fields)),
      (''strategy'', at_field rq_strategy (\<lambda>x. rq_strategy_update (\<lambda>_. x)) decode_string),
      (''candidates'', at_field rd_candidates (\<lambda>x. rd_candidates_update (\<lambda>_. x))
         (decode_slice (decode_struct backend_fields) empty_backend)),
      (''selected_index'', at_field rq_index (\<lambda>x. rq_index_update (\<lambda>_. x)) decode_int),
      (''backend'', at_field rq_backend (\<lambda>x. rq_backend_update (\<lambda>_. x)) (decode_struct backend_fields)),
      (''referral_content'', at_field rd_referral (\<lambda>x. rd_referral_update (\<lambda>_. x)) decode_bytes)]"

definition response_fields :: "response_draft fields" where
  "response_fields =
     [(''deny'', at_field rp_deny (\<lambda>x. rp_deny_update (\<lambda>_. x)) decode_bool),
      (''deny_reason'', at_field rp_reason (\<lambda>x. rp_reason_update (\<lambda>_. x)) decode_string),
      (''candidates'', at_field pd_candidates (\<lambda>x. pd_candidates_update (\<lambda>_. x))
         (decode_slice (decode_struct backend_fields) empty_backend)),
      (''selected_index'', at_field rp_index (\<lambda>x. rp_index_update (\<lambda>_. x)) (decode_pointer decode_int 0)),
      (''backend'', at_field rp_backend (\<lambda>x. rp_backend_update (\<lambda>_. x))
         (decode_pointer (decode_struct backend_fields) empty_backend)),
      (''referral_content'', at_field pd_referral (\<lambda>x. pd_referral_update (\<lambda>_. x)) decode_bytes)]"

definition empty_event :: connect_event where
  "empty_event = \<lparr>ev_sni = [], ev_fingerprint = [], ev_hash = [], ev_client_type = 0, ev_uuid = [],
     ev_username = [], ev_language = [], ev_identity = False\<rparr>"

definition empty_request :: connect_request where
  "empty_request = \<lparr>rq_event = empty_event, rq_strategy = [], rq_candidates = [], rq_index = 0,
     rq_backend = empty_backend, rq_referral = None\<rparr>"

definition finish_request :: "request_draft \<Rightarrow> connect_request" where
  "finish_request d = connect_request.truncate
     (d\<lparr>rq_candidates := (case slice_value (rd_candidates d) of None \<Rightarrow> [] | Some bs \<Rightarrow> bs),
        rq_referral := slice_value (rd_referral d)\<rparr>)"

definition finish_response :: "response_draft \<Rightarrow> connect_response" where
  "finish_response d = connect_response.truncate
     (d\<lparr>rp_candidates := slice_value (pd_candidates d), rp_referral := slice_value (pd_referral d)\<rparr>)"

definition unmarshal_request :: "bytes \<Rightarrow> string + connect_request" where
  "unmarshal_request b =
     (case Option.bind (json_parse (string_of_bytes b)) (\<lambda>j. decode_struct request_fields j
         (connect_request.extend empty_request (request_draft.fields None None))) of
        None \<Rightarrow> Inl ''json'' | Some d \<Rightarrow> Inr (finish_request d))"

definition unmarshal_response :: "bytes \<Rightarrow> string + connect_response" where
  "unmarshal_response b =
     (case Option.bind (json_parse (string_of_bytes b)) (\<lambda>j. decode_struct response_fields j
         (connect_response.extend empty_response (response_draft.fields None None))) of
        None \<Rightarrow> Inl ''json'' | Some d \<Rightarrow> Inr (finish_response d))"

section \<open>Encoding\<close>

text \<open>A field with the tag \<^verbatim>\<open>omitempty\<close>.\<close>

definition omit_empty :: "bool \<Rightarrow> string \<Rightarrow> json \<Rightarrow> (string \<times> json) list" where
  "omit_empty skip name v = (if skip then [] else [(name, v)])"

text \<open>The keys of a map in order. The model does not tell a nil map from an empty one; \<open>nil\<close> does.\<close>

definition meta_json :: "(backend \<Rightarrow> bool) \<Rightarrow> backend \<Rightarrow> json" where
  "meta_json nil b =
     (if dom (b_meta b) = {} \<and> nil b then JNull
      else JObj (map (\<lambda>k. (k, JStr (the (b_meta b k)))) (sorted_list_of_set (dom (b_meta b)))))"

definition backend_json :: "(backend \<Rightarrow> bool) \<Rightarrow> backend \<Rightarrow> json" where
  "backend_json nil b = JObj
     [(''host'', JStr (b_host b)), (''port'', JNum (itoa (b_port b))), (''weight'', JNum (itoa (b_weight b))),
      (''meta'', meta_json nil b)]"

definition event_json :: "connect_event \<Rightarrow> json" where
  "event_json e = JObj
     ([(''sni'', JStr (ev_sni e))] @
      omit_empty (ev_fingerprint e = []) ''client_cert_fingerprint'' (JStr (ev_fingerprint e)) @
      omit_empty (ev_hash e = []) ''protocol_hash'' (JStr (ev_hash e)) @
      omit_empty (ev_client_type e = 0) ''client_type'' (JNum (itoa (uint (ev_client_type e)))) @
      omit_empty (ev_uuid e = []) ''uuid'' (JStr (ev_uuid e)) @
      omit_empty (ev_username e = []) ''username'' (JStr (ev_username e)) @
      omit_empty (ev_language e = []) ''language'' (JStr (ev_language e)) @
      omit_empty (\<not> ev_identity e) ''identity_token_present'' (JBool (ev_identity e)))"

text \<open>
  The candidates of a request are nil when there are none: the engine gives no empty list, and one of a
  plugin is ignored.
\<close>

definition request_json :: "(backend \<Rightarrow> bool) \<Rightarrow> connect_request \<Rightarrow> json" where
  "request_json nil r = JObj
     ([(''event'', event_json (rq_event r)), (''strategy'', JStr (rq_strategy r)),
       (''candidates'', if rq_candidates r = [] then JNull else JArr (map (backend_json nil) (rq_candidates r))),
       (''selected_index'', JNum (itoa (rq_index r))), (''backend'', backend_json nil (rq_backend r))] @
      (case rq_referral r of None \<Rightarrow> []
       | Some b \<Rightarrow> omit_empty (b = []) ''referral_content'' (JStr (base64_encode b))))"

definition response_json :: "(backend \<Rightarrow> bool) \<Rightarrow> connect_response \<Rightarrow> json" where
  "response_json nil r = JObj
     ([(''deny'', JBool (rp_deny r))] @ omit_empty (rp_reason r = []) ''deny_reason'' (JStr (rp_reason r)) @
      (case rp_candidates r of None \<Rightarrow> []
       | Some bs \<Rightarrow> omit_empty (bs = []) ''candidates'' (JArr (map (backend_json nil) bs))) @
      (case rp_index r of None \<Rightarrow> [] | Some i \<Rightarrow> [(''selected_index'', JNum (itoa i))]) @
      (case rp_backend r of None \<Rightarrow> [] | Some b \<Rightarrow> [(''backend'', backend_json nil b)]) @
      (case rp_referral r of None \<Rightarrow> []
       | Some b \<Rightarrow> omit_empty (b = []) ''referral_content'' (JStr (base64_encode b))))"

definition marshal_request :: "(backend \<Rightarrow> bool) \<Rightarrow> connect_request \<Rightarrow> string + bytes" where
  "marshal_request nil r = Inr (bytes_of_string (json_text (request_json nil r)))"

definition marshal_response :: "(backend \<Rightarrow> bool) \<Rightarrow> connect_response \<Rightarrow> string + bytes" where
  "marshal_response nil r = Inr (bytes_of_string (json_text (response_json nil r)))"

section \<open>What is written is read back\<close>

text \<open>Values that the wire carries without loss: UTF-8 and 64-bit integers.\<close>

definition plain_backend :: "backend \<Rightarrow> bool" where
  "plain_backend b \<longleftrightarrow> valid_utf8 (b_host b) \<and> int64_range (b_port b) \<and> int64_range (b_weight b) \<and>
     finite (dom (b_meta b)) \<and> (\<forall>(k, v) \<in> Map.graph (b_meta b). valid_utf8 k \<and> valid_utf8 v)"

definition plain_event :: "connect_event \<Rightarrow> bool" where
  "plain_event e \<longleftrightarrow> list_all valid_utf8
     [ev_sni e, ev_fingerprint e, ev_hash e, ev_uuid e, ev_username e, ev_language e]"

definition plain_request :: "connect_request \<Rightarrow> bool" where
  "plain_request r \<longleftrightarrow> plain_event (rq_event r) \<and> valid_utf8 (rq_strategy r) \<and> list_all plain_backend (rq_candidates r) \<and>
     int64_range (rq_index r) \<and> plain_backend (rq_backend r) \<and> rq_referral r \<noteq> Some []"

definition plain_response :: "connect_response \<Rightarrow> bool" where
  "plain_response r \<longleftrightarrow> valid_utf8 (rp_reason r) \<and>
     (case rp_candidates r of None \<Rightarrow> True | Some bs \<Rightarrow> bs \<noteq> [] \<and> list_all plain_backend bs) \<and>
     (case rp_index r of None \<Rightarrow> True | Some i \<Rightarrow> int64_range i) \<and>
     (case rp_backend r of None \<Rightarrow> True | Some b \<Rightarrow> plain_backend b) \<and> rp_referral r \<noteq> Some []"

named_theorems decoding \<open>decoders on what the encoder writes\<close>

lemma decode_scalars [decoding]:
  "decode_string (JStr s) x = Some s" "decode_bool (JBool b) y = Some b"
  "decode_bytes (JStr (base64_encode bs)) z = Some (Some (bs, length bs))"
  "int64_range i \<Longrightarrow> decode_int (JNum (itoa i)) n = Some i"
  by (simp_all add: decode_string_def decode_bool_def decode_bytes_def base64_decode_encode decode_int_def parse_int_itoa)

lemma decode_byte_itoa [decoding]: "decode_byte (JNum (itoa (uint b))) x = Some b"
proof -
  have "uint b < 256" using unsigned_less [of b, where ?'a = int] by simp
  then show ?thesis
    by (simp add: decode_byte_def itoa_def nat_digits_digits nat_digits_value)
qed

lemma fold_opt_map:
  "set ks \<subseteq> dom m \<Longrightarrow>
   fold_opt (\<lambda>(k, v) m. map_option (\<lambda>s. m(k \<mapsto> s)) (decode_string v [])) (map (\<lambda>k. (k, JStr (the (m k)))) ks) a =
     Some (a ++ (m |` set ks))"
proof (induction ks arbitrary: a)
  case (Cons k ks)
  then obtain v where "m k = Some v" by auto
  with Cons show ?case
    by (auto simp: decode_scalars fun_eq_iff map_add_def restrict_map_def split: option.splits)
qed simp

lemma decode_meta [decoding]:
  "finite (dom (b_meta b)) \<Longrightarrow> decode_map (meta_json nil b) Map.empty = Some (b_meta b)"
  by (auto simp: decode_map_def meta_json_def fold_opt_map restrict_map_def fun_eq_iff map_add_def domIff
      split: option.splits)

text \<open>A member of the text sets its field; one that is left out finds the field as it is.\<close>

lemma fold_skip:
  assumes "decode_member fs (n, v) s = Some s'" "skip \<Longrightarrow> s' = s"
  shows "fold_opt (decode_member fs) (omit_empty skip n v @ ms) s = fold_opt (decode_member fs) ms s'"
    and "fold_opt (decode_member fs) (omit_empty skip n v) s = Some s'"
  using assms by (auto simp: omit_empty_def)

lemmas member_defs = decode_member_def field_of_def at_field_def

lemma backend_members:
  "decode_member backend_fields (''host'', JStr h) b = Some (b\<lparr>b_host := h\<rparr>)"
  "int64_range i \<Longrightarrow> decode_member backend_fields (''port'', JNum (itoa i)) b = Some (b\<lparr>b_port := i\<rparr>)"
  "int64_range i \<Longrightarrow> decode_member backend_fields (''weight'', JNum (itoa i)) b = Some (b\<lparr>b_weight := i\<rparr>)"
  "finite (dom (b_meta x)) \<Longrightarrow> b_meta b = Map.empty \<Longrightarrow>
     decode_member backend_fields (''meta'', meta_json nil x) b = Some (b\<lparr>b_meta := b_meta x\<rparr>)"
  by (simp_all add: member_defs backend_fields_def decoding)

lemma decode_backend [decoding]:
  "plain_backend b \<Longrightarrow> decode_struct backend_fields (backend_json nil b) empty_backend = Some b"
  by (cases b) (simp add: plain_backend_def decode_struct_def backend_json_def backend_members empty_backend_def)

lemma decode_elements_backends:
  "list_all plain_backend bs \<Longrightarrow>
   decode_elements (decode_struct backend_fields) empty_backend (map (backend_json nil) bs) [] = Some bs"
  by (induction bs) (simp_all add: decoding)

lemma decode_candidates [decoding]:
  "list_all plain_backend bs \<Longrightarrow> bs \<noteq> [] \<Longrightarrow>
   decode_slice (decode_struct backend_fields) empty_backend (JArr (map (backend_json nil) bs)) None = Some (Some (bs, length bs))"
  by (simp add: decode_slice_def decode_elements_backends)

lemma event_members:
  "decode_member event_fields (''sni'', JStr s) e = Some (e\<lparr>ev_sni := s\<rparr>)"
  "decode_member event_fields (''client_cert_fingerprint'', JStr s) e = Some (e\<lparr>ev_fingerprint := s\<rparr>)"
  "decode_member event_fields (''protocol_hash'', JStr s) e = Some (e\<lparr>ev_hash := s\<rparr>)"
  "decode_member event_fields (''client_type'', JNum (itoa (uint b))) e = Some (e\<lparr>ev_client_type := b\<rparr>)"
  "decode_member event_fields (''uuid'', JStr s) e = Some (e\<lparr>ev_uuid := s\<rparr>)"
  "decode_member event_fields (''username'', JStr s) e = Some (e\<lparr>ev_username := s\<rparr>)"
  "decode_member event_fields (''language'', JStr s) e = Some (e\<lparr>ev_language := s\<rparr>)"
  "decode_member event_fields (''identity_token_present'', JBool c) e = Some (e\<lparr>ev_identity := c\<rparr>)"
  by (simp_all add: member_defs event_fields_def decoding)

lemma decode_event [decoding]: "decode_struct event_fields (event_json e) empty_event = Some e"
  by (cases e) (simp add: decode_struct_def event_json_def empty_event_def event_members fold_skip [OF event_members(2)]
      fold_skip [OF event_members(3)] fold_skip [OF event_members(4)] fold_skip [OF event_members(5)]
      fold_skip [OF event_members(6)] fold_skip [OF event_members(7)] fold_skip [OF event_members(8)])

lemma request_members:
  "rq_event d = empty_event \<Longrightarrow>
     decode_member request_fields (''event'', event_json e) d = Some (d\<lparr>rq_event := e\<rparr>)"
  "decode_member request_fields (''strategy'', JStr s) d = Some (d\<lparr>rq_strategy := s\<rparr>)"
  "decode_member request_fields (''candidates'', JNull) d = Some (d\<lparr>rd_candidates := None\<rparr>)"
  "rd_candidates d = None \<Longrightarrow> list_all plain_backend bs \<Longrightarrow> bs \<noteq> [] \<Longrightarrow>
     decode_member request_fields (''candidates'', JArr (map (backend_json nil) bs)) d =
     Some (d\<lparr>rd_candidates := Some (bs, length bs)\<rparr>)"
  "int64_range i \<Longrightarrow> decode_member request_fields (''selected_index'', JNum (itoa i)) d = Some (d\<lparr>rq_index := i\<rparr>)"
  "rq_backend d = empty_backend \<Longrightarrow> plain_backend b \<Longrightarrow>
     decode_member request_fields (''backend'', backend_json nil b) d = Some (d\<lparr>rq_backend := b\<rparr>)"
  "decode_member request_fields (''referral_content'', JStr (base64_encode c)) d = Some (d\<lparr>rd_referral := Some (c, length c)\<rparr>)"
  by (simp_all add: member_defs request_fields_def decoding) (simp add: decode_slice_def)

lemma decode_pointer_backend:
  "decode_pointer dec zero (backend_json nil b) p =
   map_option Some (dec (backend_json nil b) (case p of None \<Rightarrow> zero | Some x \<Rightarrow> x))"
  by (simp add: decode_pointer_def backend_json_def)

lemma decode_pointer_int: "int64_range i \<Longrightarrow> decode_pointer decode_int 0 (JNum (itoa i)) p = Some (Some i)"
  by (simp add: decode_pointer_def decode_scalars)

lemma response_members:
  "decode_member response_fields (''deny'', JBool c) d = Some (d\<lparr>rp_deny := c\<rparr>)"
  "decode_member response_fields (''deny_reason'', JStr s) d = Some (d\<lparr>rp_reason := s\<rparr>)"
  "pd_candidates d = None \<Longrightarrow> list_all plain_backend bs \<Longrightarrow> bs \<noteq> [] \<Longrightarrow>
     decode_member response_fields (''candidates'', JArr (map (backend_json nil) bs)) d =
     Some (d\<lparr>pd_candidates := Some (bs, length bs)\<rparr>)"
  "rp_index d = None \<Longrightarrow> int64_range i \<Longrightarrow>
     decode_member response_fields (''selected_index'', JNum (itoa i)) d = Some (d\<lparr>rp_index := Some i\<rparr>)"
  "rp_backend d = None \<Longrightarrow> plain_backend b \<Longrightarrow>
     decode_member response_fields (''backend'', backend_json nil b) d = Some (d\<lparr>rp_backend := Some b\<rparr>)"
  "decode_member response_fields (''referral_content'', JStr (base64_encode x)) d = Some (d\<lparr>pd_referral := Some (x, length x)\<rparr>)"
  by (simp_all add: member_defs response_fields_def decoding decode_pointer_backend decode_pointer_int)

lemma decode_request:
  assumes "plain_request r"
  shows "map_option finish_request (decode_struct request_fields (request_json nil r)
    (connect_request.extend empty_request (request_draft.fields None None))) = Some r"
  using assms
  by (cases r, cases "rq_referral r")
    (auto simp: plain_request_def decode_struct_def request_json_def request_members empty_request_def omit_empty_def
      finish_request_def slice_value_def connect_request.defs request_draft.defs)

lemma decode_response:
  assumes "plain_response r"
  shows "map_option finish_response (decode_struct response_fields (response_json nil r)
    (connect_response.extend empty_response (response_draft.fields None None))) = Some r"
  using assms
  by (cases r, cases "rp_candidates r"; cases "rp_index r"; cases "rp_backend r"; cases "rp_referral r"; cases "rp_reason r = []")
    (auto simp: plain_response_def decode_struct_def response_json_def response_members empty_response_def omit_empty_def
      finish_response_def slice_value_def connect_response.defs response_draft.defs)

lemma meta_fits: "plain_backend b \<Longrightarrow> json_fits 1 (meta_json nil b)"
  by (auto simp: meta_json_def plain_backend_def Map.graph_def)

lemma backend_fits: "plain_backend b \<Longrightarrow> json_fits 2 (backend_json nil b)"
  using meta_fits [of b nil] by (auto simp: backend_json_def plain_backend_def valid_utf8_ascii)

lemma backend_fits_more: "plain_backend b \<Longrightarrow> 2 \<le> d \<Longrightarrow> json_fits d (backend_json nil b)"
  using backend_fits json_fits_mono by blast

lemma backends_fit: "list_all plain_backend bs \<Longrightarrow> json_fits 3 (JArr (map (backend_json nil) bs))"
  using backend_fits by (auto simp: list_all_iff)

lemma base64_valid: "valid_utf8 (base64_encode b)"
  by (simp add: valid_utf8_ascii base64_encode_ascii)

lemma event_fits: "plain_event e \<Longrightarrow> json_fits 1 (event_json e)"
  by (auto simp: event_json_def plain_event_def omit_empty_def valid_utf8_ascii)

lemma request_fits: "plain_request r \<Longrightarrow> json_fits 4 (request_json nil r)"
  using backends_fit [of "rq_candidates r" nil] backend_fits_more [of "rq_backend r" 3 nil] event_fits [of "rq_event r"]
  by (auto simp: request_json_def plain_request_def omit_empty_def valid_utf8_ascii base64_valid
      elim!: json_fits_mono split: option.splits)

lemma response_fits: "plain_response r \<Longrightarrow> json_fits 4 (response_json nil r)"
  using backends_fit backend_fits_more [of "the (rp_backend r)" 3 nil]
  by (auto simp: response_json_def plain_response_def omit_empty_def valid_utf8_ascii base64_valid
      elim!: json_fits_mono split: option.splits)

lemma max_nesting_ge: "4 \<le> max_nesting"
  by (simp add: max_nesting_def)

text \<open>Both messages survive the wire.\<close>

lemma request_wire:
  assumes "plain_request r"
  shows "\<exists>b. marshal_request nil r = Inr b \<and> unmarshal_request b = Inr r"
  using json_round_trip [OF json_fits_mono [OF request_fits [OF assms] max_nesting_ge], of nil]
    decode_request [OF assms, of nil]
  by (auto simp: marshal_request_def unmarshal_request_def)

lemma response_wire:
  assumes "plain_response r"
  shows "\<exists>b. marshal_response nil r = Inr b \<and> unmarshal_response b = Inr r"
  using json_round_trip [OF json_fits_mono [OF response_fits [OF assms] max_nesting_ge], of nil]
    decode_response [OF assms, of nil]
  by (auto simp: marshal_response_def unmarshal_response_def)

end
