(* ===== verification/PluginGuests.thy ===== *)
theory PluginGuests
  imports PluginHosts PluginMessages "HOL-Library.Sublist"
begin

text \<open>
  The other side of the plugin hosts: the gRPC handler for plugin authors
  (\<^verbatim>\<open>internal/plugins/grpc_service.go\<close>) and the two example plugins
  (\<^verbatim>\<open>examples/grpc-plugin/main.go\<close>, \<^verbatim>\<open>examples/wasm-plugin/main.go\<close>). The memory of a WebAssembly guest
  is a map from addresses; where the runtime of the guest places a new slice is an argument. Both ends are put together with
  the messages of \<open>PluginMessages\<close>.
\<close>

section \<open>gRPC\<close>

text \<open>The interceptor is ignored.\<close>

definition on_connect_handler ::
  "(connect_request \<Rightarrow> string + connect_response) \<Rightarrow> (string + connect_request) \<Rightarrow> string + connect_response"
where
  "on_connect_handler impl dec = (case dec of Inl e \<Rightarrow> Inl e | Inr req \<Rightarrow> impl req)"

text \<open>The service that is registered: a handler for each method. The client names a method by its path.\<close>

record grpc_service =
  gs_name :: string
  gs_methods :: "(string \<times> ((string + connect_request) \<Rightarrow> string + connect_response)) list"

definition register_grpc_server :: "(connect_request \<Rightarrow> string + connect_response) \<Rightarrow> grpc_service" where
  "register_grpc_server impl =
     \<lparr>gs_name = ''hyrouter.Plugin'', gs_methods = [(''OnConnect'', on_connect_handler impl)]\<rparr>"

definition grpc_method :: string where
  "grpc_method = ''/hyrouter.Plugin/OnConnect''"

definition method_path :: "grpc_service \<Rightarrow> string \<Rightarrow> string" where
  "method_path g m = ''/'' @ gs_name g @ ''/'' @ m"

text \<open>A call from the router reaches the plugin: the path is that of a registered method.\<close>

lemma grpc_call_served:
  "\<exists>m h. (m, h) \<in> set (gs_methods (register_grpc_server impl)) \<and>
     method_path (register_grpc_server impl) m = grpc_method \<and> h (Inr req) = impl req \<and> h (Inl e) = Inl e"
  by (simp add: register_grpc_server_def method_path_def grpc_method_def on_connect_handler_def)



section \<open>The memory of a guest\<close>


definition read_memory :: "(u32 \<Rightarrow> byte) \<Rightarrow> u32 \<Rightarrow> nat \<Rightarrow> bytes" where
  "read_memory m ptr n = map (\<lambda>i. m (ptr + of_nat i)) [0..<n]"



lemma length_read_memory [simp]: "length (read_memory m ptr n) = n"
  by (simp add: read_memory_def)

section \<open>The WebAssembly example\<close>

















section \<open>The messages of the example\<close>






















section \<open>A gRPC plugin\<close>






end
