(* ===== verification/Spec2Isabelle.thy ===== *)
theory Spec2Isabelle
  imports RoutingProperties CodecProperties ReferralProperties PluginProperties StreamProperties DiscoveryProperties
    ConfigProperties SystemProperties PluginGuests
begin

text \<open>
  A verification development for hyrouter, a QUIC entry router for Hytale game servers.

  \<^bold>\<open>The program.\<close> A client opens a QUIC connection and sends a Connect packet on a stream. The router decides
  on a backend for the host name of the connection, lets its plugins change or deny that decision, and answers
  with one ClientReferral packet that names the backend and carries a signed envelope, or with a Disconnect
  packet. The backends come from the configuration and from discovery providers that watch Kubernetes or Agones.
  The calls go as follows, and the theories are composed in the same way:

  \<^item> \<^verbatim>\<open>cmd/hyrouter/main.go\<close> loads a configuration (\<^verbatim>\<open>internal/config\<close>), builds a server and runs it
    (\<^verbatim>\<open>internal/server/server.go\<close>);
  \<^item> the server builds the discovery manager (\<^verbatim>\<open>internal/discovery\<close>), the routing engine
    (\<^verbatim>\<open>internal/routing\<close>), the plugins in order (\<^verbatim>\<open>internal/plugins\<close>) and the TLS configuration
    (\<^verbatim>\<open>internal/server/tls.go\<close>), and accepts connections and streams;
  \<^item> each stream is a loop (\<^verbatim>\<open>internal/server/streams.go\<close>) over the frames of \<^verbatim>\<open>hytale_codec.go\<close>; a Connect
    packet asks the engine, which asks discovery through a callback, then the plugins, and the answer is written
    with an envelope of \<^verbatim>\<open>internal/referral\<close>.

  \<^bold>\<open>Which theory models what.\<close> Definitions keep the names of the Go functions in lower case with underscores.
  A struct is a record, an enumeration or an error value a datatype, a pointer an option; a byte slice is a list
  of 8-bit words and a Go string a list of characters that are bytes; fixed-width integers are words.

  \<^item> The language and its library: \<open>HyPrelude\<close> (vocabulary, 64-bit integers, lists), \<open>GoUnicode\<close>,
    \<open>GoStrings\<close> (\<^verbatim>\<open>strings\<close>, \<^verbatim>\<open>strconv\<close>), \<open>GoBinary\<close> (slices, \<^verbatim>\<open>encoding/binary\<close>), \<open>GoCrypto\<close> (SHA-256,
    HMAC, base64, hex), \<open>GoFloat\<close>, \<open>GoDuration\<close>, \<open>GoPath\<close> (\<^verbatim>\<open>path.Match\<close>), \<open>GoSort\<close>, \<open>GoJson\<close>, \<open>GoMarshal\<close>
    (lists of strings) and \<open>GoJsonTree\<close> (any JSON text), \<open>GoBase64\<close>. They hold what the router uses of the
    standard library and nothing else.
  \<^item> \<^verbatim>\<open>internal/routing\<close>: \<open>RoutingTypes\<close> (data and the state of the engine), \<open>RoutingMatch\<close>,
    \<open>RoutingDiscovery\<close>, \<open>RoutingFilters\<close>, \<open>RoutingSort\<close>, \<open>RoutingValidate\<close>, \<open>RoutingEngine\<close> (\<^verbatim>\<open>Decide\<close> and the
    strategies). An operation takes the engine (configuration, round-robin counters, random generator) and
    returns the new one.
  \<^item> \<^verbatim>\<open>internal/config\<close>: \<open>ConfigTypes\<close>, \<open>ConfigLoad\<close> (\<^verbatim>\<open>Default\<close>, \<^verbatim>\<open>Load\<close>, \<^verbatim>\<open>Validate\<close>).
  \<^item> \<^verbatim>\<open>internal/discovery\<close>: \<open>DiscoveryKubernetes\<close>, \<open>DiscoveryAgones\<close> (providers with their snapshots),
    \<open>DiscoveryManager\<close>; \<open>DiscoveryRun\<close> is the step relation of starts, events and resolutions.
  \<^item> \<^verbatim>\<open>internal/plugins\<close>: \<open>PluginOrder\<close>, \<open>PluginManager\<close>, \<open>PluginHosts\<close> (gRPC and WebAssembly),
    \<open>PluginMessages\<close> (the JSON of the messages), and \<open>PluginGuests\<close> for the service offered to plugin
    authors and the programs under \<^verbatim>\<open>examples\<close>.
  \<^item> \<^verbatim>\<open>internal/referral\<close>: \<open>Referral\<close>.
  \<^item> \<^verbatim>\<open>internal/server\<close>: \<open>HytaleCodec\<close> (packets), \<open>Messages\<close> (disconnect texts), \<open>StreamFrames\<close> (the read
    loop, with the handler of a packet as an argument), \<open>Streams\<close> (the handler), \<open>Tls\<close>, \<open>ServerRun\<close> (\<^verbatim>\<open>New\<close>,
    \<^verbatim>\<open>Run\<close>, the accept loops, the command). \<open>ServerSystem\<close> composes all streams of all connections into one
    step relation \<open>system_step\<close> over the shared engine.

  \<^bold>\<open>What is proved.\<close> The theories whose names end in \<open>Properties\<close>, and \<open>PluginGuests\<close>, hold the properties;
  each is marked with a number and explained where it stands. The others hold the lemmas they rest on.

  \<^item> The whole router (\<open>SystemProperties\<close>, on \<open>ServerTargets\<close>): a server that was started from a loaded
    configuration refers clients only to backends of that configuration, backends that its plugins named, and
    what its discovery providers may offer of a state of the cluster that was seen.
  \<^item> Concurrency (\<open>ServerProperties\<close>, on \<open>ServerSystem\<close>): under every interleaving the streams are isolated
    sessions, the engine goes through one sequence of decisions, and no reachable state is stuck.
  \<^item> Streams (\<open>StreamProperties\<close>, on \<open>StreamSession\<close> and \<open>StreamAnswers\<close>): \<^verbatim>\<open>dumpFrames\<close> refines an abstract
    session with at most one referral and one refusal, does not depend on how bytes are cut into reads, and ends.
  \<^item> Routing (\<open>RoutingProperties\<close>, on \<open>RoutingSelect\<close>, \<open>RoutingDecide\<close>, \<open>RoutingSafety\<close>, \<open>RoutingFair\<close>): which
    route, settings and candidate a decision comes from, how each strategy shares the load, termination, and the
    errors that are left after validation.
  \<^item> Discovery (\<open>DiscoveryProperties\<close>, on \<open>DiscoveryOffers\<close>), configuration (\<open>ConfigProperties\<close>), plugins
    (\<open>PluginProperties\<close>), referral envelopes (\<open>ReferralProperties\<close>) and the codec (\<open>CodecProperties\<close>, on
    \<open>HytaleCodecProps\<close>): what a provider may offer, what a loaded configuration satisfies, order and effect of
    plugins, round trips, soundness of verification, and absence of panics.
  \<^item> Plugins at the other end (\<open>PluginGuests\<close>, on \<open>PluginMessages\<close>): a plugin behind gRPC is as good as one in the
    process, and the WebAssembly example gives through its host the answers it means.

  \<^bold>\<open>Contracts.\<close> The interfaces are locales, each interpreted on the definitions of the code:
  \<open>index_choice\<close> (what a strategy owes the engine), \<open>weak_order\<close> (what sorting needs of a comparison),
  \<open>start_once\<close> (providers and the manager start once), \<open>snapshot_source\<close> (a snapshot comes from a state that was
  seen), \<open>frame_handler\<close> and \<open>frame_relation\<close> (what the read loop needs of a packet handler),
  \<open>contract_stream\<close> and \<open>reliable_stream\<close> (what the handler needs of a writer), and \<open>safe_packets\<close> (what the
  concurrent server needs of the handling of one packet).

  \<^bold>\<open>Termination.\<close> Nothing is cut off by fuel that the code does not have. The rejection loop of \<^verbatim>\<open>p2c\<close>, a write
  loop whose writer makes no progress, and slices out of range have the result \<open>None\<close>; that they do not occur is
  proved, for a random generator that is \<open>fair\<close> (it takes every value below a bound again and again) and a
  writer that obeys the contract of \<^verbatim>\<open>io.Writer\<close>. Every other loop is a recursion with a termination
  proof; the bound 5 of \<open>read_var_int\<close> is the one of the code, and \<open>topo_loop\<close> ends because each round
  appends one of the indices.

  \<^bold>\<open>Arguments of the model.\<close> Code outside of the repository is an argument: YAML and JSON decoding into the
  configuration structs, \<^verbatim>\<open>labels.Parse\<close>, client-go and its caches, the accessors of unstructured objects, the gRPC client, the
  WebAssembly runtime, key files, the QUIC listener, the clock, the random generator, and the plugins, which may
  answer differently at every packet. The order of Go's iteration over a map is an argument, or the map is the
  list of its entries in that order. Concurrency is interleaving of steps, the handling of a packet being one:
  the only state that streams share is the engine (its counter is atomic) and the snapshots of the providers,
  which are replaced as a whole under a lock.

  \<^bold>\<open>Not modelled.\<close> Logging (the text dumped for unknown packets included) and the fields that only it reads;
  \<^verbatim>\<open>Close\<close> of plugins, connections and timers, which only releases resources; the goroutine, the context and the
  select statement of \<^verbatim>\<open>handleConn\<close> beyond the event and the initial decision it hands to the streams; the flag
  that a stream was accepted, which is only logged; the generation of a self-signed certificate, which is a call
  into \<^verbatim>\<open>crypto/x509\<close>; the transport part of the gRPC glue; the texts of JSON errors; the flags and the
  listener of the gRPC example.
\<close>

end
